(* ===== verification/Prelude.thy ===== *)
theory Prelude
  imports Main "HOL-Library.Char_ord" "HOL-Library.List_Lexorder" "HOL-Library.Word"
begin

text \<open>
  Shared vocabulary of the development: the exceptions of the C++ code as values, the
  sum type every fallible operation returns, the standard containers the components use
  (\<open>std::map\<close> as a key-sorted association list, \<open>std::unordered_map\<close> as an
  association list in iteration order) behind one dictionary interface, and the generic
  lemmas and lemma collections of the component theories.
\<close>

section \<open>Machine integers, strings and exceptions\<close>

type_synonym u8 = "8 word"
type_synonym u16 = "16 word"
type_synonym u32 = "32 word"
type_synonym i64 = "64 word"

text \<open>
  The exceptions the code can raise. All but the last derive from \<open>std::exception\<close>;
  \<open>Undefined\<close> is undefined behaviour of C++ (a read past the end of a string, an index
  past the end of a vector, an unchecked cast to the wrong type): no handler catches it.
\<close>

datatype exn =
    Bad_get
  | Runtime_error string
  | Out_of_range
  | Invalid_argument
  | Sqlite_error string
  | Undefined

type_synonym 'a result = "exn + 'a"

fun catchable :: "exn \<Rightarrow> bool" where
  "catchable Undefined = False"
| "catchable _ = True"

definition bindE :: "'a result \<Rightarrow> ('a \<Rightarrow> 'b result) \<Rightarrow> 'b result" where
  "bindE r f = (case r of Inl e \<Rightarrow> Inl e | Inr x \<Rightarrow> f x)"

lemma bindE_simps [simp]:
  "bindE (Inl e) f = Inl e" "bindE (Inr x) f = f x"
  by (simp_all add: bindE_def)

lemma bindE_Inr_iff: "bindE r f = Inr y \<longleftrightarrow> (\<exists>x. r = Inr x \<and> f x = Inr y)"
  by (cases r) auto

lemma bindE_Inl_iff: "bindE r f = Inl e \<longleftrightarrow> r = Inl e \<or> (\<exists>x. r = Inr x \<and> f x = Inl e)"
  by (cases r) auto

section \<open>The dictionary interface\<close>

text \<open>
  What the components use of a container that maps keys to values: a lookup, an
  overwriting update and an erase, over the container's own invariant.
\<close>

locale dictionary =
  fixes inv :: "'d \<Rightarrow> bool"
    and empty :: 'd
    and find :: "'k \<Rightarrow> 'd \<Rightarrow> 'v option"
    and upd :: "'k \<Rightarrow> 'v \<Rightarrow> 'd \<Rightarrow> 'd"
    and del :: "'k \<Rightarrow> 'd \<Rightarrow> 'd"
  assumes inv_empty: "inv empty"
    and inv_upd: "inv d \<Longrightarrow> inv (upd k v d)"
    and inv_del: "inv d \<Longrightarrow> inv (del k d)"
    and find_empty: "find k empty = None"
    and find_upd: "inv d \<Longrightarrow> find j (upd k v d) = (if j = k then Some v else find j d)"
    and find_del: "inv d \<Longrightarrow> find j (del k d) = (if j = k then None else find j d)"
begin

lemma find_upd_same: "inv d \<Longrightarrow> find k (upd k v d) = Some v"
  by (simp add: find_upd)

lemma find_upd_other: "inv d \<Longrightarrow> j \<noteq> k \<Longrightarrow> find j (upd k v d) = find j d"
  by (simp add: find_upd)

lemma find_del_upd: "inv d \<Longrightarrow> find k d = None \<Longrightarrow> find j (del k (upd k v d)) = find j d"
  by (simp add: find_upd find_del inv_upd)

lemma inv_fold_upd: "inv d \<Longrightarrow> inv (fold (\<lambda>(k, v). upd k v) kvs d)"
  by (induction kvs arbitrary: d) (auto simp: inv_upd)

lemma find_fold_upd:
  "inv d \<Longrightarrow> find j (fold (\<lambda>(k, v). upd k v) kvs d)
     = (case map_of (rev kvs) j of Some v \<Rightarrow> Some v | None \<Rightarrow> find j d)"
proof (induction kvs arbitrary: d)
  case Nil
  then show ?case by simp
next
  case (Cons kv kvs)
  obtain k v where kv: "kv = (k, v)" by fastforce
  from Cons.IH [of "upd k v d"] Cons.prems show ?case
    by (auto simp: kv inv_upd find_upd map_add_def split: option.splits)
qed

end

section \<open>std::map: a key-sorted association list\<close>

type_synonym 'v omap = "(string \<times> 'v) list"

definition om_inv :: "'v omap \<Rightarrow> bool" where
  "om_inv m \<longleftrightarrow> sorted_wrt (<) (map fst m)"

definition om_find :: "string \<Rightarrow> 'v omap \<Rightarrow> 'v option" where
  "om_find k m = map_of m k"

fun om_set :: "string \<Rightarrow> 'v \<Rightarrow> 'v omap \<Rightarrow> 'v omap" where
  "om_set k v [] = [(k, v)]"
| "om_set k v ((j, w) # m) =
     (if k < j then (k, v) # (j, w) # m
      else if k = j then (k, v) # m
      else (j, w) # om_set k v m)"

definition om_erase :: "string \<Rightarrow> 'v omap \<Rightarrow> 'v omap" where
  "om_erase k m = filter (\<lambda>p. fst p \<noteq> k) m"

text \<open>\<open>insert\<close> of a range keeps the entries that are already there.\<close>

definition om_merge :: "'v omap \<Rightarrow> 'v omap \<Rightarrow> 'v omap" where
  "om_merge m n = fold (\<lambda>(k, v) acc. if om_find k acc = None then om_set k v acc else acc) n m"

lemma om_set_keys: "fst ` set (om_set k v m) = insert k (fst ` set m)"
proof (induction m)
  case (Cons p m)
  then show ?case by (cases p) (simp add: insert_commute)
qed simp

lemma om_inv_Nil [simp]: "om_inv []"
  by (simp add: om_inv_def)

lemma om_inv_Cons: "om_inv ((k, v) # m) \<longleftrightarrow> (\<forall>j \<in> fst ` set m. k < j) \<and> om_inv m"
  by (auto simp: om_inv_def)

lemma om_inv_set: "om_inv m \<Longrightarrow> om_inv (om_set k v m)"
  by (induction m) (force simp: om_inv_Cons om_set_keys)+

lemma om_inv_erase: "om_inv m \<Longrightarrow> om_inv (om_erase k m)"
  by (induction m) (auto simp: om_inv_Cons om_erase_def)

lemma om_find_Nil [simp]: "om_find k [] = None"
  by (simp add: om_find_def)

lemma om_find_Cons: "om_find j ((k, v) # m) = (if j = k then Some v else om_find j m)"
  by (simp add: om_find_def)

lemma om_find_set: "om_find j (om_set k v m) = (if j = k then Some v else om_find j m)"
  by (induction m) (auto simp: om_find_Cons)

lemma om_find_erase: "om_find j (om_erase k m) = (if j = k then None else om_find j m)"
  by (induction m) (auto simp: om_find_Cons om_erase_def)

lemma om_find_None_iff: "om_find k m = None \<longleftrightarrow> k \<notin> fst ` set m"
  by (simp add: om_find_def map_of_eq_None_iff)

lemma om_find_in_set: "om_find k m = Some v \<Longrightarrow> (k, v) \<in> set m"
  by (simp add: om_find_def map_of_SomeD)

lemma om_find_merge:
  "om_find j (om_merge m n) = (case om_find j m of Some v \<Rightarrow> Some v | None \<Rightarrow> om_find j n)"
proof (induction n arbitrary: m)
  case Nil
  then show ?case by (simp add: om_merge_def split: option.splits)
next
  case (Cons p n)
  obtain k v where p: "p = (k, v)" by fastforce
  have "om_merge m (p # n) = om_merge (if om_find k m = None then om_set k v m else m) n"
    by (simp add: om_merge_def p)
  with Cons.IH [of "if om_find k m = None then om_set k v m else m"] show ?case
    by (auto simp: p om_find_Cons om_find_set split: option.splits)
qed

lemma om_inv_merge: "om_inv m \<Longrightarrow> om_inv (om_merge m n)"
  by (induction n arbitrary: m) (auto simp: om_merge_def om_inv_set)

text \<open>An insertion after the last key is an append: what a parser of sorted text needs.\<close>

lemma om_set_snoc: "\<forall>j \<in> fst ` set m. j < k \<Longrightarrow> om_set k v m = m @ [(k, v)]"
  by (induction m) auto

lemma om_set_overwrite: "om_inv m \<Longrightarrow> om_set k w (om_set k v m) = om_set k w m"
  by (induction m) (auto simp: om_inv_Cons)

text \<open>Two sorted containers with the same lookups are the same container.\<close>

lemma om_ext:
  assumes "om_inv m" "om_inv n" "\<And>k. om_find k m = om_find k n"
  shows "m = n"
  using assms
proof (induction m arbitrary: n)
  case Nil
  then show ?case
    by (cases n) (auto simp: om_find_Cons split: if_splits, metis option.distinct(1))
next
  case (Cons p m)
  obtain k v where p: "p = (k, v)" by fastforce
  have inn: "j \<in> fst ` set (p # m) \<longleftrightarrow> j \<in> fst ` set n" for j
    using om_find_None_iff [of j "p # m"] om_find_None_iff [of j n] Cons.prems(3) [of j] by metis
  from inn [of k] have "n \<noteq> []" by (auto simp: p)
  then obtain j w n' where n: "n = (j, w) # n'" by (cases n) auto
  have "k = j"
  proof (rule ccontr)
    assume ne: "k \<noteq> j"
    then have "k \<in> fst ` set n'" "j \<in> fst ` set m"
      using inn [of k] inn [of j] by (simp_all add: p n)
    then have "j < k" "k < j"
      using Cons.prems(1,2) by (auto simp: p n om_inv_Cons)
    then show False by order
  qed
  moreover have "v = w"
    using Cons.prems(3) [of k] \<open>k = j\<close> by (simp add: p n om_find_Cons)
  moreover have "om_find l m = om_find l n'" for l
  proof (cases "l = k")
    case True
    have "k \<notin> fst ` set m" "k \<notin> fst ` set n'"
      using Cons.prems(1,2) \<open>k = j\<close> by (auto simp: p n om_inv_Cons)
    then show ?thesis using True by (metis om_find_None_iff)
  next
    case False
    then show ?thesis using Cons.prems(3) [of l] \<open>k = j\<close> by (simp add: p n om_find_Cons)
  qed
  ultimately show ?case
    using Cons.IH [of n'] Cons.prems(1,2) by (simp add: p n om_inv_Cons)
qed

interpretation om: dictionary om_inv "[]" om_find om_set om_erase
  by unfold_locales (auto simp: om_inv_set om_inv_erase om_find_set om_find_erase)

section \<open>std::unordered_map and std::unordered_set\<close>

text \<open>
  Association lists in iteration order. The position of a new element is not specified by
  the standard; it is put first here, as the GNU library does for an empty bucket.
\<close>

definition um_inv :: "('k \<times> 'v) list \<Rightarrow> bool" where
  "um_inv m \<longleftrightarrow> distinct (map fst m)"

definition um_find :: "'k \<Rightarrow> ('k \<times> 'v) list \<Rightarrow> 'v option" where
  "um_find k m = map_of m k"

definition um_erase :: "'k \<Rightarrow> ('k \<times> 'v) list \<Rightarrow> ('k \<times> 'v) list" where
  "um_erase k m = filter (\<lambda>p. fst p \<noteq> k) m"

text \<open>\<open>emplace\<close> does nothing when the key is present.\<close>

definition um_emplace :: "'k \<Rightarrow> 'v \<Rightarrow> ('k \<times> 'v) list \<Rightarrow> ('k \<times> 'v) list" where
  "um_emplace k v m = (case um_find k m of None \<Rightarrow> (k, v) # m | Some _ \<Rightarrow> m)"

text \<open>\<open>m[k] = v\<close> overwrites.\<close>

fun um_set :: "'k \<Rightarrow> 'v \<Rightarrow> ('k \<times> 'v) list \<Rightarrow> ('k \<times> 'v) list" where
  "um_set k v m =
     (case um_find k m of None \<Rightarrow> (k, v) # m
      | Some _ \<Rightarrow> map (\<lambda>p. if fst p = k then (k, v) else p) m)"

declare um_set.simps [simp del]

definition us_emplace :: "'a \<Rightarrow> 'a list \<Rightarrow> 'a list" where
  "us_emplace x xs = (if x \<in> set xs then xs else x # xs)"

definition us_erase :: "'a \<Rightarrow> 'a list \<Rightarrow> 'a list" where
  "us_erase x xs = filter (\<lambda>y. y \<noteq> x) xs"

lemma um_find_Nil [simp]: "um_find k [] = None"
  by (simp add: um_find_def)

lemma um_find_Cons: "um_find j ((k, v) # m) = (if j = k then Some v else um_find j m)"
  by (simp add: um_find_def)

lemma um_find_None_iff: "um_find k m = None \<longleftrightarrow> k \<notin> fst ` set m"
  by (simp add: um_find_def map_of_eq_None_iff)

lemma um_inv_Nil [simp]: "um_inv []"
  by (simp add: um_inv_def)

lemma um_find_emplace:
  "um_find j (um_emplace k v m) =
     (if j = k then (case um_find k m of None \<Rightarrow> Some v | Some w \<Rightarrow> Some w) else um_find j m)"
  by (auto simp: um_emplace_def um_find_Cons split: option.splits)

lemma um_inv_emplace: "um_inv m \<Longrightarrow> um_inv (um_emplace k v m)"
  by (auto simp: um_emplace_def um_inv_def um_find_None_iff split: option.splits)

lemma um_find_erase: "um_find j (um_erase k m) = (if j = k then None else um_find j m)"
  by (induction m) (auto simp: um_erase_def um_find_Cons)

lemma um_inv_erase: "um_inv m \<Longrightarrow> um_inv (um_erase k m)"
  by (induction m) (auto simp: um_erase_def um_inv_def)

lemma um_find_map_upd:
  "um_find j (map (\<lambda>p. if fst p = k then (k, v) else p) m)
     = (if j = k then (case um_find k m of None \<Rightarrow> None | Some _ \<Rightarrow> Some v) else um_find j m)"
  by (induction m) (auto simp: um_find_Cons)

lemma um_find_set: "um_find j (um_set k v m) = (if j = k then Some v else um_find j m)"
  by (auto simp: um_set.simps um_find_Cons um_find_map_upd split: option.splits)

lemma um_inv_set:
  assumes "um_inv m"
  shows "um_inv (um_set k v m)"
proof (cases "um_find k m")
  case None
  then have "um_set k v m = (k, v) # m" by (simp add: um_set.simps)
  moreover have "k \<notin> fst ` set m" using None by (rule um_find_None_iff [THEN iffD1])
  ultimately show ?thesis using assms by (simp add: um_inv_def)
next
  case (Some w)
  have "map fst (map (\<lambda>p. if fst p = k then (k, v) else p) m) = map fst m"
    by (induction m) auto
  then show ?thesis
    using assms Some by (simp only: um_set.simps um_inv_def option.case)
qed

interpretation um: dictionary um_inv "[]" um_find um_set um_erase
  by unfold_locales (auto simp: um_inv_set um_inv_erase um_find_set um_find_erase)

lemma set_us_emplace [simp]: "set (us_emplace x xs) = insert x (set xs)"
  by (auto simp: us_emplace_def)

lemma distinct_us_emplace: "distinct xs \<Longrightarrow> distinct (us_emplace x xs)"
  by (simp add: us_emplace_def)

lemma set_us_erase [simp]: "set (us_erase x xs) = set xs - {x}"
  by (auto simp: us_erase_def)

lemma distinct_us_erase: "distinct xs \<Longrightarrow> distinct (us_erase x xs)"
  by (simp add: us_erase_def)

section \<open>Splitting a string at a separator\<close>

text \<open>
  The reference behaviour of \<open>boost::algorithm::split\<close> with \<open>is_any_of(".")\<close> and no
  token compression: cut at every separator, keeping empty tokens. It is used only in
  hypotheses about the library call, which is a parameter of the model.
\<close>

fun split_at :: "char \<Rightarrow> string \<Rightarrow> string list" where
  "split_at d [] = [[]]"
| "split_at d (c # cs) =
     (if c = d then [] # split_at d cs
      else (case split_at d cs of [] \<Rightarrow> [[c]] | t # ts \<Rightarrow> (c # t) # ts))"

lemma split_at_nonempty [simp]: "split_at d s \<noteq> []"
  by (induction s) (auto split: list.splits)

lemma split_at_no_sep: "d \<notin> set s \<Longrightarrow> split_at d s = [s]"
  by (induction s) auto

lemma split_at_append:
  "d \<notin> set s \<Longrightarrow> split_at d (s @ d # t) = s # split_at d t"
  by (induction s) auto

end
