(* ===== verification/Base64.thy ===== *)
theory Base64
  imports Prelude
begin

text \<open>
  \<open>stream-crypt/src/base64.cpp\<close>: the encoder and the decoder over octets, with the
  indices and the two small buffers of the code, and the lemmas that make them inverse to
  each other.
\<close>

unbundle bit_operations_syntax

section \<open>The code\<close>

definition base64_chars :: string where
  "base64_chars =
     ''ABCDEFGHIJKLMNOPQRSTUVWXYZ'' @
     ''abcdefghijklmnopqrstuvwxyz'' @
     ''0123456789+/''"

text \<open>\<open>isalnum\<close> of the C locale.\<close>

definition is_alnum :: "char \<Rightarrow> bool" where
  "is_alnum c \<longleftrightarrow>
     (CHR ''A'' \<le> c \<and> c \<le> CHR ''Z'') \<or> (CHR ''a'' \<le> c \<and> c \<le> CHR ''z'') \<or>
     (CHR ''0'' \<le> c \<and> c \<le> CHR ''9'')"

definition is_base64 :: "char \<Rightarrow> bool" where
  "is_base64 c \<longleftrightarrow> is_alnum c \<or> c = CHR ''+'' \<or> c = CHR ''/''"

text \<open>\<open>std::string::find\<close> of a character: \<open>npos\<close>, stored in an octet, is 255.\<close>

fun find_char :: "string \<Rightarrow> char \<Rightarrow> u8 \<Rightarrow> u8" where
  "find_char [] c i = 255"
| "find_char (x # xs) c i = (if x = c then i else find_char xs c (i + 1))"

definition base64_find :: "char \<Rightarrow> u8" where
  "base64_find c = find_char base64_chars c 0"

definition base64_at :: "u8 \<Rightarrow> char" where
  "base64_at v = base64_chars ! unat v"

text \<open>One group of three octets becomes four sextets.\<close>

definition enc_group :: "u8 \<Rightarrow> u8 \<Rightarrow> u8 \<Rightarrow> u8 list" where
  "enc_group x y z =
     [drop_bit 2 (x AND 0xfc),
      push_bit 4 (x AND 0x03) + drop_bit 4 (y AND 0xf0),
      push_bit 2 (y AND 0x0f) + drop_bit 6 (z AND 0xc0),
      z AND 0x3f]"

text \<open>
  The loop of \<open>base64_encode\<close>: \<open>buf\<close> is the part of \<open>char_array_3\<close> that is filled
  (its length is \<open>i\<close>), \<open>n\<close> is \<open>in_len\<close>. Reading past the end of the buffer
  behind \<open>bytes_to_encode\<close> is undefined.
\<close>

definition enc_tail :: "u8 list \<Rightarrow> string" where
  "enc_tail buf =
     (let i = length buf; g = buf @ replicate (3 - i) 0; q = enc_group (g ! 0) (g ! 1) (g ! 2)
      in if i = 0 then []
         else map base64_at (take (i + 1) q) @ replicate (3 - i) CHR ''='')"

fun enc_loop :: "u8 list \<Rightarrow> u32 \<Rightarrow> u8 list \<Rightarrow> string result" where
  "enc_loop buf n [] = (if n = 0 then Inr (enc_tail buf) else Inl Undefined)"
| "enc_loop buf n (b # bs) =
     (if n = 0 then Inr (enc_tail buf)
      else
        let buf' = buf @ [b] in
        if length buf' = 3
        then map_sum id
               (\<lambda>r. map base64_at (enc_group (buf' ! 0) (buf' ! 1) (buf' ! 2)) @ r)
               (enc_loop [] (n - 1) bs)
        else enc_loop buf' (n - 1) bs)"

definition base64_encode :: "u8 list \<Rightarrow> u32 \<Rightarrow> string result" where
  "base64_encode bytes len = enc_loop [] len bytes"

text \<open>Four sextets become three octets; the shifts drop what leaves the octet.\<close>

definition dec_group :: "u8 \<Rightarrow> u8 \<Rightarrow> u8 \<Rightarrow> u8 \<Rightarrow> u8 list" where
  "dec_group p q r s =
     [push_bit 2 p + drop_bit 4 (q AND 0x30),
      push_bit 4 (q AND 0xf) + drop_bit 2 (r AND 0x3c),
      push_bit 6 (r AND 0x3) + s]"

text \<open>
  \<open>char_array_4\<close> holds the characters of the current group (\<open>buf\<close>, its length is
  \<open>i\<close>) and then their sextets. The tail of \<open>base64_decode\<close> reads all of it, also
  the entries that were not written for this group: \<open>old\<close> is what the array held there.
\<close>

definition dec_tail :: "u8 list \<Rightarrow> string \<Rightarrow> u8 list" where
  "dec_tail old buf =
     (let i = length buf; g = map base64_find buf @ drop i old
      in if i = 0 then []
         else take (i - 1) (take 2 (dec_group (g ! 0) (g ! 1) (g ! 2) (g ! 3))))"

text \<open>
  The loop of \<open>base64_decode\<close>. \<open>n\<close> is \<open>in_len\<close> and \<open>i\<close> is \<open>in_\<close>, both signed: the decrement of
  the smallest \<open>int\<close> and the increment of the largest are undefined. The decrement is part of
  the test, so it happens in every round, also in the last. At the end of the string
  \<open>encoded_string[in_]\<close> is the terminating zero, which is not a base64 character.
\<close>

type_synonym i32 = "32 word"

definition int_min :: i32 where
  "int_min = 0x80000000"

definition int_max :: i32 where
  "int_max = 0x7fffffff"

fun dec_loop :: "u8 list \<Rightarrow> string \<Rightarrow> i32 \<Rightarrow> i32 \<Rightarrow> string \<Rightarrow> u8 list result" where
  "dec_loop old buf n i [] = (if n = int_min then Inl Undefined else Inr (dec_tail old buf))"
| "dec_loop old buf n i (c # cs) =
     (if n = int_min then Inl Undefined
      else if n \<noteq> 0 \<and> c \<noteq> CHR ''='' \<and> is_base64 c then
        if i = int_max then Inl Undefined
        else
          let buf' = buf @ [c] in
          if length buf' = 4
          then
            let g = map base64_find buf'
            in map_sum id (\<lambda>r. dec_group (g ! 0) (g ! 1) (g ! 2) (g ! 3) @ r) (dec_loop g [] (n - 1) (i + 1) cs)
          else dec_loop old buf' (n - 1) (i + 1) cs
      else Inr (dec_tail old buf))"

text \<open>
  \<open>junk\<close>: the indeterminate contents of \<open>char_array_4\<close> on entry. \<open>int in_len = size()\<close> keeps
  the lowest 32 bits.
\<close>

definition base64_decode :: "u8 list \<Rightarrow> string \<Rightarrow> u8 list result" where
  "base64_decode junk s = dec_loop junk [] (of_nat (length s)) 0 s"

section \<open>Reference encoder\<close>

fun enc_ref :: "u8 list \<Rightarrow> string" where
  "enc_ref [] = []"
| "enc_ref [x] = map base64_at (take 2 (enc_group x 0 0)) @ ''==''"
| "enc_ref [x, y] = map base64_at (take 3 (enc_group x y 0)) @ ''=''"
| "enc_ref (x # y # z # r) = map base64_at (enc_group x y z) @ enc_ref r"

lemma unat_Suc_pred: "unat n = Suc m \<Longrightarrow> n \<noteq> 0 \<and> unat (n - 1) = m" for n :: "'a::len word"
  using unat_minus_one [of n] by (cases "n = 0") simp_all

lemma enc_loop_ref:
  "unat n = length bs \<Longrightarrow> enc_loop [] n bs = Inr (enc_ref bs)"
proof (induction bs arbitrary: n rule: enc_ref.induct)
  case (4 x y z r)
  have a: "n \<noteq> 0" "unat (n - 1) = Suc (Suc (length r))"
    using "4.prems" by (auto dest: unat_Suc_pred)
  then have b: "n - 1 \<noteq> 0" "unat (n - 1 - 1) = Suc (length r)"
    by (blast dest: unat_Suc_pred)+
  then have c: "n - 1 - 1 \<noteq> 0" "unat (n - 1 - 1 - 1) = length r"
    by (blast dest: unat_Suc_pred)+
  show ?case
    using a(1) b(1) c(1) "4.IH" [OF c(2)] by (simp add: Let_def)
next
  case (3 x y)
  have a: "n \<noteq> 0" "unat (n - 1) = Suc 0"
    using "3.prems" by (auto dest: unat_Suc_pred)
  then have b: "n - 1 \<noteq> 0" "unat (n - 1 - 1) = 0"
    by (blast dest: unat_Suc_pred)+
  then have "n - 1 - 1 = 0" by (simp only: unat_eq_0)
  then show ?case
    using a(1) b(1) by (simp add: Let_def enc_tail_def numeral_eq_Suc)
next
  case (2 x)
  have a: "n \<noteq> 0" "unat (n - 1) = 0"
    using "2.prems" by (auto dest: unat_Suc_pred)
  then have "n - 1 = 0" by (simp only: unat_eq_0)
  with a(1) show ?case by (simp add: Let_def enc_tail_def numeral_eq_Suc)
qed (simp add: enc_tail_def Let_def unat_eq_0)

section \<open>Reference decoder\<close>

text \<open>
  The decoder without its counters: neither overflows, and \<open>in_len\<close> does not stop the loop
  before the end, for a string shorter than \<open>2 ^ 31\<close>.
\<close>

fun dec_ref :: "u8 list \<Rightarrow> string \<Rightarrow> string \<Rightarrow> u8 list" where
  "dec_ref old buf [] = dec_tail old buf"
| "dec_ref old buf (c # cs) =
     (if c \<noteq> CHR ''='' \<and> is_base64 c then
        if length buf = 3
        then let g = map base64_find (buf @ [c])
             in dec_group (g ! 0) (g ! 1) (g ! 2) (g ! 3) @ dec_ref g [] cs
        else dec_ref old (buf @ [c]) cs
      else dec_tail old buf)"

lemma not_int_max: "unat i < 2 ^ 31 - 1 \<Longrightarrow> i \<noteq> int_max" and not_int_min: "unat n < 2 ^ 31 \<Longrightarrow> n \<noteq> int_min"
  by (auto simp: int_max_def int_min_def)

lemma unat_next: "unat i < 2 ^ 31 - 1 \<Longrightarrow> unat (i + 1) = Suc (unat i)" for i :: i32
  by (simp add: unat_word_ariths)

lemma dec_loop_ref:
  "length s \<le> unat n \<Longrightarrow> unat n < 2 ^ 31 \<Longrightarrow> unat i + length s < 2 ^ 31 \<Longrightarrow>
     dec_loop old buf n i s = Inr (dec_ref old buf s)"
proof (induction s arbitrary: n i old buf)
  case Nil
  then show ?case by (simp add: not_int_min)
next
  case (Cons c cs)
  obtain m where m: "unat n = Suc m" "length cs \<le> m"
    using Cons.prems by (cases "unat n") auto
  then have step: "n \<noteq> 0" "length cs \<le> unat (n - 1)" "unat (n - 1) < 2 ^ 31"
    using Cons.prems(2) by (auto dest: unat_Suc_pred)
  have next_index: "n \<noteq> int_min" "i \<noteq> int_max" "unat (i + 1) + length cs < 2 ^ 31"
    using Cons.prems by (simp_all add: not_int_min not_int_max unat_next)
  have IH: "dec_loop old' buf' (n - 1) (i + 1) cs = Inr (dec_ref old' buf' cs)" for old' buf'
    by (rule Cons.IH [OF step(2,3) next_index(3)])
  show ?case using step(1) next_index(1,2) by (simp add: IH Let_def numeral_eq_Suc)
qed

lemma base64_decode_ref:
  "length s < 2 ^ 31 \<Longrightarrow> base64_decode junk s = Inr (dec_ref junk [] s)"
  unfolding base64_decode_def
  by (rule dec_loop_ref) (simp_all add: unat_of_nat take_bit_nat_eq_self)

text \<open>The first length at which the counter overflows, whatever the string holds.\<close>

lemma base64_decode_overflows: "length s = 2 ^ 31 \<Longrightarrow> base64_decode junk s = Inl Undefined"
proof -
  assume len: "length s = 2 ^ 31"
  have "of_nat (length s) = int_min" by (simp only: len) (simp add: int_min_def)
  then show ?thesis unfolding base64_decode_def by (cases s) (simp_all only: dec_loop.simps if_True refl)
qed

section \<open>The two groups are inverse\<close>

text \<open>Octets are equal when their eight bits are; disjoint sums are unions of bits.\<close>

lemma all_bits8:
  "(\<forall>n < 8. P (n::nat)) \<longleftrightarrow> P 0 \<and> P 1 \<and> P 2 \<and> P 3 \<and> P 4 \<and> P 5 \<and> P 6 \<and> P 7"
  by (simp add: numeral_eq_Suc All_less_Suc) (auto simp: numeral_eq_Suc)

lemma octet_eqI: "(\<forall>n < 8. bit x n = bit y n) \<Longrightarrow> x = y" for x y :: u8
  by (rule bit_word_eqI) simp

lemmas octet_add_or = disjunctive_add_eq_or [where 'a = u8]
lemmas octet_bits = all_bits8 bit_simps numeral_2_eq_2 [symmetric] numeral_3_eq_3 [symmetric]

lemma group_sums:
  "push_bit 4 (x AND 0x03) + drop_bit 4 (y AND 0xf0) = push_bit 4 (x AND 0x03) OR drop_bit 4 (y AND 0xf0)"
  "push_bit 2 (x AND 0x0f) + drop_bit 6 (y AND 0xc0) = push_bit 2 (x AND 0x0f) OR drop_bit 6 (y AND 0xc0)"
  "push_bit 2 x + drop_bit 4 (y AND 0x30) = push_bit 2 x OR drop_bit 4 (y AND 0x30)"
  "push_bit 4 (x AND 0xf) + drop_bit 2 (y AND 0x3c) = push_bit 4 (x AND 0xf) OR drop_bit 2 (y AND 0x3c)"
  "push_bit 6 (x AND 0x3) + (y AND 0x3f) = push_bit 6 (x AND 0x3) OR (y AND 0x3f)"
  for x y :: u8
  by (rule octet_add_or, rule octet_eqI, simp add: octet_bits)+

lemma sextet_small: "v AND 0x3f = v \<Longrightarrow> unat v < 64" for v :: u8
proof -
  assume "v AND 0x3f = v"
  then have "take_bit 6 v = v" by (simp add: take_bit_eq_mask mask_numeral)
  then have "unat v = take_bit 6 (unat v)" by (metis unsigned_take_bit_eq)
  also have "\<dots> < 64" using take_bit_nat_less_exp [of 6 "unat v"] by simp
  finally show ?thesis .
qed

lemma enc_group_sextets:
  "list_all (\<lambda>v. v AND 0x3f = v) (enc_group x y z)"
  unfolding enc_group_def group_sums
  by (simp, intro conjI; rule octet_eqI; simp add: octet_bits)

lemma group_octets:
  "push_bit 2 (drop_bit 2 (x AND 0xfc)) OR
     drop_bit 4 ((push_bit 4 (x AND 0x03) OR drop_bit 4 (y AND 0xf0)) AND 0x30) = x"
  "push_bit 4 ((push_bit 4 (x AND 0x03) OR drop_bit 4 (y AND 0xf0)) AND 0xf) OR
     drop_bit 2 ((push_bit 2 (y AND 0x0f) OR drop_bit 6 (z AND 0xc0)) AND 0x3c) = y"
  "push_bit 6 ((push_bit 2 (y AND 0x0f) OR drop_bit 6 (z AND 0xc0)) AND 0x3) OR (z AND 0x3f) = z"
  for x y z :: u8
  by (rule octet_eqI, simp add: octet_bits)+

lemma dec_enc_group:
  "enc_group x y z = [p, q, r, s] \<Longrightarrow> dec_group p q r s = [x, y, z]"
  unfolding enc_group_def dec_group_def
  by (simp only: list.inject, elim conjE, hypsubst, simp only: group_sums group_octets)

text \<open>The alphabet and its inverse, checked on all 64 sextets.\<close>

lemma alphabet_inverse:
  "list_all (\<lambda>i. base64_find (base64_at (of_nat i)) = of_nat i \<and> is_base64 (base64_at (of_nat i))
     \<and> base64_at (of_nat i) \<noteq> CHR ''='') [0..<64]"
  by code_simp

lemma alphabet:
  assumes "unat v < 64"
  shows "base64_find (base64_at v) = v" "is_base64 (base64_at v)" "base64_at v \<noteq> CHR ''=''"
proof -
  have "of_nat (unat v) = v" "unat v \<in> set [0..<64]" using assms by simp_all
  moreover have "\<forall>i \<in> set [0..<64]. base64_find (base64_at (of_nat i)) = of_nat i \<and>
      is_base64 (base64_at (of_nat i)) \<and> base64_at (of_nat i) \<noteq> CHR ''=''"
    using alphabet_inverse by (simp only: list_all_iff)
  ultimately have "base64_find (base64_at v) = v \<and> is_base64 (base64_at v) \<and> base64_at v \<noteq> CHR ''=''"
    by (metis (no_types))
  then show "base64_find (base64_at v) = v" "is_base64 (base64_at v)" "base64_at v \<noteq> CHR ''=''"
    by simp_all
qed

section \<open>Properties\<close>

lemma enc_group_small: "v \<in> set (enc_group x y z) \<Longrightarrow> unat v < 64"
  using enc_group_sextets [of x y z] by (auto simp: list_all_iff intro: sextet_small)

lemma length_enc_group [simp]: "length (enc_group x y z) = 4"
  by (simp add: enc_group_def)

lemma dec_ref_chars:
  "length buf + length vs < 4 \<Longrightarrow> \<forall>v \<in> set vs. unat v < 64 \<Longrightarrow>
   dec_ref old buf (map base64_at vs @ s) = dec_ref old (buf @ map base64_at vs) s"
proof (induction vs arbitrary: buf)
  case (Cons v vs)
  then show ?case by (simp add: alphabet)
qed simp

lemma dec_ref_group:
  assumes "enc_group x y z = [p, q, r, t]"
  shows "dec_ref old [] (map base64_at (enc_group x y z) @ s) = [x, y, z] @ dec_ref [p, q, r, t] [] s"
proof -
  have "\<forall>v \<in> {p, q, r, t}. unat v < 64"
    using enc_group_small [of _ x y z] assms by auto
  moreover have "dec_group p q r t = [x, y, z]"
    using assms by (rule dec_enc_group)
  ultimately show ?thesis
    by (simp add: assms alphabet Let_def)
qed

lemma enc_group_obtain:
  obtains p q r s where "enc_group x y z = [p, q, r, s]"
  by (simp add: enc_group_def)

lemma dec_enc_ref: "length old = 4 \<Longrightarrow> dec_ref old [] (enc_ref bs) = bs"
proof (induction bs arbitrary: old rule: enc_ref.induct)
  case (4 x y z rest)
  obtain p q r s where g: "enc_group x y z = [p, q, r, s]" by (rule enc_group_obtain)
  show ?case
    unfolding enc_ref.simps dec_ref_group [OF g] by (simp add: "4.IH")
next
  case (2 x)
  obtain p q r s where g: "enc_group x 0 0 = [p, q, r, s]" by (rule enc_group_obtain)
  then have small: "unat p < 64" "unat q < 64"
    using enc_group_small [of _ x 0 0] by auto
  have "hd (dec_group p q u v) = x" for u v
    using dec_enc_group [OF g] by (simp add: dec_group_def)
  then show ?case
    using small 2 by (auto simp: g alphabet dec_tail_def Let_def dec_group_def)
next
  case (3 x y)
  obtain p q r s where g: "enc_group x y 0 = [p, q, r, s]" by (rule enc_group_obtain)
  then have small: "unat p < 64" "unat q < 64" "unat r < 64"
    using enc_group_small [of _ x y 0] by auto
  have "take 2 (dec_group p q r v) = [x, y]" for v
    using dec_enc_group [OF g] by (simp add: dec_group_def)
  then show ?case
    using small 3 by (simp add: g alphabet dec_tail_def Let_def numeral_eq_Suc)
qed (simp add: dec_tail_def Let_def)

lemma length_enc_ref: "length (enc_ref bs) = 4 * ((length bs + 2) div 3)"
proof (induction bs rule: enc_ref.induct)
  case (4 x y z r)
  have "(length (x # y # z # r) + 2) div 3 = Suc ((length r + 2) div 3)" by simp
  with 4 show ?case by simp
qed simp_all

lemma set_enc_ref: "c \<in> set (enc_ref bs) \<Longrightarrow> is_base64 c \<or> c = CHR ''=''"
proof (induction bs rule: enc_ref.induct)
  case (2 x)
  then show ?case using enc_group_small [of _ x 0 0] alphabet(2)
    by (auto dest!: in_set_takeD)
next
  case (3 x y)
  then show ?case using enc_group_small [of _ x y 0] alphabet(2)
    by (auto dest!: in_set_takeD)
next
  case (4 x y z r)
  then show ?case using enc_group_small [of _ x y z] alphabet(2) by auto
qed simp

lemma base64_encode_ref:
  "length bs < 2 ^ 32 \<Longrightarrow> base64_encode bs (of_nat (length bs)) = Inr (enc_ref bs)"
  unfolding base64_encode_def
  by (rule enc_loop_ref) (simp add: unat_of_nat take_bit_eq_mod)

text \<open>
  C20: decoding what the encoder wrote gives the octets back, whatever the uninitialised array
  of the decoder held, for every octet string whose text is shorter than 2^31 characters, that
  is up to 1610612733 octets. The decoder counts with \<open>int\<close>: one octet more makes a text of
  2^31 characters, for which it overflows.
\<close>

theorem base64_roundtrip:
  assumes "length junk = 4" "length bs \<le> 1610612734"
  shows "\<exists>e. base64_encode bs (of_nat (length bs)) = Inr e
    \<and> base64_decode junk e = (if length bs \<le> 1610612733 then Inr bs else Inl Undefined)"
proof (intro exI conjI)
  show "base64_encode bs (of_nat (length bs)) = Inr (enc_ref bs)"
    using assms(2) by (intro base64_encode_ref) simp
  show "base64_decode junk (enc_ref bs) = (if length bs \<le> 1610612733 then Inr bs else Inl Undefined)"
  proof (cases "length bs \<le> 1610612733")
    case True
    then have "4 * ((length bs + 2) div 3) < 2 ^ 31" by simp
    with True assms(1) show ?thesis by (simp add: base64_decode_ref length_enc_ref dec_enc_ref)
  next
    case False
    then have "length bs = 1610612734" using assms(2) by simp
    then have "length (enc_ref bs) = 2 ^ 31" by (simp add: length_enc_ref)
    with False show ?thesis by (simp add: base64_decode_overflows)
  qed
qed

lemma base64_roundtrip_witness:
  "\<exists>e. base64_encode [77, 97, 110, 33] (of_nat (length [77, 97, 110, 33 :: u8])) = Inr e
     \<and> base64_decode [1, 2, 3, 4] e =
       (if length [77, 97, 110, 33 :: u8] \<le> 1610612733 then Inr [77, 97, 110, 33] else Inl Undefined)"
  by (rule base64_roundtrip) simp_all

text \<open>
  The encoder's output is a whole number of four-character groups, one for each three
  octets begun, over the base64 alphabet and the padding character.
\<close>

lemma base64_encode_format:
  assumes "length bs < 2 ^ 32" "base64_encode bs (of_nat (length bs)) = Inr e"
  shows "length e = 4 * ((length bs + 2) div 3) \<and> list_all (\<lambda>c. is_base64 c \<or> c = CHR ''='') e"
  using assms set_enc_ref by (auto simp: base64_encode_ref length_enc_ref list_all_iff)

lemma base64_encode_format_witness:
  "length ''TQ=='' = 4 * ((length [77 :: u8] + 2) div 3)
     \<and> list_all (\<lambda>c. is_base64 c \<or> c = CHR ''='') ''TQ==''"
proof (rule base64_encode_format)
  show "length [77 :: u8] < 2 ^ 32" by simp
  show "base64_encode [77] (of_nat (length [77 :: u8])) = Inr ''TQ==''" by code_simp
qed

end
