(* ===== verification/Json_Number.thy ===== *)
theory Json_Number
  imports Prelude "HOL-Library.Log_Nat"
begin

text \<open>
  The numbers of the JSON reader and writer: the decimal output of \<open>int64_t\<close> and
  \<open>double\<close> by an output stream with its default precision, and the two conversions of
  the C library that \<open>detail/parser.hpp\<close> uses, \<open>atoi\<close> and \<open>strtof\<close>.
\<close>

section \<open>Decimal digits and integers\<close>

definition is_digit :: "char \<Rightarrow> bool" where
  "is_digit c \<longleftrightarrow> CHR ''0'' \<le> c \<and> c \<le> CHR ''9''"

definition digit_val :: "char \<Rightarrow> nat" where
  "digit_val c = of_char c - 48"

definition digit_char :: "nat \<Rightarrow> char" where
  "digit_char d = char_of (48 + d)"

fun show_nat :: "nat \<Rightarrow> string" where
  "show_nat n = (if n < 10 then [digit_char n] else show_nat (n div 10) @ [digit_char (n mod 10)])"

declare show_nat.simps [simp del]

definition show_int :: "int \<Rightarrow> string" where
  "show_int i = (if i < 0 then CHR ''-'' # show_nat (nat (- i)) else show_nat (nat i))"

definition nat_of_digits :: "string \<Rightarrow> nat" where
  "nat_of_digits s = foldl (\<lambda>a c. 10 * a + digit_val c) 0 s"

definition is_space :: "char \<Rightarrow> bool" where
  "is_space c \<longleftrightarrow> c \<in> set [CHR '' '', CHR 0x09, CHR 0x0A, CHR 0x0B, CHR 0x0C, CHR 0x0D]"

text \<open>
  \<open>atoi\<close>: white space, a sign, digits; without digits the result is 0. A value that
  \<open>int\<close> cannot represent is undefined behaviour.
\<close>

definition in_int_range :: "int \<Rightarrow> bool" where
  "in_int_range i \<longleftrightarrow> - (2 ^ 31) \<le> i \<and> i < 2 ^ 31"

definition int_result :: "int \<Rightarrow> int result" where
  "int_result i = (if in_int_range i then Inr i else Inl Undefined)"

definition atoi :: "string \<Rightarrow> int result" where
  "atoi s =
     (case dropWhile is_space s of
        c # cs \<Rightarrow>
          if c = CHR ''-'' then int_result (- int (nat_of_digits (takeWhile is_digit cs)))
          else if c = CHR ''+'' then int_result (int (nat_of_digits (takeWhile is_digit cs)))
          else int_result (int (nat_of_digits (takeWhile is_digit (c # cs))))
      | [] \<Rightarrow> Inr 0)"

section \<open>Floating point values\<close>

text \<open>
  A finite value is a sign, a mantissa and a binary exponent. \<open>strtof\<close> rounds to the
  24 bits of \<open>float\<close> (to nearest, ties to even); the value is then widened to
  \<open>double\<close> without change.
\<close>

datatype float_t = Fin bool nat int | Inf bool

definition round_half_even :: "nat \<Rightarrow> nat \<Rightarrow> nat" where
  "round_half_even n d =
     (let q = n div d; r = n mod d
      in if 2 * r < d then q else if d < 2 * r then q + 1 else if even q then q else q + 1)"

text \<open>The numerator and the denominator of \<open>n / d\<close> times \<open>b ^ e\<close>.\<close>

definition scale :: "nat \<Rightarrow> nat \<Rightarrow> nat \<Rightarrow> int \<Rightarrow> nat \<times> nat" where
  "scale b n d e = (if 0 \<le> e then (n * b ^ nat e, d) else (n, d * b ^ nat (- e)))"

text \<open>The integer part of the logarithm of \<open>n / d\<close> to the base \<open>b\<close>.\<close>

definition floor_log_ratio :: "nat \<Rightarrow> nat \<Rightarrow> nat \<Rightarrow> int" where
  "floor_log_ratio b n d =
     (let k = int (floorlog b n) - int (floorlog b d); (x, y) = scale b n d (- k)
      in if y \<le> x then k else k - 1)"

definition round_float :: "bool \<Rightarrow> nat \<Rightarrow> nat \<Rightarrow> float_t" where
  "round_float neg n d =
     (if n = 0 then Fin neg 0 0
      else
        let e = max (- 149) (floor_log_ratio 2 n d - 23);
            (x, y) = scale 2 n d (- e);
            m = round_half_even x y
        in if m = 0 then Fin neg 0 0
           else if 104 < e \<or> (e = 104 \<and> 2 ^ 24 \<le> m) then Inf neg
           else Fin neg m e)"

text \<open>
  \<open>strtof\<close> on text that starts with a digit or a minus sign: the value and what follows
  the longest numeral. Without a numeral nothing is consumed and the result is 0.
\<close>

definition parse_exponent :: "string \<Rightarrow> int \<times> string" where
  "parse_exponent s =
     (case s of
        c # cs \<Rightarrow>
          if c = CHR ''e'' \<or> c = CHR ''E'' then
            let (neg, ds) =
              (case cs of
                 g # gs \<Rightarrow> if g = CHR ''-'' then (True, gs) else if g = CHR ''+'' then (False, gs)
                           else (False, cs)
               | [] \<Rightarrow> (False, []));
                 t = takeWhile is_digit ds
            in if t = [] then (0, s)
               else ((if neg then - int (nat_of_digits t) else int (nat_of_digits t)),
                     dropWhile is_digit ds)
          else (0, s)
      | [] \<Rightarrow> (0, []))"

definition strtof :: "string \<Rightarrow> float_t \<times> string" where
  "strtof s =
     (let (neg, t) = (case s of c # cs \<Rightarrow> if c = CHR ''-'' then (True, cs) else (False, s) | [] \<Rightarrow> (False, []));
          ip = takeWhile is_digit t;
          t1 = dropWhile is_digit t;
          (fp, t2) = (case t1 of
              c # cs \<Rightarrow> if c = CHR ''.'' then (takeWhile is_digit cs, dropWhile is_digit cs) else ([], t1)
            | [] \<Rightarrow> ([], []))
      in if ip = [] \<and> fp = [] then (Fin False 0 0, s)
         else
           let (x, t3) = parse_exponent t2;
               (n, d) = scale 10 (nat_of_digits (ip @ fp)) 1 (x - int (length fp))
           in (round_float neg n d, t3))"

text \<open>The output of a \<open>double\<close> with the default precision of six digits.\<close>

definition strip_zeros :: "string \<Rightarrow> string" where
  "strip_zeros s = rev (dropWhile (\<lambda>c. c = CHR ''0'') (rev s))"

definition with_fraction :: "string \<Rightarrow> string \<Rightarrow> string" where
  "with_fraction ip fp = (let f = strip_zeros fp in if f = [] then ip else ip @ CHR ''.'' # f)"

definition show_exponent :: "int \<Rightarrow> string" where
  "show_exponent x =
     (let ds = show_nat (nat \<bar>x\<bar>)
      in (if x < 0 then ''e-'' else ''e+'') @ (if length ds < 2 then CHR ''0'' # ds else ds))"

definition show_ratio :: "nat \<Rightarrow> nat \<Rightarrow> string" where
  "show_ratio n d =
     (let x0 = floor_log_ratio 10 n d;
          (p, q) = scale 10 n d (5 - x0);
          r = round_half_even p q;
          (x, g) = (if r = 10 ^ 6 then (x0 + 1, 10 ^ 5) else (x0, r));
          ds = show_nat g
      in if x < - 4 \<or> 6 \<le> x then with_fraction (take 1 ds) (drop 1 ds) @ show_exponent x
         else if x < 0 then with_fraction ''0'' (replicate (nat (- x) - 1) CHR ''0'' @ ds)
         else with_fraction (take (nat x + 1) ds) (drop (nat x + 1) ds))"

fun show_float :: "float_t \<Rightarrow> string" where
  "show_float (Inf neg) = (if neg then ''-inf'' else ''inf'')"
| "show_float (Fin neg m e) =
     (if neg then ''-'' else []) @
     (if m = 0 then ''0'' else (let (n, d) = scale 2 m 1 e in show_ratio n d))"

section \<open>Lemmas\<close>

lemma digit_char [simp]:
  assumes "d < 10"
  shows "is_digit (digit_char d)" "digit_val (digit_char d) = d"
proof -
  have "list_all (\<lambda>d. is_digit (digit_char d) \<and> digit_val (digit_char d) = d) [0..<10]"
    by code_simp
  with assms show "is_digit (digit_char d)" "digit_val (digit_char d) = d"
    by (auto simp: list_all_iff)
qed

lemma show_nat_not_Nil [simp]: "show_nat n \<noteq> []"
  by (subst show_nat.simps) simp

lemma show_nat_digits: "list_all is_digit (show_nat n)"
proof (induction n rule: show_nat.induct)
  case (1 n)
  then show ?case by (subst show_nat.simps) simp
qed

lemma nat_of_digits_snoc: "nat_of_digits (s @ [c]) = 10 * nat_of_digits s + digit_val c"
  by (simp add: nat_of_digits_def)

lemma nat_of_digits_show: "nat_of_digits (show_nat n) = n"
proof (induction n rule: show_nat.induct)
  case (1 n)
  show ?case
  proof (cases "n < 10")
    case True
    then show ?thesis by (subst show_nat.simps) (simp add: nat_of_digits_def)
  next
    case False
    with 1 show ?thesis by (subst show_nat.simps) (simp add: nat_of_digits_snoc)
  qed
qed

lemma takeWhile_digits:
  "list_all is_digit s \<Longrightarrow> (t = [] \<or> \<not> is_digit (hd t)) \<Longrightarrow> takeWhile is_digit (s @ t) = s"
  by (cases t) (auto simp: list_all_iff takeWhile_append2)

lemma dropWhile_digits:
  "list_all is_digit s \<Longrightarrow> (t = [] \<or> \<not> is_digit (hd t)) \<Longrightarrow> dropWhile is_digit (s @ t) = t"
  by (cases t) (auto simp: list_all_iff dropWhile_append2)

lemma digit_not_space: "is_digit c \<Longrightarrow> \<not> is_space c \<and> c \<noteq> CHR ''-'' \<and> c \<noteq> CHR ''+''"
  by (auto simp: is_digit_def is_space_def less_eq_char_def)

lemma show_int_start: "\<exists>c cs. show_int i = c # cs \<and> (c = CHR ''-'' \<or> is_digit c)"
  using show_nat_digits [of "nat i"] by (cases "show_nat (nat i)") (auto simp: show_int_def)

text \<open>\<open>atoi\<close> reads back what the stream wrote, whatever follows, in the range of \<open>int\<close>.\<close>

lemma atoi_show_int:
  assumes "in_int_range i" "t = [] \<or> \<not> is_digit (hd t)"
  shows "atoi (show_int i @ t) = Inr i"
proof (cases "i < 0")
  case True
  have "takeWhile is_digit (show_nat (nat (- i)) @ t) = show_nat (nat (- i))"
    using assms(2) show_nat_digits takeWhile_digits by blast
  then show ?thesis
    using True assms(1)
    by (simp add: atoi_def show_int_def is_space_def int_result_def nat_of_digits_show)
next
  case False
  obtain c cs where c: "show_nat (nat i) = c # cs" by (cases "show_nat (nat i)") auto
  have "is_digit c" using show_nat_digits [of "nat i"] by (simp add: c)
  moreover have "takeWhile is_digit (show_nat (nat i) @ t) = show_nat (nat i)"
    using assms(2) show_nat_digits takeWhile_digits by blast
  ultimately show ?thesis
    using False assms(1) nat_of_digits_show [of "nat i"]
    by (simp add: atoi_def show_int_def c digit_not_space int_result_def)
qed

end
