(* ===== verification/Json_Value.thy ===== *)
theory Json_Value
  imports Json_Number
begin

text \<open>
  \<open>stream-api/src/json\<close>: the value type (\<open>value.hpp\<close>) and the operations of the two
  containers (\<open>map.hpp\<close>, \<open>array.hpp\<close>). A map is a \<open>std::map\<close> from strings, a
  key-sorted association list; an array is a list.
\<close>

section \<open>Values\<close>

datatype json =
    JNull
  | JInt i64
  | JReal float_t
  | JBool bool
  | JStr string
  | JMap "(string \<times> json) list"
  | JArr "json list"

type_synonym json_map = "(string \<times> json) list"

datatype json_type = Ty_null | Ty_integer | Ty_real | Ty_boolean | Ty_string | Ty_map | Ty_array

fun get_type :: "json \<Rightarrow> json_type" where
  "get_type JNull = Ty_null"
| "get_type (JInt _) = Ty_integer"
| "get_type (JReal _) = Ty_real"
| "get_type (JBool _) = Ty_boolean"
| "get_type (JStr _) = Ty_string"
| "get_type (JMap _) = Ty_map"
| "get_type (JArr _) = Ty_array"

text \<open>\<open>which\<close>: the position of the alternative in the variant.\<close>

fun which :: "json_type \<Rightarrow> nat" where
  "which Ty_null = 0"
| "which Ty_integer = 1"
| "which Ty_real = 2"
| "which Ty_boolean = 3"
| "which Ty_string = 4"
| "which Ty_map = 5"
| "which Ty_array = 6"

lemma which_inj: "which s = which t \<longleftrightarrow> s = t"
  by (cases s; cases t) simp_all

text \<open>The alternatives are ordered as the variant numbers them.\<close>

instantiation json_type :: linorder
begin

definition less_eq_json_type :: "json_type \<Rightarrow> json_type \<Rightarrow> bool" where
  "less_eq_json_type s t \<longleftrightarrow> which s \<le> which t"

definition less_json_type :: "json_type \<Rightarrow> json_type \<Rightarrow> bool" where
  "less_json_type s t \<longleftrightarrow> which s < which t"

instance
  by standard (auto simp: less_eq_json_type_def less_json_type_def which_inj)

end

definition is_type :: "json \<Rightarrow> json_type \<Rightarrow> bool" where
  "is_type v t \<longleftrightarrow> get_type v = t"

text \<open>\<open>as<T>\<close> is \<open>boost::get\<close>: it raises unless the value holds that alternative.\<close>

fun as_string :: "json \<Rightarrow> string result" where
  "as_string (JStr s) = Inr s"
| "as_string _ = Inl Bad_get"

fun as_map :: "json \<Rightarrow> json_map result" where
  "as_map (JMap m) = Inr m"
| "as_map _ = Inl Bad_get"

fun as_array :: "json \<Rightarrow> json list result" where
  "as_array (JArr xs) = Inr xs"
| "as_array _ = Inl Bad_get"

fun as_int :: "json \<Rightarrow> i64 result" where
  "as_int (JInt i) = Inr i"
| "as_int _ = Inl Bad_get"

section \<open>Maps\<close>

text \<open>
  \<open>operator[]\<close> on a map returns a reference to the entry and first inserts a null entry
  when there is none, also through a constant reference, for the member is mutable: the
  model returns the value and the map as it is left.
\<close>

definition map_index :: "string \<Rightarrow> json_map \<Rightarrow> json \<times> json_map" where
  "map_index k m = (case om_find k m of Some v \<Rightarrow> (v, m) | None \<Rightarrow> (JNull, om_set k JNull m))"

definition map_has :: "string \<Rightarrow> json_map \<Rightarrow> bool" where
  "map_has k m \<longleftrightarrow> om_find k m \<noteq> None"

definition map_has_type :: "json_type \<Rightarrow> string \<Rightarrow> json_map \<Rightarrow> bool" where
  "map_has_type t k m \<longleftrightarrow> (case om_find k m of Some v \<Rightarrow> is_type v t | None \<Rightarrow> False)"

definition map_get_or :: "(json \<Rightarrow> 'a result) \<Rightarrow> string \<Rightarrow> 'a \<Rightarrow> json_map \<Rightarrow> 'a result" where
  "map_get_or as_t k fallback m = (case om_find k m of Some v \<Rightarrow> as_t v | None \<Rightarrow> Inr fallback)"

definition map_keys :: "json_map \<Rightarrow> string list" where
  "map_keys m = map fst m"

definition map_values :: "json_map \<Rightarrow> json list" where
  "map_values m = map snd m"

text \<open>
  \<open>get_for_path\<close> walks the tokens of a path and inserts null entries where the map has
  none; the second form returns a fallback instead. \<open>tokens\<close> is the path cut by
  \<open>boost::algorithm::split\<close>, which never returns an empty vector.
\<close>

fun path_index :: "string list \<Rightarrow> json_map \<Rightarrow> json result \<times> json_map" where
  "path_index [] m = (Inl Undefined, m)"
| "path_index [t] m = (let (v, m') = map_index t m in (Inr v, m'))"
| "path_index (t # ts) m =
     (let (v, m') = map_index t m
      in case as_map v of
           Inl e \<Rightarrow> (Inl e, m')
         | Inr sub \<Rightarrow> (let (r, sub') = path_index ts sub in (r, om_set t (JMap sub') m')))"

definition get_for_path ::
    "(string \<Rightarrow> string \<Rightarrow> string list) \<Rightarrow> (json \<Rightarrow> 'a result) \<Rightarrow> string \<Rightarrow> json_map \<Rightarrow> 'a result \<times> json_map" where
  "get_for_path split as_t path m =
     (let (r, m') = path_index (split path ''.'') m in (bindE r as_t, m'))"

fun path_find :: "(json \<Rightarrow> 'a result) \<Rightarrow> 'a \<Rightarrow> string list \<Rightarrow> json_map \<Rightarrow> 'a result" where
  "path_find as_t fallback [] m = Inl Undefined"
| "path_find as_t fallback [t] m =
     (case om_find t m of None \<Rightarrow> Inr fallback | Some v \<Rightarrow> as_t v)"
| "path_find as_t fallback (t # ts) m =
     (case om_find t m of
        None \<Rightarrow> Inr fallback
      | Some v \<Rightarrow> bindE (as_map v) (path_find as_t fallback ts))"

definition get_for_path_or ::
    "(string \<Rightarrow> string \<Rightarrow> string list) \<Rightarrow> (json \<Rightarrow> 'a result) \<Rightarrow> string \<Rightarrow> 'a \<Rightarrow> json_map \<Rightarrow> 'a result" where
  "get_for_path_or split as_t path fallback m = path_find as_t fallback (split path ''.'') m"

section \<open>Values as containers\<close>

definition required :: "string \<Rightarrow> json \<Rightarrow> exn" where
  "required what v =
     Runtime_error (''invalid value type ('' @ show_nat (which (get_type v)) @ ''); required '' @ what)"

text \<open>\<open>value::operator[]\<close> with a key: the entry, and the value with the entry in place.\<close>

definition value_index :: "string \<Rightarrow> json \<Rightarrow> (json \<times> json) result" where
  "value_index k v =
     (case v of
        JMap m \<Rightarrow> (let (x, m') = map_index k m in Inr (x, JMap m'))
      | _ \<Rightarrow> Inl (required ''map'' v))"

text \<open>With an index: \<open>std::vector::operator[]\<close> does not check its range.\<close>

definition value_at :: "u32 \<Rightarrow> json \<Rightarrow> json result" where
  "value_at i v =
     (case v of
        JArr xs \<Rightarrow> if unat i < length xs then Inr (xs ! unat i) else Inl Undefined
      | _ \<Rightarrow> Inl (required ''array'' v))"

definition array_get_or :: "(json \<Rightarrow> 'a result) \<Rightarrow> u32 \<Rightarrow> 'a \<Rightarrow> json list \<Rightarrow> 'a result" where
  "array_get_or as_t i fallback xs =
     (if length xs \<le> unat i then Inr fallback else as_t (xs ! unat i))"

section \<open>Well-formed values\<close>

text \<open>Every map inside the value is sorted by its keys, as \<open>std::map\<close> keeps it.\<close>

fun json_wf :: "json \<Rightarrow> bool" where
  "json_wf (JMap m) \<longleftrightarrow> om_inv m \<and> (\<forall>v \<in> set (map snd m). json_wf v)"
| "json_wf (JArr xs) \<longleftrightarrow> (\<forall>v \<in> set xs. json_wf v)"
| "json_wf _ \<longleftrightarrow> True"

lemma json_wf_JMap: "json_wf (JMap m) \<longleftrightarrow> om_inv m \<and> (\<forall>p \<in> set m. json_wf (snd p))"
  by simp

declare json_wf.simps(1) [simp del]

lemma om_set_entries: "p \<in> set (om_set k v m) \<Longrightarrow> p = (k, v) \<or> p \<in> set m"
  by (induction k v m rule: om_set.induct) (auto split: if_splits)

lemma json_wf_JMap_set:
  assumes "json_wf (JMap m)" "json_wf v"
  shows "json_wf (JMap (om_set k v m))"
proof -
  have "json_wf (snd p)" if "p \<in> set (om_set k v m)" for p
    using om_set_entries [OF that] assms by (auto simp: json_wf_JMap)
  with assms(1) show ?thesis by (simp add: json_wf_JMap om_inv_set)
qed

lemma json_wf_JMap_erase: "json_wf (JMap m) \<Longrightarrow> json_wf (JMap (om_erase k m))"
  using om_inv_erase [of m k] by (auto simp: json_wf_JMap om_erase_def)

lemma json_wf_find:
  assumes "json_wf (JMap m)" "om_find k m = Some v"
  shows "json_wf v"
proof -
  from assms(2) have "(k, v) \<in> set m" by (rule om_find_in_set)
  with assms(1) have "json_wf (snd (k, v))" unfolding json_wf_JMap by blast
  then show ?thesis by simp
qed

lemma json_wf_map_index: "json_wf (JMap m) \<Longrightarrow> map_index k m = (v, m') \<Longrightarrow> json_wf v \<and> json_wf (JMap m')"
  using json_wf_JMap_set [of m JNull k] json_wf_find [of m k]
  by (auto simp: map_index_def split: option.splits)

lemma map_index_find: "om_find k (snd (map_index k m)) = Some (fst (map_index k m))"
  by (auto simp: map_index_def om_find_set split: option.splits)

lemma map_index_other: "j \<noteq> k \<Longrightarrow> om_find j (snd (map_index k m)) = om_find j m"
  by (auto simp: map_index_def om_find_set split: option.splits)

lemma map_index_Some [simp]: "om_find k m = Some v \<Longrightarrow> map_index k m = (v, m)"
  by (simp add: map_index_def)

end
