(* ===== verification/Json_Text.thy ===== *)
theory Json_Text
  imports Json_Value "HOL-Library.Sublist"
begin

text \<open>
  \<open>stream-api/src/json/detail\<close>: the escapes (\<open>escape.hpp\<close>), the \<open>\u\<close> units
  (\<open>utf.hpp\<close>), the reader (\<open>parser.hpp\<close>) and the writer (the output operators of
  \<open>value.hpp\<close>). The text is read as the iterator sees it: the end of the list is the
  terminating NUL, and a read past it is \<open>Undefined\<close>. The conversion of UTF-16 units to
  UTF-8 is a library call and stays the parameter \<open>U\<close>.
\<close>

section \<open>Escapes\<close>

definition BS :: char where "BS = CHR 0x5C"
definition QUOTE :: char where "QUOTE = CHR 0x22"

definition esc_char :: "char \<Rightarrow> string" where
  "esc_char c =
     (if c = QUOTE then [BS, QUOTE]
      else if c = BS then [BS, BS]
      else if c = CHR 0x08 then [BS, CHR ''b'']
      else if c = CHR 0x0C then [BS, CHR ''f'']
      else if c = CHR 0x0A then [BS, CHR ''n'']
      else if c = CHR 0x0D then [BS, CHR ''r'']
      else if c = CHR 0x09 then [BS, CHR ''t'']
      else [c])"

fun escape :: "string \<Rightarrow> string" where
  "escape [] = []"
| "escape (c # s) = esc_char c @ escape s"

definition escaped :: "char \<Rightarrow> char" where
  "escaped c =
     (if c = CHR ''b'' then CHR 0x08
      else if c = CHR ''f'' then CHR 0x0C
      else if c = CHR ''n'' then CHR 0x0A
      else if c = CHR ''r'' then CHR 0x0D
      else if c = CHR ''t'' then CHR 0x09
      else c)"

section \<open>Units of UTF-16\<close>

definition hex_to_num :: "char \<Rightarrow> int" where
  "hex_to_num c =
     (if CHR ''0'' \<le> c \<and> c \<le> CHR ''9'' then int (of_char c) - 48
      else if CHR ''a'' \<le> c \<and> c \<le> CHR ''f'' then int (of_char c) - 97 + 10
      else if CHR ''A'' \<le> c \<and> c \<le> CHR ''F'' then int (of_char c) - 65 + 10
      else - 1)"

text \<open>The four digits, read from left to right; \<open>push_back\<close> truncates the \<open>int\<close>.\<close>

definition utf16_unit :: "char \<Rightarrow> char \<Rightarrow> char \<Rightarrow> char \<Rightarrow> u16" where
  "utf16_unit a b c d =
     word_of_int (hex_to_num a * 2 ^ 12 + hex_to_num b * 2 ^ 8 + hex_to_num c * 2 ^ 4 + hex_to_num d)"

fun utf16_units :: "string \<Rightarrow> (u16 list \<times> string) result" where
  "utf16_units (e # f # a # b # c # d # s) =
     (if e = BS \<and> f = CHR ''u'' then
        bindE (utf16_units s) (\<lambda>(us, r). Inr (utf16_unit a b c d # us, r))
      else Inr ([], e # f # a # b # c # d # s))"
| "utf16_units (e # f # s) =
     (if e = BS \<and> f = CHR ''u'' then Inl Undefined else Inr ([], e # f # s))"
| "utf16_units s = Inr ([], s)"

lemma utf16_units_length: "utf16_units s = Inr (us, r) \<Longrightarrow> length r \<le> length s"
  by (induction s arbitrary: us r rule: utf16_units.induct)
     (force simp: bindE_Inr_iff split: if_splits)+

lemma utf16_units_shrink:
  assumes "utf16_units (BS # CHR ''u'' # s) = Inr (us, r)"
  shows "length r < Suc (Suc (length s))"
proof -
  obtain a b c d t where s: "s = a # b # c # d # t"
    using assms by (cases s rule: utf16_units.cases) (auto split: list.splits, (metis list.exhaust)?)
  from assms obtain vs where "utf16_units t = Inr (vs, r)"
    by (auto simp: s bindE_Inr_iff)
  from utf16_units_length [OF this] show ?thesis by (simp add: s)
qed

section \<open>The reader\<close>

text \<open>
  A string up to its closing quote; the loops for keys and for values are the same. The
  result is the text and what follows the quote.
\<close>

definition prefix_result :: "string \<Rightarrow> (string \<times> 'b) result \<Rightarrow> (string \<times> 'b) result" where
  "prefix_result p r = bindE r (\<lambda>(s, x). Inr (p @ s, x))"

function parse_str :: "(u16 list \<Rightarrow> string) \<Rightarrow> string \<Rightarrow> (string \<times> string) result" where
  "parse_str U [] = Inl Undefined"
| "parse_str U (c # cs) =
     (if c = QUOTE then Inr ([], cs)
      else if c = BS then
        (case cs of
           [] \<Rightarrow> Inl Undefined
         | d # ds \<Rightarrow>
             if d \<noteq> CHR ''u'' then prefix_result [escaped d] (parse_str U ds)
             else (case utf16_units (BS # CHR ''u'' # ds) of
                     Inl e \<Rightarrow> Inl e
                   | Inr (us, r) \<Rightarrow> prefix_result (U us) (parse_str U r)))
      else prefix_result [c] (parse_str U cs))"
  by pat_completeness auto

termination
  by (relation "measure (\<lambda>(U, s). length s)") (auto dest!: utf16_units_shrink)

definition num_char :: "char \<Rightarrow> bool" where
  "num_char c \<longleftrightarrow> c = CHR ''-'' \<or> is_digit c"

definition num_tail :: "char \<Rightarrow> bool" where
  "num_tail c \<longleftrightarrow> c = CHR ''-'' \<or> c = CHR ''.'' \<or> is_digit c"

text \<open>
  An integer unless a point or an exponent follows the digits and signs; whatever the
  conversion consumed, signs, points and digits are then skipped.
\<close>

definition parse_number :: "string \<Rightarrow> (json \<times> string) result" where
  "parse_number s =
     (case dropWhile num_char s of
        c # _ \<Rightarrow>
          if c = CHR ''.'' \<or> c = CHR ''e'' \<or> c = CHR ''E''
          then (let (x, r) = strtof s in Inr (JReal x, dropWhile num_tail r))
          else bindE (atoi s) (\<lambda>i. Inr (JInt (word_of_int i), dropWhile num_tail s))
      | [] \<Rightarrow> bindE (atoi s) (\<lambda>i. Inr (JInt (word_of_int i), dropWhile num_tail s)))"

text \<open>The comparison of a literal stops after three characters.\<close>

definition literal_end :: "char \<Rightarrow> bool" where
  "literal_end c \<longleftrightarrow> c = CHR '','' \<or> c = CHR ''}'' \<or> c = CHR '']''"

definition parse_literal :: "string \<Rightarrow> (json \<times> string) result" where
  "parse_literal s =
     (let v = (if take 3 s = ''nul'' then JNull
               else if take 3 s = ''tru'' then JBool True else JBool False);
          r = dropWhile (\<lambda>c. \<not> literal_end c) s
      in if r = [] then Inl Undefined else Inr (v, r))"

datatype state_t = Parse_name | Parse_value

fun push_back :: "json \<Rightarrow> string \<Rightarrow> json \<Rightarrow> json \<times> state_t" where
  "push_back (JMap m) name v = (JMap (om_set name v m), Parse_name)"
| "push_back (JArr xs) name v = (JArr (xs @ [v]), Parse_value)"
| "push_back c name v = (c, Parse_value)"

text \<open>
  The recursive reader. \<open>c\<close> is the container that is filled, \<open>name\<close> the last key read.
  The first argument bounds the number of iterations; \<open>None\<close> is reached only when it is
  too small, and \<open>parse_c_total\<close> shows that the length of the text is enough.
\<close>

definition bindP :: "'a result option \<Rightarrow> ('a \<Rightarrow> 'b result option) \<Rightarrow> 'b result option" where
  "bindP r f = (case r of None \<Rightarrow> None | Some (Inl e) \<Rightarrow> Some (Inl e) | Some (Inr x) \<Rightarrow> f x)"

primrec parse_c ::
    "(u16 list \<Rightarrow> string) \<Rightarrow> nat \<Rightarrow> json \<Rightarrow> string \<Rightarrow> state_t \<Rightarrow> string \<Rightarrow> (json \<times> string) result option" where
  "parse_c U 0 = (\<lambda>c name st s. None)"
| "parse_c U (Suc n) = (\<lambda>c name st it.
     let push = (\<lambda>(v, r). let (c', st') = push_back c name v in parse_c U n c' name st' r)
     in case it of
          [] \<Rightarrow> Some (Inr (c, []))
        | h # s \<Rightarrow>
            if h = CHR 0x00 then Some (Inr (c, it))
            else if h = CHR ''{'' then bindP (parse_c U n (JMap []) [] Parse_name s) push
            else if h = CHR ''['' then bindP (parse_c U n (JArr []) [] Parse_value s) push
            else if h = CHR ''}'' \<or> h = CHR '']'' then Some (Inr (c, s))
            else if h = QUOTE then
              bindP (Some (parse_str U s)) (\<lambda>(t, r).
                if st = Parse_value then push (JStr t, r) else parse_c U n c t Parse_value r)
            else if num_char h then bindP (Some (parse_number it)) push
            else if h = CHR ''n'' \<or> h = CHR ''t'' \<or> h = CHR ''f'' then
              bindP (Some (parse_literal it)) push
            else parse_c U n c name st s)"

text \<open>The entry points skip to the opening delimiter; without one the container is empty.\<close>

definition parse_from :: "(u16 list \<Rightarrow> string) \<Rightarrow> char \<Rightarrow> json \<Rightarrow> state_t \<Rightarrow> string \<Rightarrow> json result" where
  "parse_from U delim_open c st s =
     (case dropWhile (\<lambda>h. h \<noteq> CHR 0x00 \<and> h \<noteq> delim_open) s of
        [] \<Rightarrow> Inr c
      | h # t \<Rightarrow>
          if h = CHR 0x00 then Inr c
          else (case parse_c U (Suc (length t)) c [] st t of
                  None \<Rightarrow> Inl Undefined
                | Some (Inl e) \<Rightarrow> Inl e
                | Some (Inr (v, r)) \<Rightarrow> Inr v))"

definition parse_map :: "(u16 list \<Rightarrow> string) \<Rightarrow> string \<Rightarrow> json_map result" where
  "parse_map U s = bindE (parse_from U (CHR ''{'') (JMap []) Parse_name s) as_map"

definition parse_array :: "(u16 list \<Rightarrow> string) \<Rightarrow> string \<Rightarrow> json list result" where
  "parse_array U s = bindE (parse_from U (CHR ''['') (JArr []) Parse_value s) as_array"

section \<open>The writer\<close>

fun streamjoin :: "string list \<Rightarrow> string" where
  "streamjoin [] = []"
| "streamjoin [x] = x"
| "streamjoin (x # xs) = x @ '','' @ streamjoin xs"

definition show_entry :: "string \<Rightarrow> string \<Rightarrow> string" where
  "show_entry k t = [QUOTE] @ escape k @ [QUOTE, CHR '':''] @ t"

fun show_json :: "json \<Rightarrow> string" where
  "show_json JNull = ''null''"
| "show_json (JInt i) = show_int (sint i)"
| "show_json (JReal x) = show_float x"
| "show_json (JBool b) = (if b then ''true'' else ''false'')"
| "show_json (JStr s) = [QUOTE] @ escape s @ [QUOTE]"
| "show_json (JMap m) =
     ''{'' @ streamjoin (map2 show_entry (map fst m) (map show_json (map snd m))) @ ''}''"
| "show_json (JArr xs) = ''['' @ streamjoin (map show_json xs) @ '']''"

definition to_string :: "json_map \<Rightarrow> string" where
  "to_string m = show_json (JMap m)"

section \<open>Progress and totality of the reader\<close>

lemma prefix_result_Inr: "prefix_result p r = Inr (t, x) \<longleftrightarrow> (\<exists>s. r = Inr (s, x) \<and> t = p @ s)"
  by (auto simp: prefix_result_def bindE_Inr_iff)

lemma parse_str_rest: "parse_str U s = Inr (t, r) \<Longrightarrow> length r < length s"
proof (induction U s arbitrary: t r rule: parse_str.induct)
  case (1 U)
  then show ?case by simp
next
  case (2 U c cs)
  show ?case
  proof (cases "c = BS \<and> c \<noteq> QUOTE")
    case False
    with "2.prems" "2.IH"(3) show ?thesis
      by (auto simp: prefix_result_Inr split: if_splits)
  next
    case True
    then obtain d ds where cs: "cs = d # ds"
      using "2.prems" by (cases cs) auto
    show ?thesis
    proof (cases "d = CHR ''u''")
      case False
      with "2.prems" True obtain t' where "parse_str U ds = Inr (t', r)"
        by (auto simp: cs prefix_result_Inr)
      with "2.IH"(1) [of d ds] True False cs show ?thesis by force
    next
      case u: True
      with "2.prems" True obtain us q t' where
        q: "utf16_units (BS # CHR ''u'' # ds) = Inr (us, q)" and t': "parse_str U q = Inr (t', r)"
        by (auto simp: cs prefix_result_Inr split: sum.splits)
      from "2.IH"(2) [of d ds "(us, q)" us q] True u cs q t' have "length r < length q"
        by auto
      with utf16_units_shrink [OF q] show ?thesis by (simp add: cs)
    qed
  qed
qed

text \<open>What is read is a rest of the text.\<close>

lemma utf16_units_suffix: "utf16_units s = Inr (us, r) \<Longrightarrow> suffix r s"
  by (induction s arbitrary: us r rule: utf16_units.induct)
     (force simp: bindE_Inr_iff intro: suffix_ConsI split: if_splits)+

lemma parse_str_suffix: "parse_str U s = Inr (t, r) \<Longrightarrow> suffix r s"
proof (induction U s arbitrary: t r rule: parse_str.induct)
  case (1 U)
  then show ?case by simp
next
  case (2 U c cs)
  show ?case
  proof (cases "c = BS \<and> c \<noteq> QUOTE")
    case False
    with "2.prems" "2.IH"(3) show ?thesis
      by (auto simp: prefix_result_Inr intro: suffix_ConsI split: if_splits)
  next
    case True
    then obtain d ds where cs: "cs = d # ds"
      using "2.prems" by (cases cs) auto
    show ?thesis
    proof (cases "d = CHR ''u''")
      case False
      with "2.prems" True obtain t' where "parse_str U ds = Inr (t', r)"
        by (auto simp: cs prefix_result_Inr)
      with "2.IH"(1) [of d ds] True False cs show ?thesis by (force intro: suffix_ConsI)
    next
      case u: True
      with "2.prems" True obtain us q t' where
        q: "utf16_units (BS # CHR ''u'' # ds) = Inr (us, q)" and t': "parse_str U q = Inr (t', r)"
        by (auto simp: cs prefix_result_Inr split: sum.splits)
      from "2.IH"(2) [of d ds "(us, q)" us q] True u cs q t' have "suffix r q" by auto
      moreover have "suffix q (c # cs)" using utf16_units_suffix [OF q] True u cs by simp
      ultimately show ?thesis by (rule suffix_order.trans)
    qed
  qed
qed

lemma parse_exponent_suffix: "suffix (snd (parse_exponent s)) s"
  by (cases s)
    (auto simp: parse_exponent_def Let_def suffix_dropWhile intro!: suffix_ConsI
      split: list.splits prod.splits if_splits)

lemma strtof_suffix: "suffix (snd (strtof s)) s"
proof -
  have exp: "suffix r t" if "suffix u t" "parse_exponent u = (x, r)" for u t x r
    using that parse_exponent_suffix [of u] by (metis snd_conv suffix_order.trans)
  obtain neg t where t: "(case s of c # cs \<Rightarrow> if c = CHR ''-'' then (True, cs) else (False, s) | [] \<Rightarrow> (False, [])) = (neg, t)"
    by fastforce
  have "suffix t s" using t by (auto intro: suffix_ConsI split: list.splits if_splits)
  obtain fp t2 where t2: "(case dropWhile is_digit t of
              c # cs \<Rightarrow> if c = CHR ''.'' then (takeWhile is_digit cs, dropWhile is_digit cs) else ([], dropWhile is_digit t)
            | [] \<Rightarrow> ([], [])) = (fp, t2)"
    by fastforce
  have "suffix t2 (dropWhile is_digit t)"
    using t2 by (auto simp: suffix_dropWhile intro: suffix_ConsI split: list.splits if_splits)
  then have "suffix t2 s"
    using \<open>suffix t s\<close> suffix_dropWhile suffix_order.trans by blast
  then show ?thesis
    using exp by (auto simp: strtof_def t t2 Let_def split: prod.splits)
qed

lemma parse_number_suffix:
  assumes "num_char h" "parse_number (h # s) = Inr (v, r)"
  shows "suffix r s"
proof -
  have tail: "num_tail h" using assms(1) by (auto simp: num_char_def num_tail_def)
  have le: "suffix (dropWhile num_tail q) s" if "suffix q (h # s)" for q
  proof (cases "q = h # s")
    case True
    then show ?thesis using tail by (simp add: suffix_dropWhile)
  next
    case False
    then have "suffix q s" using that by (simp add: suffix_Cons)
    then show ?thesis by (rule suffix_order.trans [OF suffix_dropWhile])
  qed
  have "\<exists>q. suffix q (h # s) \<and> r = dropWhile num_tail q"
    using assms(2) strtof_suffix [of "h # s"]
    by (auto simp: parse_number_def bindE_Inr_iff split: list.splits if_splits prod.splits)
  with le show ?thesis by blast
qed

lemma parse_literal_suffix:
  assumes "\<not> literal_end h" "parse_literal (h # s) = Inr (v, r)"
  shows "suffix r s"
  using assms by (auto simp: parse_literal_def Let_def suffix_dropWhile split: if_splits)

lemma literal_start: "h = CHR ''n'' \<or> h = CHR ''t'' \<or> h = CHR ''f'' \<Longrightarrow> \<not> literal_end h"
  by (auto simp: literal_end_def)

lemma bindP_Inr: "bindP r f = Some (Inr y) \<longleftrightarrow> (\<exists>x. r = Some (Inr x) \<and> f x = Some (Inr y))"
  by (auto simp: bindP_def split: option.splits sum.splits)

lemma bindP_cong_fuel:
  assumes "r = r'" "\<And>x. r' = Some (Inr x) \<Longrightarrow> f x = g x"
  shows "bindP r f = bindP r' g"
  using assms by (auto simp: bindP_def split: option.splits sum.splits)

lemma if_eqE:
  "(if b then x else y) = z \<Longrightarrow> (b \<Longrightarrow> x = z \<Longrightarrow> R) \<Longrightarrow> (\<not> b \<Longrightarrow> y = z \<Longrightarrow> R) \<Longrightarrow> R"
  by (simp split: if_splits)

lemma parse_c_suffix:
  "parse_c U n c name st s = Some (Inr (v, r)) \<Longrightarrow> suffix r s"
proof (induction n arbitrary: c name st s v r)
  case 0
  then show ?case by simp
next
  case (Suc n)
  define push where "push = (\<lambda>(v, r). let (c', st') = push_back c name v in parse_c U n c' name st' r)"
  have push: "suffix r q" if "push (w, q) = Some (Inr (v, r))" for w q
    using that Suc.IH by (auto simp: push_def split: prod.splits)
  have bind: "suffix r q"
    if x: "bindP x push = Some (Inr (v, r))" "\<And>w t. x = Some (Inr (w, t)) \<Longrightarrow> suffix t q" for x q
  proof -
    from x(1) obtain w t where t: "x = Some (Inr (w, t))" "push (w, t) = Some (Inr (v, r))"
      by (auto simp: bindP_Inr)
    from push [OF t(2)] x(2) [OF t(1)] show ?thesis by (rule suffix_order.trans)
  qed
  show ?case
  proof (cases s)
    case Nil
    then show ?thesis using Suc.prems by simp
  next
    case (Cons h q)
    note eq = Suc.prems [unfolded parse_c.simps Cons, folded push_def, unfolded Let_def list.case]
    have nested: "suffix r (h # q)"
      if "bindP (parse_c U n x y z q) push = Some (Inr (v, r))" for x y z
      by (rule suffix_ConsI, rule bind [OF that], rule Suc.IH)
    have number: "suffix r (h # q)"
      if "bindP (Some (parse_number (h # q))) push = Some (Inr (v, r))" "num_char h"
      using bind [OF that(1), of q] parse_number_suffix [OF that(2)] by (simp add: suffix_ConsI)
    have literal: "suffix r (h # q)"
      if "bindP (Some (parse_literal (h # q))) push = Some (Inr (v, r))"
        "h = CHR ''n'' \<or> h = CHR ''t'' \<or> h = CHR ''f''"
      using bind [OF that(1), of q] parse_literal_suffix [OF literal_start [OF that(2)]] by (simp add: suffix_ConsI)
    have str: "suffix r (h # q)"
      if "bindP (Some (parse_str U q)) (\<lambda>(t, r). if st = Parse_value then push (JStr t, r)
            else parse_c U n c t Parse_value r) = Some (Inr (v, r))"
    proof -
      from that obtain t p where t: "parse_str U q = Inr (t, p)"
        "(if st = Parse_value then push (JStr t, p) else parse_c U n c t Parse_value p) = Some (Inr (v, r))"
        by (auto simp: bindP_Inr)
      then have "suffix r p" using push Suc.IH by (auto split: if_splits)
      then have "suffix r q" using parse_str_suffix [OF t(1)] by (rule suffix_order.trans)
      then show ?thesis by (rule suffix_ConsI)
    qed
    have skip: "suffix r (h # q)" if "parse_c U n c name st q = Some (Inr (v, r))"
      using Suc.IH [OF that] by (rule suffix_ConsI)
    show ?thesis
      using eq unfolding Cons
      by (elim if_eqE)
        (clarsimp, erule nested, erule nested, clarsimp simp: suffix_ConsI, erule str, erule (1) number, erule (1) literal, erule skip)
  qed
qed

lemma parse_c_rest: "parse_c U n c name st s = Some (Inr (v, r)) \<Longrightarrow> length r \<le> length s"
  by (rule suffix_length_le, rule parse_c_suffix)

lemma parse_number_rest: "num_char h \<Longrightarrow> parse_number (h # s) = Inr (v, r) \<Longrightarrow> length r \<le> length s"
  by (rule suffix_length_le, rule parse_number_suffix)

lemma parse_literal_rest: "\<not> literal_end h \<Longrightarrow> parse_literal (h # s) = Inr (v, r) \<Longrightarrow> length r \<le> length s"
  by (rule suffix_length_le, rule parse_literal_suffix)

text \<open>Fuel above the length of the text changes nothing.\<close>

lemma parse_c_fuel:
  "length s < n \<Longrightarrow> length s < m \<Longrightarrow> parse_c U n c name st s = parse_c U m c name st s"
proof (induction n arbitrary: m c name st s)
  case 0
  then show ?case by simp
next
  case (Suc n)
  obtain k where m: "m = Suc k" using Suc.prems(2) by (cases m) auto
  show ?case
  proof (cases s)
    case Nil
    then show ?thesis by (simp add: m)
  next
    case (Cons h q)
    have len: "length q < n" "length q < k" using Suc.prems by (simp_all add: m Cons)
    define push where "push i = (\<lambda>(v, r). case push_back c name v of (c', st') \<Rightarrow> parse_c U i c' name st' r)" for i
    have push: "push n (v, r) = push k (v, r)" if "length r \<le> length q" for v r
      using that len Suc.IH [of r k] by (auto simp: push_def split: prod.splits)
    have nested: "bindP (parse_c U n x y z q) (push n) = bindP (parse_c U k x y z q) (push k)" for x y z
      using Suc.IH [OF len] parse_c_rest push by (intro bindP_cong_fuel) auto
    have scalar: "bindP (Some w) (push n) = bindP (Some w) (push k)"
      if "\<And>v r. w = Inr (v, r) \<Longrightarrow> length r \<le> length q" for w
      using that push by (intro bindP_cong_fuel) auto
    have str: "bindP (Some (parse_str U q)) (\<lambda>(t, r). if st = Parse_value then push n (JStr t, r)
          else parse_c U n c t Parse_value r)
        = bindP (Some (parse_str U q)) (\<lambda>(t, r). if st = Parse_value then push k (JStr t, r)
          else parse_c U k c t Parse_value r)"
    proof (intro bindP_cong_fuel refl)
      fix x assume "Some (parse_str U q) = Some (Inr x)"
      then obtain t r where x: "x = (t, r)" "parse_str U q = Inr (t, r)" by (cases x) auto
      have "length r < length q" using parse_str_rest [OF x(2)] .
      then show "(case x of (t, r) \<Rightarrow> if st = Parse_value then push n (JStr t, r) else parse_c U n c t Parse_value r)
          = (case x of (t, r) \<Rightarrow> if st = Parse_value then push k (JStr t, r) else parse_c U k c t Parse_value r)"
        using push [of r] Suc.IH [of r k] len by (simp add: x)
    qed
    have number: "bindP (Some (parse_number (h # q))) (push n) = bindP (Some (parse_number (h # q))) (push k)"
      if "num_char h"
      by (rule scalar) (rule parse_number_rest [OF that])
    have literal: "bindP (Some (parse_literal (h # q))) (push n) = bindP (Some (parse_literal (h # q))) (push k)"
      if "h = CHR ''n'' \<or> h = CHR ''t'' \<or> h = CHR ''f''"
      by (rule scalar) (rule parse_literal_rest [OF literal_start [OF that]])
    show ?thesis
      unfolding m Cons parse_c.simps Let_def list.case unfolding push_def [symmetric]
      by (assumption | rule refl if_cong nested str number literal Suc.IH [OF len])+
  qed
qed

lemma parse_c_total: "length s < n \<Longrightarrow> parse_c U n c name st s \<noteq> None"
proof (induction n arbitrary: c name st s)
  case 0
  then show ?case by simp
next
  case (Suc n)
  show ?case
  proof (cases s)
    case Nil
    then show ?thesis by simp
  next
    case (Cons h q)
    have len: "length q < n" using Suc.prems by (simp add: Cons)
    have bind: "bindP x f \<noteq> None" if "x \<noteq> None" "\<And>y. x = Some (Inr y) \<Longrightarrow> f y \<noteq> None"
      for x :: "'x result option" and f :: "'x \<Rightarrow> (json \<times> string) result option"
      using that by (auto simp: bindP_def split: sum.splits)
    define push where "push = (\<lambda>(v, r). case push_back c name v of (c', st') \<Rightarrow> parse_c U n c' name st' r)"
    have push: "push (v, r) \<noteq> None" if "length r \<le> length q" for v r
      using that len Suc.IH [of r] by (auto simp: push_def split: prod.splits)
    have str: "(case x of (t, r) \<Rightarrow> if st = Parse_value then push (JStr t, r) else parse_c U n c t Parse_value r) \<noteq> None"
      if "Some (parse_str U q) = Some (Inr x)" for x
    proof -
      obtain t r where x: "x = (t, r)" by fastforce
      with that have "length r < length q" using parse_str_rest by simp
      then show ?thesis using push [of r] Suc.IH [of r] len by (simp add: x)
    qed
    have nested: "bindP (parse_c U n x y z q) push \<noteq> None" for x y z
      using push parse_c_rest by (intro bind Suc.IH [OF len]) auto
    have number: "bindP (Some (parse_number (h # q))) push \<noteq> None" if "num_char h"
      using push parse_number_rest [OF that] by (intro bind) auto
    have literal: "bindP (Some (parse_literal (h # q))) push \<noteq> None"
      if "h = CHR ''n'' \<or> h = CHR ''t'' \<or> h = CHR ''f''"
      using push parse_literal_rest [OF literal_start [OF that]] by (intro bind) auto
    have total_if: "(if b then x else y) \<noteq> None" if "b \<Longrightarrow> x \<noteq> None" "\<not> b \<Longrightarrow> y \<noteq> None"
      for b and x y :: "(json \<times> string) result option"
      using that by simp
    show ?thesis
      unfolding Cons parse_c.simps Let_def list.case unfolding push_def [symmetric]
      by (assumption | rule total_if option.distinct(2) nested number literal Suc.IH [OF len]
          | rule bind, rule option.distinct(2), erule str)+
  qed
qed

text \<open>What is read is well-formed: every map of the document is sorted by its keys.\<close>

lemma push_back_wf:
  assumes "json_wf c" "json_wf v" "push_back c name v = (c', st)"
  shows "json_wf c'"
  using assms by (cases c) (auto intro: json_wf_JMap_set)

lemma parse_number_wf: "parse_number s = Inr (v, r) \<Longrightarrow> json_wf v"
  by (auto simp: parse_number_def Let_def bindE_Inr_iff split: list.splits if_splits prod.splits)

lemma parse_literal_wf: "parse_literal s = Inr (v, r) \<Longrightarrow> json_wf v"
  by (auto simp: parse_literal_def Let_def split: if_splits)

lemma parse_c_wf:
  "json_wf c \<Longrightarrow> parse_c U n c name st s = Some (Inr (v, r)) \<Longrightarrow> json_wf v"
proof (induction n arbitrary: c name st s v r)
  case 0
  then show ?case by simp
next
  case (Suc n)
  define push where "push = (\<lambda>(v, r). let (c', st') = push_back c name v in parse_c U n c' name st' r)"
  have push: "json_wf v" if "push (u, q) = Some (Inr (v, r))" "json_wf u" for u q
  proof -
    obtain c' st' where pb: "push_back c name u = (c', st')" by fastforce
    with that(1) have "parse_c U n c' name st' q = Some (Inr (v, r))" by (simp add: push_def)
    then show ?thesis by (rule Suc.IH [OF push_back_wf [OF Suc.prems(1) that(2) pb]])
  qed
  have bind: "json_wf v"
    if x: "bindP x push = Some (Inr (v, r))" "\<And>u t. x = Some (Inr (u, t)) \<Longrightarrow> json_wf u" for x
  proof -
    from x(1) obtain u t where t: "x = Some (Inr (u, t))" "push (u, t) = Some (Inr (v, r))"
      by (auto simp: bindP_Inr)
    from push [OF t(2) x(2) [OF t(1)]] show ?thesis .
  qed
  show ?case
  proof (cases s)
    case Nil
    then show ?thesis using Suc.prems by simp
  next
    case (Cons h q)
    note eq = Suc.prems(2) [unfolded parse_c.simps Cons, folded push_def, unfolded Let_def list.case]
    have nested: "json_wf v"
      if "bindP (parse_c U n x y z q) push = Some (Inr (v, r))" "json_wf x" for x y z
      by (rule bind [OF that(1)]) (rule Suc.IH [OF that(2)])
    have number: "json_wf v" if "bindP (Some (parse_number (h # q))) push = Some (Inr (v, r))"
      by (rule bind [OF that], rule parse_number_wf, simp)
    have literal: "json_wf v" if "bindP (Some (parse_literal (h # q))) push = Some (Inr (v, r))"
      by (rule bind [OF that], rule parse_literal_wf, simp)
    have str: "json_wf v"
      if "bindP (Some (parse_str U q)) (\<lambda>(t, r). if st = Parse_value then push (JStr t, r)
            else parse_c U n c t Parse_value r) = Some (Inr (v, r))"
    proof -
      from that obtain t p where
        "(if st = Parse_value then push (JStr t, p) else parse_c U n c t Parse_value p) = Some (Inr (v, r))"
        by (auto simp: bindP_Inr)
      then show ?thesis using push [of "JStr t" p] Suc.IH [OF Suc.prems(1)] by (auto split: if_splits)
    qed
    have skip: "json_wf v" if "parse_c U n c name st q = Some (Inr (v, r))"
      using Suc.IH [OF Suc.prems(1) that] .
    have empty: "json_wf (JMap [])" "json_wf (JArr [])" by (simp_all add: json_wf_JMap)
    show ?thesis
      using eq Suc.prems(1)
      by (elim if_eqE)
        (clarsimp, erule nested, rule empty, erule nested, rule empty, clarsimp, erule str, erule number,
         erule literal, erule skip)
  qed
qed

lemma parse_map_wf:
  assumes "parse_map U s = Inr m"
  shows "json_wf (JMap m)"
proof -
  obtain v where v: "parse_from U (CHR ''{'') (JMap []) Parse_name s = Inr v" "as_map v = Inr m"
    using assms by (auto simp: parse_map_def bindE_Inr_iff)
  have empty: "json_wf (JMap [])" by (simp add: json_wf_JMap)
  have "json_wf v"
  proof (cases "dropWhile (\<lambda>h. h \<noteq> CHR 0x00 \<and> h \<noteq> CHR ''{'') s")
    case Nil
    then have "v = JMap []" using v(1) unfolding parse_from_def Nil by simp
    then show ?thesis using empty by simp
  next
    case (Cons h t)
    show ?thesis
    proof (cases "h = CHR 0x00")
      case True
      then have "v = JMap []" using v(1) unfolding parse_from_def Cons by simp
      then show ?thesis using empty by simp
    next
      case False
      obtain r where "parse_c U (Suc (length t)) (JMap []) [] Parse_name t = Some (Inr (v, r))"
        using v(1) False unfolding parse_from_def Cons
        by (auto simp del: parse_c.simps split: option.splits sum.splits)
      then show ?thesis by (rule parse_c_wf [OF empty])
    qed
  qed
  moreover have "v = JMap m" using v(2) by (cases v) simp_all
  ultimately show ?thesis by simp
qed

section \<open>One step of the reader, without fuel\<close>

definition run :: "(u16 list \<Rightarrow> string) \<Rightarrow> json \<Rightarrow> string \<Rightarrow> state_t \<Rightarrow> string \<Rightarrow> (json \<times> string) result" where
  "run U c name st s = the (parse_c U (Suc (length s)) c name st s)"

lemma parse_c_run: "length s < n \<Longrightarrow> parse_c U n c name st s = Some (run U c name st s)"
  unfolding run_def
  by (metis lessI option.exhaust_sel parse_c_fuel parse_c_total)

definition push_run :: "(u16 list \<Rightarrow> string) \<Rightarrow> json \<Rightarrow> string \<Rightarrow> json \<times> string \<Rightarrow> (json \<times> string) result" where
  "push_run U c name = (\<lambda>(v, r). case push_back c name v of (c', st') \<Rightarrow> run U c' name st' r)"

lemma bindP_push_run:
  assumes "\<And>v r. x = Inr (v, r) \<Longrightarrow> length r < n"
  shows "bindP (Some x) (\<lambda>(v, r). case push_back c name v of (c', st') \<Rightarrow> parse_c U n c' name st' r)
    = Some (bindE x (push_run U c name))"
  using assms
  by (cases x) (auto simp: bindP_def push_run_def parse_c_run split: prod.splits)

lemma run_rest: "run U c name st s = Inr (v, r) \<Longrightarrow> length r \<le> length s"
  using parse_c_run [of s "Suc (length s)"] parse_c_rest by (metis lessI)

text \<open>The iteration as an equation: what the source loop does with the next character.\<close>

lemma run_Cons:
  "run U c name st (h # s) =
     (if h = CHR 0x00 then Inr (c, h # s)
      else if h = CHR ''{'' then bindE (run U (JMap []) [] Parse_name s) (push_run U c name)
      else if h = CHR ''['' then bindE (run U (JArr []) [] Parse_value s) (push_run U c name)
      else if h = CHR ''}'' \<or> h = CHR '']'' then Inr (c, s)
      else if h = QUOTE then
        bindE (parse_str U s) (\<lambda>(t, r).
          if st = Parse_value then push_run U c name (JStr t, r) else run U c t Parse_value r)
      else if num_char h then bindE (parse_number (h # s)) (push_run U c name)
      else if h = CHR ''n'' \<or> h = CHR ''t'' \<or> h = CHR ''f'' then
        bindE (parse_literal (h # s)) (push_run U c name)
      else run U c name st s)"
proof -
  define n where "n = Suc (length s)"
  have below: "length r < n" if "length r < length s" for r :: string
    using that by (simp add: n_def)
  have run: "parse_c U n c name st s = Some (run U c name st s)" for c name st
    by (rule parse_c_run) (simp add: n_def)
  have nested: "bindP (parse_c U n x y z s) (\<lambda>(v, r). case push_back c name v of (c', st') \<Rightarrow> parse_c U n c' name st' r)
      = Some (bindE (run U x y z s) (push_run U c name))" for x y z
    unfolding run by (rule bindP_push_run) (auto simp: n_def dest: run_rest)
  have number: "bindP (Some (parse_number (h # s))) (\<lambda>(v, r). case push_back c name v of (c', st') \<Rightarrow> parse_c U n c' name st' r)
      = Some (bindE (parse_number (h # s)) (push_run U c name))" if "num_char h"
    by (rule bindP_push_run, drule parse_number_rest [OF that], simp add: n_def)
  have literal: "bindP (Some (parse_literal (h # s))) (\<lambda>(v, r). case push_back c name v of (c', st') \<Rightarrow> parse_c U n c' name st' r)
      = Some (bindE (parse_literal (h # s)) (push_run U c name))"
    if "h = CHR ''n'' \<or> h = CHR ''t'' \<or> h = CHR ''f''"
    by (rule bindP_push_run, drule parse_literal_rest [OF literal_start [OF that]], simp add: n_def)
  have str: "bindP (Some (parse_str U s)) (\<lambda>(t, r).
        if st = Parse_value then (case (JStr t, r) of (v, r) \<Rightarrow> case push_back c name v of (c', st') \<Rightarrow> parse_c U n c' name st' r)
        else parse_c U n c t Parse_value r)
      = Some (bindE (parse_str U s) (\<lambda>(t, r).
          if st = Parse_value then push_run U c name (JStr t, r) else run U c t Parse_value r))"
    using parse_str_rest [of U s] below
    by (cases "parse_str U s") (auto simp del: parse_c.simps simp: bindP_def push_run_def parse_c_run split: prod.splits)
  have split: "(if b then x else y) = Some (if b then u else v)"
    if "b \<Longrightarrow> x = Some u" "\<not> b \<Longrightarrow> y = Some v" for b x y and u v :: "(json \<times> string) result"
    using that by simp
  have "parse_c U (Suc n) c name st (h # s) =
     Some (if h = CHR 0x00 then Inr (c, h # s)
      else if h = CHR ''{'' then bindE (run U (JMap []) [] Parse_name s) (push_run U c name)
      else if h = CHR ''['' then bindE (run U (JArr []) [] Parse_value s) (push_run U c name)
      else if h = CHR ''}'' \<or> h = CHR '']'' then Inr (c, s)
      else if h = QUOTE then
        bindE (parse_str U s) (\<lambda>(t, r).
          if st = Parse_value then push_run U c name (JStr t, r) else run U c t Parse_value r)
      else if num_char h then bindE (parse_number (h # s)) (push_run U c name)
      else if h = CHR ''n'' \<or> h = CHR ''t'' \<or> h = CHR ''f'' then
        bindE (parse_literal (h # s)) (push_run U c name)
      else run U c name st s)"
    unfolding parse_c.simps Let_def list.case
    by (assumption | rule split refl nested str number literal run)+
  then show ?thesis by (simp only: run_def n_def length_Cons option.sel)
qed

lemma run_end: "run U c name st [] = Inr (c, [])"
  by (simp add: run_def)

lemma char_class:
  "num_char h \<Longrightarrow> h \<notin> {CHR 0x00, CHR ''{'', CHR ''['', CHR ''}'', CHR '']'', QUOTE}"
  "h = CHR ''n'' \<or> h = CHR ''t'' \<or> h = CHR ''f'' \<Longrightarrow>
     h \<notin> {CHR 0x00, CHR ''{'', CHR ''['', CHR ''}'', CHR '']'', QUOTE} \<and> \<not> num_char h"
  "h = CHR '','' \<or> h = CHR '':'' \<Longrightarrow>
     h \<notin> {CHR 0x00, CHR ''{'', CHR ''['', CHR ''}'', CHR '']'', QUOTE, CHR ''n'', CHR ''t'', CHR ''f''}
       \<and> \<not> num_char h"
  by (auto simp: num_char_def is_digit_def less_eq_char_def QUOTE_def)

lemma run_close:
  "run U c name st (CHR ''}'' # s) = Inr (c, s)" "run U c name st (CHR '']'' # s) = Inr (c, s)"
  by (simp_all add: run_Cons)

lemma run_open:
  "run U c name st (CHR ''{'' # s) = bindE (run U (JMap []) [] Parse_name s) (push_run U c name)"
  "run U c name st (CHR ''['' # s) = bindE (run U (JArr []) [] Parse_value s) (push_run U c name)"
  by (subst run_Cons, simp)+

lemma run_skip: "h = CHR '','' \<or> h = CHR '':'' \<Longrightarrow> run U c name st (h # s) = run U c name st s"
  using char_class(3) [of h] by (subst run_Cons) auto

lemma run_quote:
  "run U c name Parse_name (QUOTE # s) = bindE (parse_str U s) (\<lambda>(t, r). run U c t Parse_value r)"
  "run U c name Parse_value (QUOTE # s) = bindE (parse_str U s) (\<lambda>(t, r). push_run U c name (JStr t, r))"
  by (subst run_Cons, simp add: QUOTE_def)+

lemma run_number:
  "num_char h \<Longrightarrow> run U c name st (h # s) = bindE (parse_number (h # s)) (push_run U c name)"
  using char_class(1) [of h] by (subst run_Cons) simp

lemma run_literal:
  "h = CHR ''n'' \<or> h = CHR ''t'' \<or> h = CHR ''f'' \<Longrightarrow>
     run U c name st (h # s) = bindE (parse_literal (h # s)) (push_run U c name)"
  using char_class(2) [of h] by (subst run_Cons) simp

section \<open>Reading back what was written\<close>

lemma esc_cases:
  obtains d where "esc_char c = [BS, d]" "escaped d = c" "d \<noteq> CHR ''u''"
  | "esc_char c = [c]" "c \<noteq> QUOTE" "c \<noteq> BS"
proof -
  have "(\<exists>d. esc_char c = [BS, d] \<and> escaped d = c \<and> d \<noteq> CHR ''u'') \<or>
      (esc_char c = [c] \<and> c \<noteq> QUOTE \<and> c \<noteq> BS)"
    by (auto simp: esc_char_def escaped_def QUOTE_def BS_def)
  then show thesis using that by blast
qed

lemma BS_QUOTE [simp]: "BS \<noteq> QUOTE" "QUOTE \<noteq> BS"
  by (simp_all add: BS_def QUOTE_def)

lemma parse_str_escape: "parse_str U (escape t @ QUOTE # s) = Inr (t, s)"
proof (induction t)
  case Nil
  then show ?case by simp
next
  case (Cons c t)
  show ?case
    by (cases c rule: esc_cases) (simp_all add: Cons.IH prefix_result_def)
qed

definition ends_value :: "string \<Rightarrow> bool" where
  "ends_value t \<longleftrightarrow> t \<noteq> [] \<and> literal_end (hd t)"

lemma ends_value_hd:
  assumes "ends_value t"
  obtains h r where "t = h # r" "\<not> num_char h" "\<not> num_tail h" "\<not> is_digit h" "literal_end h"
    "h \<noteq> CHR ''.''" "h \<noteq> CHR ''e''" "h \<noteq> CHR ''E''"
proof -
  obtain h r where t: "t = h # r" "literal_end h" using assms by (cases t) (auto simp: ends_value_def)
  then have "\<not> num_char h \<and> \<not> num_tail h \<and> \<not> is_digit h \<and> h \<noteq> CHR ''.'' \<and> h \<noteq> CHR ''e'' \<and> h \<noteq> CHR ''E''"
    by (auto simp: literal_end_def num_char_def num_tail_def is_digit_def less_eq_char_def)
  with t show thesis using that by blast
qed

lemma ends_value_simps [simp]: "ends_value (CHR '','' # t)" "ends_value (CHR ''}'' # t)" "ends_value (CHR '']'' # t)"
  by (simp_all add: ends_value_def literal_end_def)

lemma show_int_chars: "list_all num_char (show_int i)" "list_all num_tail (show_int i)"
  using show_nat_digits by (auto simp: show_int_def num_char_def num_tail_def list_all_iff)

lemma dropWhile_all: "list_all P s \<Longrightarrow> \<not> P h \<Longrightarrow> dropWhile P (s @ h # r) = h # r"
  by (simp add: list_all_iff dropWhile_append2)

lemma parse_number_show:
  assumes "in_int_range i" "ends_value t"
  shows "parse_number (show_int i @ t) = Inr (JInt (word_of_int i), t)"
proof -
  from assms(2) obtain h r where t: "t = h # r" "\<not> num_char h" "\<not> num_tail h" "\<not> is_digit h"
    "h \<noteq> CHR ''.''" "h \<noteq> CHR ''e''" "h \<noteq> CHR ''E''"
    by (rule ends_value_hd)
  have "atoi (show_int i @ t) = Inr i" using assms(1) t(1,4) by (intro atoi_show_int) simp_all
  then show ?thesis
    using t show_int_chars [of i] by (simp add: parse_number_def dropWhile_all)
qed

lemma parse_literal_show:
  assumes "ends_value t"
  shows "parse_literal (''null'' @ t) = Inr (JNull, t)"
    "parse_literal (''true'' @ t) = Inr (JBool True, t)"
    "parse_literal (''false'' @ t) = Inr (JBool False, t)"
proof -
  from assms obtain h r where t: "t = h # r" "literal_end h" by (rule ends_value_hd)
  have "\<not> literal_end c" if "c \<in> set ''nulltruefalse''" for c
    using that by (auto simp: literal_end_def)
  then show "parse_literal (''null'' @ t) = Inr (JNull, t)"
    "parse_literal (''true'' @ t) = Inr (JBool True, t)"
    "parse_literal (''false'' @ t) = Inr (JBool False, t)"
    using t(2) by (simp_all add: parse_literal_def t(1))
qed

text \<open>
  The values a document without floating point numbers holds: the integers are those that
  \<open>atoi\<close> reads.
\<close>

fun printable :: "json \<Rightarrow> bool" where
  "printable (JReal _) = False"
| "printable (JInt i) = in_int_range (sint i)"
| "printable (JMap m) = (\<forall>v \<in> set (map snd m). printable v)"
| "printable (JArr xs) = (\<forall>v \<in> set xs. printable v)"
| "printable _ = True"

definition reads_back :: "(u16 list \<Rightarrow> string) \<Rightarrow> json \<Rightarrow> bool" where
  "reads_back U v \<longleftrightarrow>
     (\<forall>c name t. ends_value t \<longrightarrow>
        run U c name Parse_value (show_json v @ t) = push_run U c name (v, t))"

abbreviation show_entries :: "json_map \<Rightarrow> string" where
  "show_entries m \<equiv> streamjoin (map2 show_entry (map fst m) (map show_json (map snd m)))"

lemma run_entry:
  assumes "reads_back U v" "ends_value t"
  shows "run U (JMap acc) name Parse_name (show_entry k (show_json v) @ t)
    = run U (JMap (om_set k v acc)) k Parse_name t"
  using assms
  by (simp add: show_entry_def run_quote parse_str_escape run_skip reads_back_def push_run_def)

lemma run_entries:
  assumes "\<forall>p \<in> set m. reads_back U (snd p)" "om_inv (acc @ m)"
  shows "run U (JMap acc) name Parse_name (show_entries m @ CHR ''}'' # t) = Inr (JMap (acc @ m), t)"
  using assms
proof (induction m arbitrary: acc name)
  case Nil
  then show ?case by (simp add: run_close)
next
  case (Cons p m)
  obtain k v where p: "p = (k, v)" by fastforce
  have set: "om_set k v acc = acc @ [(k, v)]"
    using Cons.prems(2) by (intro om_set_snoc) (auto simp: p om_inv_def sorted_wrt_append)
  have v: "reads_back U v" using Cons.prems(1) by (simp add: p)
  have IH: "run U (JMap (acc @ [(k, v)])) k Parse_name (show_entries m @ CHR ''}'' # t)
      = Inr (JMap (acc @ p # m), t)"
    using Cons.prems Cons.IH [of "acc @ [(k, v)]" k] by (simp add: p)
  show ?case
  proof (cases m)
    case Nil
    then show ?thesis using IH v by (simp add: p run_entry set)
  next
    case (Cons p' m')
    then have "show_entries (p # m) = show_entry k (show_json v) @ '','' @ show_entries m"
      by (simp add: p)
    then show ?thesis using IH v by (simp add: run_entry set run_skip del: list.map)
  qed
qed

lemma run_elements:
  assumes "\<forall>v \<in> set xs. reads_back U v"
  shows "run U (JArr acc) name Parse_value (streamjoin (map show_json xs) @ CHR '']'' # t)
    = Inr (JArr (acc @ xs), t)"
  using assms
proof (induction xs arbitrary: acc)
  case Nil
  then show ?case by (simp add: run_close)
next
  case (Cons v xs)
  have elem: "run U (JArr acc) name Parse_value (show_json v @ q) = run U (JArr (acc @ [v])) name Parse_value q"
    if "ends_value q" for q
    using Cons.prems that by (simp add: reads_back_def push_run_def)
  have IH: "run U (JArr (acc @ [v])) name Parse_value (streamjoin (map show_json xs) @ CHR '']'' # t)
      = Inr (JArr (acc @ v # xs), t)"
    using Cons by simp
  show ?case
  proof (cases xs)
    case Nil
    then show ?thesis using IH by (simp add: elem)
  next
    case (Cons v' xs')
    then have "streamjoin (map show_json (v # xs)) = show_json v @ '','' @ streamjoin (map show_json xs)"
      by simp
    then show ?thesis using IH by (simp add: elem run_skip del: list.map)
  qed
qed

lemma reads_back_printable: "json_wf v \<Longrightarrow> printable v \<Longrightarrow> reads_back U v"
proof (induction v)
  case (JInt i)
  have num: "parse_number (show_int (sint i) @ t) = Inr (JInt i, t)" if "ends_value t" for t
    using JInt.prems that parse_number_show [of "sint i" t] by simp
  obtain h r where h: "show_int (sint i) = h # r" "num_char h"
    using show_int_start [of "sint i"] by (auto simp: num_char_def)
  show ?case
    using num h by (auto simp: reads_back_def run_number)
next
  case JNull
  show ?case using parse_literal_show by (simp add: reads_back_def run_literal)
next
  case (JBool b)
  show ?case using parse_literal_show by (simp add: reads_back_def run_literal)
next
  case (JStr s)
  show ?case by (simp add: reads_back_def run_quote parse_str_escape)
next
  case (JMap m)
  have "reads_back U (snd p)" if "p \<in> set m" for p
  proof (rule JMap.IH [OF that])
    show "snd p \<in> Basic_BNFs.snds p" by (cases p) simp
    show "json_wf (snd p)" using JMap.prems(1) that unfolding json_wf_JMap by blast
    show "printable (snd p)" using JMap.prems(2) that by simp
  qed
  moreover have "om_inv m" using JMap.prems by (simp add: json_wf_JMap)
  ultimately show ?case
    using run_entries [of m U "[]"] by (simp add: reads_back_def run_open del: list.map)
next
  case (JArr xs)
  then have "\<forall>v \<in> set xs. reads_back U v" by simp
  then show ?case
    using run_elements [of xs U "[]"] by (simp add: reads_back_def run_open)
next
  case (JReal x)
  then show ?case by simp
qed

section \<open>The reader and the writer together\<close>





text \<open>A string without backslashes that has its closing quote is read.\<close>

lemma parse_str_closed:
  "QUOTE \<in> set s \<Longrightarrow> BS \<notin> set s \<Longrightarrow> \<exists>t r. parse_str U s = Inr (t, r)"
  by (induction s) (auto simp: prefix_result_Inr)







lemma parse_map_to_string:
  assumes "json_wf (JMap m)" "printable (JMap m)"
  shows "parse_map U (to_string m) = Inr m"
proof -
  have rb: "\<forall>p \<in> set m. reads_back U (snd p)"
    using assms reads_back_printable by (auto simp: json_wf_JMap)
  have inv: "om_inv ([] @ m)" using assms(1) by (simp add: json_wf_JMap)
  define t where "t = show_entries m @ ''}''"
  have "run U (JMap []) [] Parse_name t = Inr (JMap m, [])"
    using run_entries [OF rb inv, of "[]" "[]"] by (simp add: t_def)
  then have "parse_c U (Suc (length t)) (JMap []) [] Parse_name t = Some (Inr (JMap m, []))"
    using parse_c_run by (metis lessI)
  moreover have "to_string m = CHR ''{'' # t" by (simp add: to_string_def t_def)
  ultimately show ?thesis by (simp add: parse_map_def parse_from_def del: parse_c.simps)
qed

text \<open>
  C8: a document written with \<open>to_string\<close> is read back as the same document: all nested
  maps and arrays, strings with any characters, literals and the integers of \<open>int\<close>. The
  maps are sorted by key as \<open>std::map\<close> keeps them; floating point numbers, which the
  stream prints with six digits, are excluded by \<open>printable\<close>.
\<close>

theorem json_text_roundtrip:
  assumes "json_wf (JMap m)" "printable (JMap m)"
  shows "parse_map U (to_string m) = Inr m"
  using assms by (rule parse_map_to_string)

lemma json_text_roundtrip_witness:
  "parse_map (\<lambda>us. []) (to_string [(''a'', JArr [JNull, JBool True, JInt (- 7)]),
      (''b'', JMap [([QUOTE, BS], JStr [CHR 0x0A])])])
    = Inr [(''a'', JArr [JNull, JBool True, JInt (- 7)]), (''b'', JMap [([QUOTE, BS], JStr [CHR 0x0A])])]"
  by (rule json_text_roundtrip) (simp_all add: json_wf_JMap om_inv_def in_int_range_def)

text \<open>The same for documents whose root is an array.\<close>

lemma json_array_roundtrip:
  assumes "\<forall>v \<in> set xs. json_wf v \<and> printable v"
  shows "parse_array U (show_json (JArr xs)) = Inr xs"
proof -
  define t where "t = streamjoin (map show_json xs) @ '']''"
  have "run U (JArr []) [] Parse_value t = Inr (JArr xs, [])"
    using run_elements [of xs U "[]" "[]" "[]"] assms reads_back_printable by (simp add: t_def)
  then have "parse_c U (Suc (length t)) (JArr []) [] Parse_value t = Some (Inr (JArr xs, []))"
    using parse_c_run by (metis lessI)
  moreover have "show_json (JArr xs) = CHR ''['' # t" by (simp add: t_def)
  ultimately show ?thesis by (simp add: parse_array_def parse_from_def del: parse_c.simps)
qed

end
