(* ===== verification/Json_Rpc.thy ===== *)
theory Json_Rpc
  imports Json_Text
begin

text \<open>
  \<open>stream-api/src/json-rpc.hpp\<close> and \<open>json-rpc.cpp\<close>: the messages of the protocol, their
  classification, and the conversions from and to JSON. Reading an entry of a constant map
  inserts a null entry when there is none, so the \<open>parse\<close> functions also return the
  message as they leave it.
\<close>

section \<open>Messages\<close>

datatype error_code =
    parse_error | invalid_request | methodNot_found | invalid_params | internal_error
  | server_error_Start | server_error_end | server_not_initialized | unknown_error_code

fun code_value :: "error_code \<Rightarrow> int" where
  "code_value parse_error = - 32700"
| "code_value invalid_request = - 32600"
| "code_value methodNot_found = - 32601"
| "code_value invalid_params = - 32602"
| "code_value internal_error = - 32603"
| "code_value server_error_Start = - 32099"
| "code_value server_error_end = - 32000"
| "code_value server_not_initialized = - 31999"
| "code_value unknown_error_code = - 32001"

record request_message =
  req_id :: json
  req_method :: string
  req_params :: json
  req_metadata :: json_map

record response_error =
  err_code :: error_code
  err_message :: string
  err_data :: json

record response_message =
  res_id :: json
  res_result :: json
  res_metadata :: json_map
  res_error :: "response_error option"

record notify_message =
  not_method :: string
  not_params :: json
  not_metadata :: json_map

definition make_error :: "error_code \<Rightarrow> string \<Rightarrow> response_error" where
  "make_error code message = \<lparr>err_code = code, err_message = message, err_data = JNull\<rparr>"

text \<open>A default constructed response, and the messages the constructors build.\<close>

definition empty_response :: response_message where
  "empty_response = \<lparr>res_id = JNull, res_result = JNull, res_metadata = [], res_error = None\<rparr>"

definition make_request :: "string \<Rightarrow> string \<Rightarrow> json \<Rightarrow> request_message" where
  "make_request ident method params =
     \<lparr>req_id = JStr ident, req_method = method, req_params = params, req_metadata = []\<rparr>"

definition make_response :: "string \<Rightarrow> json \<Rightarrow> response_message" where
  "make_response ident result =
     \<lparr>res_id = JStr ident, res_result = result, res_metadata = [], res_error = None\<rparr>"

definition make_notify :: "string \<Rightarrow> json \<Rightarrow> notify_message" where
  "make_notify method params = \<lparr>not_method = method, not_params = params, not_metadata = []\<rparr>"

section \<open>Classification\<close>

definition contains :: "json_map \<Rightarrow> string \<Rightarrow> bool" where
  "contains msg key \<longleftrightarrow> om_find key msg \<noteq> None"

definition is_notify :: "json_map \<Rightarrow> bool" where
  "is_notify msg \<longleftrightarrow> \<not> contains msg ''id''"

definition is_request :: "json_map \<Rightarrow> bool" where
  "is_request msg \<longleftrightarrow> contains msg ''method'' \<and> contains msg ''id''"

definition is_response :: "json_map \<Rightarrow> bool" where
  "is_response msg \<longleftrightarrow> \<not> contains msg ''method'' \<and> contains msg ''id''"

section \<open>From JSON\<close>

definition read_params :: "json_map \<Rightarrow> json \<times> json_map" where
  "read_params message =
     (if contains message ''param'' then map_index ''param'' message
      else map_index ''params'' message)"

definition read_metadata :: "json_map \<Rightarrow> json_map result" where
  "read_metadata message =
     (if contains message ''metadata'' then as_map (fst (map_index ''metadata'' message)) else Inr [])"

definition parse_request :: "json_map \<Rightarrow> request_message result \<times> json_map" where
  "parse_request message =
     (let (ident, m1) = map_index ''id'' message;
          (method, m2) = map_index ''method'' m1
      in case as_string method of
           Inl e \<Rightarrow> (Inl e, m2)
         | Inr name \<Rightarrow>
             (let (params, m3) = read_params m2
              in (bindE (read_metadata m3) (\<lambda>metadata.
                    Inr \<lparr>req_id = ident, req_method = name, req_params = params, req_metadata = metadata\<rparr>), m3)))"

definition parse_notify :: "json_map \<Rightarrow> notify_message result \<times> json_map" where
  "parse_notify message =
     (let (method, m1) = map_index ''method'' message
      in case as_string method of
           Inl e \<Rightarrow> (Inl e, m1)
         | Inr name \<Rightarrow>
             (let (params, m2) = read_params m1
              in (bindE (read_metadata m2) (\<lambda>metadata.
                    Inr \<lparr>not_method = name, not_params = params, not_metadata = metadata\<rparr>), m2)))"

text \<open>The optional error of the response that is filled is not touched.\<close>

definition parse_response :: "response_message \<Rightarrow> json_map \<Rightarrow> response_message result \<times> json_map" where
  "parse_response response message =
     (let (ident, m1) = map_index ''id'' message;
          (result, m2) = map_index ''result'' m1
      in (bindE (read_metadata m2) (\<lambda>metadata.
            Inr (response \<lparr>res_id := ident, res_result := result, res_metadata := metadata\<rparr>)), m2))"

section \<open>To JSON\<close>

definition set_params :: "json \<Rightarrow> json_map \<Rightarrow> json_map" where
  "set_params params obj = (if is_type params Ty_null then obj else om_set ''params'' params obj)"

definition set_metadata :: "json_map \<Rightarrow> json_map \<Rightarrow> json_map" where
  "set_metadata metadata obj = (if metadata = [] then obj else om_set ''metadata'' (JMap metadata) obj)"

definition request_json :: "request_message \<Rightarrow> json_map" where
  "request_json msg =
     (let obj = om_set ''jsonrpc'' (JStr ''2.0'') [];
          obj = om_set ''method'' (JStr (req_method msg)) obj;
          obj = set_params (req_params msg) obj;
          obj = om_set ''id'' (req_id msg) obj
      in set_metadata (req_metadata msg) obj)"

text \<open>The code goes through \<open>uint64_t\<close> to the 64 bits of a JSON integer.\<close>

definition error_json :: "response_error \<Rightarrow> json_map" where
  "error_json e =
     (let obj = om_set ''code'' (JInt (word_of_int (code_value (err_code e)))) [];
          obj = om_set ''message'' (JStr (err_message e)) obj
      in om_set ''data'' (err_data e) obj)"

definition response_json :: "response_message \<Rightarrow> json_map" where
  "response_json msg =
     (let obj = om_set ''jsonrpc'' (JStr ''2.0'') [];
          obj = om_set ''result'' (res_result msg) obj;
          obj = (case res_error msg of None \<Rightarrow> obj | Some e \<Rightarrow> om_set ''error'' (JMap (error_json e)) obj);
          obj = om_set ''id'' (res_id msg) obj
      in set_metadata (res_metadata msg) obj)"

definition notify_json :: "notify_message \<Rightarrow> json_map" where
  "notify_json msg =
     (let obj = om_set ''jsonrpc'' (JStr ''2.0'') [];
          obj = om_set ''method'' (JStr (not_method msg)) obj;
          obj = set_params (not_params msg) obj
      in set_metadata (not_metadata msg) obj)"

definition serialize_request :: "request_message \<Rightarrow> string" where
  "serialize_request msg = to_string (request_json msg)"

definition serialize_response :: "response_message \<Rightarrow> string" where
  "serialize_response msg = to_string (response_json msg)"

definition serialize_notify :: "notify_message \<Rightarrow> string" where
  "serialize_notify msg = to_string (notify_json msg)"

section \<open>What the conversions promise\<close>

lemma message_kinds: "is_notify m \<or> is_request m \<or> is_response m"
  by (auto simp: is_notify_def is_request_def is_response_def)

text \<open>
  Every message is exactly one of a notification, a request and a response.
\<close>

lemma message_classification:
  "(is_notify m \<or> is_request m \<or> is_response m)
   \<and> \<not> (is_notify m \<and> is_request m) \<and> \<not> (is_notify m \<and> is_response m) \<and> \<not> (is_request m \<and> is_response m)"
  by (auto simp: is_notify_def is_request_def is_response_def)

text \<open>A value that survives the text: sorted maps, no reals, integers of \<open>int\<close>.\<close>

definition sendable :: "json \<Rightarrow> bool" where
  "sendable v \<longleftrightarrow> json_wf v \<and> printable v"

lemma sendable_simps [simp]: "sendable JNull" "sendable (JStr s)" "sendable (JBool b)"
  by (simp_all add: sendable_def)

lemma printable_JMap: "printable (JMap m) \<longleftrightarrow> (\<forall>p \<in> set m. printable (snd p))"
  by simp

lemma sendable_set: "sendable (JMap m) \<Longrightarrow> sendable v \<Longrightarrow> sendable (JMap (om_set k v m))"
  using om_set_entries [of _ k v m]
  by (fastforce simp: sendable_def json_wf_JMap_set printable_JMap simp del: printable.simps(3))

lemma sendable_Nil [simp]: "sendable (JMap [])"
  by (simp add: sendable_def json_wf_JMap)

lemma sendable_code: "sendable (JInt (word_of_int (code_value c)))"
  by (cases c) (simp_all add: sendable_def in_int_range_def)

lemma sendable_error: "sendable (err_data e) \<Longrightarrow> sendable (JMap (error_json e))"
  unfolding error_json_def Let_def
  by (intro sendable_set sendable_simps sendable_Nil sendable_code)

lemma sendable_params: "sendable v \<Longrightarrow> sendable (JMap m) \<Longrightarrow> sendable (JMap (set_params v m))"
  by (simp add: set_params_def sendable_set)

lemma sendable_metadata:
  "sendable (JMap md) \<Longrightarrow> sendable (JMap m) \<Longrightarrow> sendable (JMap (set_metadata md m))"
  by (simp add: set_metadata_def sendable_set)

lemma sendable_text: "sendable (JMap m) \<Longrightarrow> parse_map U (to_string m) = Inr m"
  by (rule parse_map_to_string) (simp_all add: sendable_def)

text \<open>The entries of the objects that are written.\<close>

lemma om_find_params:
  "om_find k (set_params v m) = (if k = ''params'' \<and> v \<noteq> JNull then Some v else om_find k m)"
  by (cases v) (auto simp: set_params_def is_type_def om_find_set)

lemma om_find_metadata:
  "om_find k (set_metadata md m) = (if k = ''metadata'' \<and> md \<noteq> [] then Some (JMap md) else om_find k m)"
  by (auto simp: set_metadata_def om_find_set)

lemma map_index_fst: "fst (map_index k m) = (case om_find k m of Some v \<Rightarrow> v | None \<Rightarrow> JNull)"
  by (simp add: map_index_def split: option.splits)

lemma om_find_index: "om_find j (snd (map_index k m)) =
    (if j = k then Some (fst (map_index k m)) else om_find j m)"
  by (simp add: map_index_find map_index_other)

lemma read_metadata_params: "read_metadata (snd (read_params m)) = read_metadata m"
  by (auto simp: read_metadata_def read_params_def contains_def om_find_index map_index_fst)

lemma read_metadata_index: "k \<noteq> ''metadata'' \<Longrightarrow> read_metadata (snd (map_index k m)) = read_metadata m"
  by (auto simp: read_metadata_def contains_def om_find_index map_index_fst)

text \<open>What the readers return, in terms of the entries of the message.\<close>

definition entry :: "string \<Rightarrow> json_map \<Rightarrow> json" where
  "entry k m = (case om_find k m of Some v \<Rightarrow> v | None \<Rightarrow> JNull)"

lemma fst_map_index [simp]: "fst (map_index k m) = entry k m"
  by (simp add: entry_def map_index_fst)

lemma entry_index: "j \<noteq> k \<Longrightarrow> entry j (snd (map_index k m)) = entry j m"
  by (simp add: entry_def map_index_other)

definition params_of :: "json_map \<Rightarrow> json" where
  "params_of m = (if contains m ''param'' then entry ''param'' m else entry ''params'' m)"

lemma params_of_index: "k \<notin> {''param'', ''params''} \<Longrightarrow> params_of (snd (map_index k m)) = params_of m"
  by (auto simp: params_of_def entry_def contains_def om_find_index)

lemma fst_params: "fst (read_params m) = params_of m"
  by (simp add: read_params_def params_of_def)

lemma fst_parse_request:
  "fst (parse_request m) =
     bindE (as_string (entry ''method'' m)) (\<lambda>name. bindE (read_metadata m) (\<lambda>md.
       Inr \<lparr>req_id = entry ''id'' m, req_method = name, req_params = params_of m, req_metadata = md\<rparr>))"
  by (auto simp: parse_request_def Let_def case_prod_beta fst_params read_metadata_params
      read_metadata_index params_of_index entry_index split: sum.splits)

lemma fst_parse_notify:
  "fst (parse_notify m) =
     bindE (as_string (entry ''method'' m)) (\<lambda>name. bindE (read_metadata m) (\<lambda>md.
       Inr \<lparr>not_method = name, not_params = params_of m, not_metadata = md\<rparr>))"
  by (auto simp: parse_notify_def Let_def case_prod_beta fst_params read_metadata_params
      read_metadata_index params_of_index entry_index split: sum.splits)

lemma fst_parse_response:
  "fst (parse_response r m) = bindE (read_metadata m) (\<lambda>md.
     Inr (r \<lparr>res_id := entry ''id'' m, res_result := entry ''result'' m, res_metadata := md\<rparr>))"
  by (simp add: parse_response_def Let_def case_prod_beta read_metadata_index entry_index)

lemmas om_entries = om_find_set om_find_Cons om_find_params om_find_metadata

lemma request_json_find:
  "om_find k (request_json r) =
     (if k = ''metadata'' \<and> req_metadata r \<noteq> [] then Some (JMap (req_metadata r))
      else if k = ''id'' then Some (req_id r)
      else if k = ''params'' \<and> req_params r \<noteq> JNull then Some (req_params r)
      else if k = ''method'' then Some (JStr (req_method r))
      else if k = ''jsonrpc'' then Some (JStr ''2.0'') else None)"
  by (simp add: request_json_def Let_def om_entries)

lemma notify_json_find:
  "om_find k (notify_json r) =
     (if k = ''metadata'' \<and> not_metadata r \<noteq> [] then Some (JMap (not_metadata r))
      else if k = ''params'' \<and> not_params r \<noteq> JNull then Some (not_params r)
      else if k = ''method'' then Some (JStr (not_method r))
      else if k = ''jsonrpc'' then Some (JStr ''2.0'') else None)"
  by (simp add: notify_json_def Let_def om_entries)

lemma response_json_find:
  "om_find k (response_json r) =
     (if k = ''metadata'' \<and> res_metadata r \<noteq> [] then Some (JMap (res_metadata r))
      else if k = ''id'' then Some (res_id r)
      else if k = ''error'' \<and> res_error r \<noteq> None then Some (JMap (error_json (the (res_error r))))
      else if k = ''result'' then Some (res_result r)
      else if k = ''jsonrpc'' then Some (JStr ''2.0'') else None)"
  by (cases "res_error r") (simp_all add: response_json_def Let_def om_entries)

lemma sendable_request:
  "sendable (req_id r) \<Longrightarrow> sendable (req_params r) \<Longrightarrow> sendable (JMap (req_metadata r)) \<Longrightarrow>
     sendable (JMap (request_json r))"
  unfolding request_json_def Let_def
  by (intro sendable_metadata sendable_params sendable_set sendable_simps sendable_Nil)

lemma sendable_notify:
  "sendable (not_params r) \<Longrightarrow> sendable (JMap (not_metadata r)) \<Longrightarrow> sendable (JMap (notify_json r))"
  unfolding notify_json_def Let_def
  by (intro sendable_metadata sendable_params sendable_set sendable_simps sendable_Nil)

definition sendable_response :: "response_message \<Rightarrow> bool" where
  "sendable_response r \<longleftrightarrow>
     sendable (res_id r) \<and> sendable (res_result r) \<and> sendable (JMap (res_metadata r)) \<and>
     (\<forall>e. res_error r = Some e \<longrightarrow> sendable (err_data e))"

lemma sendable_response_json:
  assumes "sendable_response r"
  shows "sendable (JMap (response_json r))"
proof -
  have err: "sendable (JMap (case res_error r of None \<Rightarrow> m | Some e \<Rightarrow> om_set ''error'' (JMap (error_json e)) m))"
    if "sendable (JMap m)" for m
    using assms that by (cases "res_error r") (simp_all add: sendable_response_def sendable_set sendable_error)
  have parts: "sendable (res_id r)" "sendable (res_result r)" "sendable (JMap (res_metadata r))"
    using assms by (simp_all add: sendable_response_def)
  show ?thesis
    unfolding response_json_def Let_def
    by (intro sendable_metadata sendable_set err sendable_simps sendable_Nil parts)
qed

text \<open>
  C30: a request that is serialised, sent and parsed at the other end is a request for the
  classification and is read back entry by entry: its id, method, parameters (omitted from
  the text when null) and metadata (omitted when empty). These hold no floats and no
  integers outside \<open>int\<close>, which the text does not keep.
\<close>

theorem request_roundtrip:
  assumes "sendable (req_id r)" "sendable (req_params r)" "sendable (JMap (req_metadata r))"
  shows "\<exists>m. parse_map U (serialize_request r) = Inr m \<and> is_request m \<and> fst (parse_request m) = Inr r"
proof (intro exI conjI)
  show "parse_map U (serialize_request r) = Inr (request_json r)"
    using sendable_text [OF sendable_request] assms by (simp add: serialize_request_def)
  show "is_request (request_json r)"
    by (simp add: is_request_def contains_def request_json_find)
  show "fst (parse_request (request_json r)) = Inr r"
    by (simp add: fst_parse_request entry_def params_of_def contains_def read_metadata_def request_json_find)
qed

lemma request_roundtrip_witness:
  "\<exists>m. parse_map (\<lambda>us. []) (serialize_request
        (make_request ''7'' ''groups.add'' (JMap [(''name'', JStr ''a'')]) \<lparr>req_metadata := [(''k'', JInt 1)]\<rparr>)) = Inr m
     \<and> is_request m
     \<and> fst (parse_request m) = Inr (make_request ''7'' ''groups.add'' (JMap [(''name'', JStr ''a'')])
            \<lparr>req_metadata := [(''k'', JInt 1)]\<rparr>)"
  by (rule request_roundtrip)
    (simp_all add: make_request_def sendable_def json_wf_JMap om_inv_def in_int_range_def)

text \<open>
  A notification that is serialised, sent and parsed is a notification for the
  classification and is read back: its method, parameters and metadata.
\<close>

lemma notify_roundtrip:
  assumes "sendable (not_params r)" "sendable (JMap (not_metadata r))"
  shows "\<exists>m. parse_map U (serialize_notify r) = Inr m \<and> is_notify m \<and> fst (parse_notify m) = Inr r"
proof (intro exI conjI)
  show "parse_map U (serialize_notify r) = Inr (notify_json r)"
    using sendable_text [OF sendable_notify] assms by (simp add: serialize_notify_def)
  show "is_notify (notify_json r)"
    by (simp add: is_notify_def contains_def notify_json_find)
  show "fst (parse_notify (notify_json r)) = Inr r"
    by (simp add: fst_parse_notify entry_def params_of_def contains_def read_metadata_def notify_json_find)
qed

lemma notify_roundtrip_witness:
  "\<exists>m. parse_map (\<lambda>us. []) (serialize_notify (make_notify ''device.signal'' (JArr [JStr ''on'']))) = Inr m
     \<and> is_notify m
     \<and> fst (parse_notify m) = Inr (make_notify ''device.signal'' (JArr [JStr ''on'']))"
  by (rule notify_roundtrip) (simp_all add: make_notify_def sendable_def json_wf_JMap)

text \<open>
  C33: a response is read back with its id, result and metadata, but \<open>parse\<close> does not read
  the error that \<open>serialize\<close> wrote: the error of the response that is filled stays what it
  was, although the text holds the error object with its code, message and data. The response
  holds no floats and no integers outside \<open>int\<close>, which the text does not keep.
\<close>

theorem response_roundtrip_loses_error:
  assumes "sendable_response r"
  shows "\<exists>m. parse_map U (serialize_response r) = Inr m \<and> is_response m
     \<and> fst (parse_response q m) = Inr (r \<lparr>res_error := res_error q\<rparr>)
     \<and> om_find ''error'' m = map_option (\<lambda>e. JMap (error_json e)) (res_error r)"
proof (intro exI conjI)
  show "parse_map U (serialize_response r) = Inr (response_json r)"
    using sendable_text [OF sendable_response_json [OF assms]] by (simp add: serialize_response_def)
  show "is_response (response_json r)"
    by (simp add: is_response_def contains_def response_json_find)
  show "fst (parse_response q (response_json r)) = Inr (r \<lparr>res_error := res_error q\<rparr>)"
    by (simp add: fst_parse_response entry_def contains_def read_metadata_def response_json_find)
  show "om_find ''error'' (response_json r) = map_option (\<lambda>e. JMap (error_json e)) (res_error r)"
    by (cases "res_error r") (simp_all add: response_json_find)
qed

lemma response_roundtrip_loses_error_witness:
  "\<exists>m. parse_map (\<lambda>us. []) (serialize_response
        (make_response ''7'' JNull \<lparr>res_error := Some (make_error invalid_params ''bad'')\<rparr>)) = Inr m
     \<and> is_response m
     \<and> fst (parse_response empty_response m) = Inr (make_response ''7'' JNull
          \<lparr>res_error := Some (make_error invalid_params ''bad''), res_error := res_error empty_response\<rparr>)
     \<and> om_find ''error'' m = map_option (\<lambda>e. JMap (error_json e))
          (res_error (make_response ''7'' JNull \<lparr>res_error := Some (make_error invalid_params ''bad'')\<rparr>))"
  by (rule response_roundtrip_loses_error)
    (simp add: sendable_response_def make_response_def make_error_def)

text \<open>A message whose method is missing or not a string is refused with \<open>bad_get\<close>.\<close>

lemma parse_request_bad_method:
  "fst (parse_request m) = Inl Bad_get"
  if "\<nexists>s. entry ''method'' m = JStr s"
  using that by (cases "entry ''method'' m") (simp_all add: fst_parse_request)

section \<open>The class context\<close>

text \<open>
  \<open>json_rpc::context\<close> is meant to replace the separate checks of a message by its type.
  The flag \<open>checked\<close> says whether \<open>assert\<close> is compiled in; \<open>None\<close> is an aborted program.
\<close>

datatype rpc_type = Rpc_non | Rpc_request | Rpc_response | Rpc_error | Rpc_notify

record rpc_context =
  rc_type :: rpc_type
  rc_id :: json
  rc_method :: string
  rc_params :: json
  rc_result :: json
  rc_code :: error_code
  rc_message :: string
  rc_data :: json

text \<open>\<open>code\<close> is not initialised: any value.\<close>

definition new_context :: "error_code \<Rightarrow> rpc_context" where
  "new_context any_code =
     \<lparr>rc_type = Rpc_non, rc_id = JNull, rc_method = [], rc_params = JNull, rc_result = JNull,
      rc_code = any_code, rc_message = [], rc_data = JNull\<rparr>"

definition assert_typed :: "bool \<Rightarrow> rpc_context \<Rightarrow> rpc_context \<Rightarrow> rpc_context option" where
  "assert_typed checked c c' = (if checked \<and> rc_type c = Rpc_non then None else Some c')"

definition context_request :: "bool \<Rightarrow> string \<Rightarrow> string \<Rightarrow> json \<Rightarrow> rpc_context \<Rightarrow> rpc_context option" where
  "context_request checked i name ps c =
     assert_typed checked c (c\<lparr>rc_type := Rpc_request, rc_id := JStr i, rc_method := name, rc_params := ps\<rparr>)"

definition context_notify :: "bool \<Rightarrow> string \<Rightarrow> json \<Rightarrow> rpc_context \<Rightarrow> rpc_context option" where
  "context_notify checked name ps c =
     assert_typed checked c (c\<lparr>rc_type := Rpc_notify, rc_method := name, rc_params := ps\<rparr>)"

definition context_response :: "bool \<Rightarrow> string \<Rightarrow> json \<Rightarrow> rpc_context \<Rightarrow> rpc_context option" where
  "context_response checked i r c =
     assert_typed checked c (c\<lparr>rc_type := Rpc_response, rc_id := JStr i, rc_result := r\<rparr>)"

text \<open>An error keeps the type the context has.\<close>

definition context_error :: "bool \<Rightarrow> error_code \<Rightarrow> string \<Rightarrow> rpc_context \<Rightarrow> rpc_context option" where
  "context_error checked e msg c =
     assert_typed checked c (c\<lparr>rc_code := e, rc_message := msg\<rparr>)"

definition context_method :: "rpc_context \<Rightarrow> string" where
  "context_method c = rc_method c"

lemmas context_defs = context_request_def context_notify_def context_response_def context_error_def assert_typed_def

text \<open>
  The only constructor makes a context without a type, which every operation asserts it has
  not: with assertions no operation ever succeeds.
\<close>

lemma context_never_made:
  "context_request True i name ps (new_context e) = None" "context_notify True name ps (new_context e) = None"
  "context_response True i r (new_context e) = None" "context_error True f msg (new_context e) = None"
  by (simp_all add: context_defs new_context_def)

lemma context_unchecked:
  "\<exists>c'. context_request False i name ps c = Some c' \<and> rc_type c' = Rpc_request \<and> context_method c' = name"
  "\<exists>c'. context_error False f msg c = Some c' \<and> rc_type c' = rc_type c"
  by (simp_all add: context_defs context_method_def)

end
