(* ===== verification/Service.thy ===== *)
theory Service
  imports Json_Rpc
begin

text \<open>
  What every service is built from: the transports and tasks of \<open>stream-api\<close>
  (\<open>transport_base.hpp\<close>, \<open>http.hpp\<close>, \<open>websocket.hpp\<close>, \<open>error.hpp\<close>, \<open>task.hpp\<close>), the
  message bodies of \<open>stream-core\<close> (\<open>messaging/any.hpp\<close>, unchecked), the effects of a
  handler (the database, the private state of the service, the messages it sends, an
  exception) and the calls all handlers share.
\<close>

section \<open>Transports\<close>

datatype transport_type = Http | Ws

text \<open>The error codes the handlers compare with; the others are told apart by their text.\<close>

datatype net_error =
    Connection_reset | Not_connected | Connection_refused | Eof | Ws_closed
  | Operation_aborted | Broken_pipe | Bad_descriptor | Other_error string

record http_message =
  h_id :: string
  h_status :: nat
  h_uri :: string
  h_method :: string
  h_body :: string
  h_headers :: "(string \<times> string) list"

datatype transport =
    T_http http_message
  | T_ws string string
  | T_error string transport_type net_error

fun tr_type :: "transport \<Rightarrow> transport_type" where
  "tr_type (T_http _) = Http"
| "tr_type (T_ws _ _) = Ws"
| "tr_type (T_error _ t _) = t"

fun tr_id :: "transport \<Rightarrow> string" where
  "tr_id (T_http h) = h_id h"
| "tr_id (T_ws i _) = i"
| "tr_id (T_error i _ _) = i"

text \<open>\<open>static_pointer_cast\<close>: another object behind the pointer is undefined behaviour.\<close>

fun as_ws :: "transport \<Rightarrow> (string \<times> string) result" where
  "as_ws (T_ws i b) = Inr (i, b)"
| "as_ws _ = Inl Undefined"

fun as_http :: "transport \<Rightarrow> http_message result" where
  "as_http (T_http h) = Inr h"
| "as_http _ = Inl Undefined"

fun as_error :: "transport \<Rightarrow> (string \<times> net_error) result" where
  "as_error (T_error i _ c) = Inr (i, c)"
| "as_error _ = Inl Undefined"

text \<open>The header of an \<open>http\<close> object is emplaced: the first value stays.\<close>

definition http_new :: "string \<Rightarrow> http_message" where
  "http_new i = \<lparr>h_id = i, h_status = 0, h_uri = [], h_method = [], h_body = [], h_headers = []\<rparr>"

definition http_header :: "string \<Rightarrow> string \<Rightarrow> http_message \<Rightarrow> http_message" where
  "http_header k v h = h \<lparr>h_headers := um_emplace k v (h_headers h)\<rparr>"

section \<open>Tasks and message bodies\<close>

record task =
  tk_request :: request_message
  tk_transport :: string
  tk_storage :: "(string \<times> string) list"

datatype body = B_task task | B_transport transport | B_string string

fun body_task :: "body \<Rightarrow> task result" where
  "body_task (B_task t) = Inr t"
| "body_task _ = Inl Undefined"

fun body_transport :: "body \<Rightarrow> transport result" where
  "body_transport (B_transport t) = Inr t"
| "body_transport _ = Inl Undefined"

fun body_string :: "body \<Rightarrow> string result" where
  "body_string (B_string s) = Inr s"
| "body_string _ = Inl Undefined"

text \<open>\<open>storage[k]\<close> inserts an empty string when there is no entry.\<close>

definition storage_index :: "string \<Rightarrow> task \<Rightarrow> string \<times> task" where
  "storage_index k t =
     (case um_find k (tk_storage t) of
        Some v \<Rightarrow> (v, t)
      | None \<Rightarrow> ([], t \<lparr>tk_storage := um_set k [] (tk_storage t)\<rparr>))"

definition storage_set :: "string \<Rightarrow> string \<Rightarrow> task \<Rightarrow> task" where
  "storage_set k v t = t \<lparr>tk_storage := um_set k v (tk_storage t)\<rparr>"

definition storage_emplace :: "string \<Rightarrow> string \<Rightarrow> task \<Rightarrow> task" where
  "storage_emplace k v t = t \<lparr>tk_storage := um_emplace k v (tk_storage t)\<rparr>"

text \<open>\<open>params[k].as<std::string>()\<close>, \<open>params[k].as<json_array>()\<close> and \<open>metadata[k].as<std::string>()\<close>.\<close>

definition param :: "(json \<Rightarrow> 'a result) \<Rightarrow> string \<Rightarrow> task \<Rightarrow> 'a result" where
  "param as_t k t = bindE (value_index k (req_params (tk_request t))) (\<lambda>(v, _). as_t v)"

definition metadata_string :: "string \<Rightarrow> task \<Rightarrow> string result" where
  "metadata_string k t = as_string (fst (map_index k (req_metadata (tk_request t))))"

definition set_task_metadata :: "json_map \<Rightarrow> task \<Rightarrow> task" where
  "set_task_metadata md t = t \<lparr>tk_request := tk_request t \<lparr>req_metadata := md\<rparr>\<rparr>"

section \<open>The effects of a handler\<close>

datatype sql_value = Sql_null | Sql_int int | Sql_text string

type_synonym sql_row = "sql_value list"

text \<open>
  The code outside the repository, as parameters: \<open>boost::algorithm::split\<close>,
  \<open>boost::locale\<close>, the texts of exceptions, the database (the rows a statement yields, the
  exception that ends it, the database it leaves) with its cast from text to integer, and
  the contacts of the actor with their message types.
\<close>

record 'db ext =
  x_split :: "string \<Rightarrow> string \<Rightarrow> string list"
  x_utf :: "u16 list \<Rightarrow> string"
  x_what :: "exn \<Rightarrow> string"
  x_sql :: "string \<Rightarrow> string list \<Rightarrow> 'db \<Rightarrow> sql_row list \<times> exn option \<times> 'db"
  x_cast_int :: "string \<Rightarrow> int"
  x_contacts :: "string \<Rightarrow> string list option"

type_synonym sent = "string \<times> string \<times> body"

record ('db, 'p) world =
  w_db :: 'db
  w_priv :: 'p
  w_sent :: "sent list"

type_synonym ('db, 'p, 'a) act = "('db, 'p) world \<Rightarrow> 'a result \<times> ('db, 'p) world"

definition ret :: "'a \<Rightarrow> ('db, 'p, 'a) act" where
  "ret x w = (Inr x, w)"

definition lift :: "'a result \<Rightarrow> ('db, 'p, 'a) act" where
  "lift r w = (r, w)"

definition bindA :: "('db, 'p, 'a) act \<Rightarrow> ('a \<Rightarrow> ('db, 'p, 'b) act) \<Rightarrow> ('db, 'p, 'b) act" where
  "bindA m f w = (case m w of (Inl e, w') \<Rightarrow> (Inl e, w') | (Inr x, w') \<Rightarrow> f x w')"

text \<open>\<open>try ... catch (std::exception &e)\<close>: undefined behaviour is not an exception.\<close>

definition tryA :: "('db, 'p, 'a) act \<Rightarrow> (exn \<Rightarrow> ('db, 'p, 'a) act) \<Rightarrow> ('db, 'p, 'a) act" where
  "tryA m h w =
     (case m w of
        (Inl e, w') \<Rightarrow> if catchable e then h e w' else (Inl e, w')
      | (Inr x, w') \<Rightarrow> (Inr x, w'))"

definition get_priv :: "('db, 'p, 'p) act" where
  "get_priv w = (Inr (w_priv w), w)"

definition put_priv :: "'p \<Rightarrow> ('db, 'p, unit) act" where
  "put_priv p w = (Inr (), w \<lparr>w_priv := p\<rparr>)"

text \<open>\<open>ctx->addresses(dest)->send(make_message(..., command, body))\<close>.\<close>

definition send :: "'db ext \<Rightarrow> string \<Rightarrow> string \<Rightarrow> body \<Rightarrow> ('db, 'p, unit) act" where
  "send X dest command b w =
     (case x_contacts X dest of
        None \<Rightarrow> (Inl Out_of_range, w)
      | Some _ \<Rightarrow> (Inr (), w \<lparr>w_sent := w_sent w @ [(dest, command, b)]\<rparr>))"

text \<open>
  The three ways a statement is run: for its effect, with a function called on every row,
  and for the single integer of the only row.
\<close>

definition sql_exec :: "'db ext \<Rightarrow> string \<Rightarrow> string list \<Rightarrow> ('db, 'p, unit) act" where
  "sql_exec X sql args w =
     (case x_sql X sql args (w_db w) of
        (_, Some e, db) \<Rightarrow> (Inl e, w \<lparr>w_db := db\<rparr>)
      | (_, None, db) \<Rightarrow> (Inr (), w \<lparr>w_db := db\<rparr>))"

fun fold_rows :: "(sql_row \<Rightarrow> 'b \<Rightarrow> 'b result) \<Rightarrow> sql_row list \<Rightarrow> 'b \<Rightarrow> 'b result" where
  "fold_rows f [] b = Inr b"
| "fold_rows f (r # rs) b = bindE (f r b) (fold_rows f rs)"

definition sql_each ::
    "'db ext \<Rightarrow> string \<Rightarrow> string list \<Rightarrow> (sql_row \<Rightarrow> 'b \<Rightarrow> 'b result) \<Rightarrow> 'b \<Rightarrow> ('db, 'p, 'b) act" where
  "sql_each X sql args f b w =
     (case x_sql X sql args (w_db w) of
        (rows, err, db) \<Rightarrow>
          (bindE (fold_rows f rows b) (\<lambda>b'. case err of Some e \<Rightarrow> Inl e | None \<Rightarrow> Inr b'),
           w \<lparr>w_db := db\<rparr>))"

fun col_int :: "'db ext \<Rightarrow> sql_value \<Rightarrow> int" where
  "col_int X Sql_null = 0"
| "col_int X (Sql_int i) = sint (word_of_int i :: 32 word)"
| "col_int X (Sql_text s) = x_cast_int X s"

definition sql_int :: "'db ext \<Rightarrow> string \<Rightarrow> string list \<Rightarrow> ('db, 'p, int) act" where
  "sql_int X sql args w =
     (case x_sql X sql args (w_db w) of
        (rows, err, db) \<Rightarrow>
          ((case rows of
              [] \<Rightarrow> (case err of
                       Some e \<Rightarrow> Inl e
                     | None \<Rightarrow> Inl (Sqlite_error ''no rows to extract: exactly 1 row expected''))
            | r # rs \<Rightarrow>
                if r = [] then Inl Undefined
                else if rs \<noteq> [] then Inl (Sqlite_error ''not all rows extracted'')
                else (case err of Some e \<Rightarrow> Inl e | None \<Rightarrow> Inr (col_int X (hd r)))),
           w \<lparr>w_db := db\<rparr>))"

text \<open>
  A column as \<open>std::string\<close> and as \<open>std::unique_ptr<std::string>\<close>. Reading a column the
  statement does not have is undefined.
\<close>

fun text_of :: "sql_value \<Rightarrow> string option" where
  "text_of Sql_null = None"
| "text_of (Sql_int i) = Some (show_int i)"
| "text_of (Sql_text s) = Some s"

definition col_ptr :: "nat \<Rightarrow> sql_row \<Rightarrow> string option result" where
  "col_ptr i r = (if i < length r then Inr (text_of (r ! i)) else Inl Undefined)"

definition col_string :: "nat \<Rightarrow> sql_row \<Rightarrow> string result" where
  "col_string i r = bindE (col_ptr i r) (\<lambda>p. Inr (case p of Some s \<Rightarrow> s | None \<Rightarrow> []))"

section \<open>Replies\<close>

definition response_to :: "task \<Rightarrow> response_message" where
  "response_to t = empty_response \<lparr>res_id := req_id (tk_request t)\<rparr>"

definition fail :: "string \<Rightarrow> response_message \<Rightarrow> response_message" where
  "fail text r = r \<lparr>res_error := Some (make_error unknown_error_code text)\<rparr>"

definition success :: "json \<Rightarrow> response_message \<Rightarrow> response_message" where
  "success v r = r \<lparr>res_result := v\<rparr>"

text \<open>The response goes to the web socket provider, addressed to the transport of the task.\<close>

definition write_ws :: "'db ext \<Rightarrow> string \<Rightarrow> string \<Rightarrow> ('db, 'p, unit) act" where
  "write_ws X transport text = send X ''ws'' ''write'' (B_transport (T_ws transport text))"

definition respond :: "'db ext \<Rightarrow> task \<Rightarrow> response_message \<Rightarrow> ('db, 'p, unit) act" where
  "respond X t r = write_ws X (tk_transport t) (serialize_response r)"

definition reply_error :: "'db ext \<Rightarrow> task \<Rightarrow> string \<Rightarrow> ('db, 'p, unit) act" where
  "reply_error X t text = respond X t (fail text (response_to t))"

text \<open>The text of a frame as a document: \<open>json_map message{json::data{ws->body}}\<close>.\<close>

definition read_message :: "'db ext \<Rightarrow> string \<Rightarrow> ('db, 'p, json_map) act" where
  "read_message X text = lift (parse_map (x_utf X) text)"

definition thenA :: "('db, 'p, 'a) act \<Rightarrow> ('db, 'p, 'b) act \<Rightarrow> ('db, 'p, 'b) act" where
  "thenA m n = bindA m (\<lambda>_. n)"

definition skipA :: "('db, 'p, unit) act" where
  "skipA = ret ()"

text \<open>\<open>v[i]\<close> on a \<open>std::vector\<close> does not check its range.\<close>

definition vec_at :: "'a list \<Rightarrow> nat \<Rightarrow> 'a result" where
  "vec_at xs i = (if i < length xs then Inr (xs ! i) else Inl Undefined)"

text \<open>A map built from an initialiser list: the first entry of a key stays.\<close>

definition make_map :: "(string \<times> json) list \<Rightarrow> json_map" where
  "make_map kvs = om_merge [] kvs"

text \<open>\<open>std::to_string\<close> of a truth value.\<close>

definition bool_digit :: "bool \<Rightarrow> string" where
  "bool_digit b = (if b then ''1'' else ''0'')"

text \<open>
  The strings of a JSON array, and \<open>std::accumulate\<close> joining them with commas: an empty
  accumulator takes the next string as it is.
\<close>

fun string_list :: "json list \<Rightarrow> string list result" where
  "string_list [] = Inr []"
| "string_list (v # vs) = bindE (as_string v) (\<lambda>s. bindE (string_list vs) (\<lambda>ss. Inr (s # ss)))"

definition accumulate :: "string list \<Rightarrow> string" where
  "accumulate ss = foldl (\<lambda>acc s. if acc = [] then s else acc @ '','' @ s) [] ss"

section \<open>Answering a task\<close>

text \<open>
  The shape most handlers have: compute a response, turning every exception into an error
  of the response, and send it.
\<close>

definition caught ::
    "'db ext \<Rightarrow> response_message \<Rightarrow> ('db, 'p, response_message) act \<Rightarrow> ('db, 'p, response_message) act" where
  "caught X r m = tryA m (\<lambda>e. ret (fail (x_what X e) r))"

definition answer :: "'db ext \<Rightarrow> task \<Rightarrow> ('db, 'p, response_message) act \<Rightarrow> ('db, 'p, unit) act" where
  "answer X t m = bindA m (respond X t)"

section \<open>Running a handler\<close>

lemma run_simps [simp]:
  "ret x w = (Inr x, w)"
  "lift r w = (r, w)"
  "get_priv w = (Inr (w_priv w), w)"
  "put_priv p w = (Inr (), w \<lparr>w_priv := p\<rparr>)"
  "skipA w = (Inr (), w)"
  by (simp_all add: ret_def lift_def get_priv_def put_priv_def skipA_def)

lemma bindA_lift [simp]:
  "bindA (lift (Inr x)) f = f x" "bindA (lift (Inl e)) f = lift (Inl e)" "bindA (ret x) f = f x"
  by (simp_all add: bindA_def fun_eq_iff)

lemma bindA_Inr [simp]: "m w = (Inr x, w') \<Longrightarrow> bindA m f w = f x w'"
  by (simp add: bindA_def)

lemma bindA_Inl [simp]: "m w = (Inl e, w') \<Longrightarrow> bindA m f w = (Inl e, w')"
  by (simp add: bindA_def)

lemma thenA_Inr [simp]: "m w = (Inr x, w') \<Longrightarrow> thenA m n w = n w'"
  by (simp add: thenA_def)

lemma thenA_Inl [simp]: "m w = (Inl e, w') \<Longrightarrow> thenA m n w = (Inl e, w')"
  by (simp add: thenA_def)

lemma tryA_Inr [simp]: "m w = (Inr x, w') \<Longrightarrow> tryA m h w = (Inr x, w')"
  by (simp add: tryA_def)

lemma tryA_Inl [simp]: "m w = (Inl e, w') \<Longrightarrow> tryA m h w = (if catchable e then h e w' else (Inl e, w'))"
  by (simp add: tryA_def)

lemma send_Some [simp]:
  "x_contacts X dest = Some ts \<Longrightarrow> send X dest c b w = (Inr (), w \<lparr>w_sent := w_sent w @ [(dest, c, b)]\<rparr>)"
  by (simp add: send_def)

lemma send_None [simp]: "x_contacts X dest = None \<Longrightarrow> send X dest c b w = (Inl Out_of_range, w)"
  by (simp add: send_def)

text \<open>Statements touch nothing but the database.\<close>

lemma sql_frame:
  "sql_exec X sql args w = (r, w') \<Longrightarrow> w_priv w' = w_priv w \<and> w_sent w' = w_sent w"
  by (auto simp: sql_exec_def split: prod.splits option.splits)

lemma sql_each_frame:
  "sql_each X sql args f b w = (q, w') \<Longrightarrow> w_priv w' = w_priv w \<and> w_sent w' = w_sent w"
  by (auto simp: sql_each_def split: prod.splits)

lemma sql_int_frame:
  "sql_int X sql args w = (q, w') \<Longrightarrow> w_priv w' = w_priv w \<and> w_sent w' = w_sent w"
  by (auto simp: sql_int_def split: prod.splits)

lemma respond_run: "respond X t r w = (Inr (), w') \<Longrightarrow>
    w' = w \<lparr>w_sent := w_sent w @ [(''ws'', ''write'', B_transport (T_ws (tk_transport t) (serialize_response r)))]\<rparr>"
  by (auto simp: respond_def write_ws_def send_def split: option.splits)

lemma answer_run:
  assumes "answer X t m w = (Inr (), w')"
  obtains r w1 where "m w = (Inr r, w1)"
    "w' = w1 \<lparr>w_sent := w_sent w1 @ [(''ws'', ''write'', B_transport (T_ws (tk_transport t) (serialize_response r)))]\<rparr>"
proof -
  obtain x w1 where m: "m w = (x, w1)" by fastforce
  with assms obtain r where "x = Inr r" by (cases x) (auto simp: answer_def)
  with assms m have "respond X t r w1 = (Inr (), w')" by (simp add: answer_def)
  from respond_run [OF this] m \<open>x = Inr r\<close> show thesis by (auto intro: that)
qed

section \<open>What a handler keeps and what it sends\<close>

text \<open>
  A small logic of handlers: from a state with invariant \<open>I\<close>, the action keeps \<open>I\<close>, only
  appends messages that satisfy \<open>Q\<close>, and a value it returns satisfies \<open>V\<close>; also when it
  ends with an exception.
\<close>

definition spec ::
    "('p \<Rightarrow> bool) \<Rightarrow> (sent \<Rightarrow> bool) \<Rightarrow> ('db, 'p, 'a) act \<Rightarrow> ('a \<Rightarrow> bool) \<Rightarrow> bool" where
  "spec I Q m V \<longleftrightarrow>
     (\<forall>w. I (w_priv w) \<longrightarrow>
        I (w_priv (snd (m w))) \<and>
        (\<exists>ms. w_sent (snd (m w)) = w_sent w @ ms \<and> list_all Q ms) \<and>
        (\<forall>x. fst (m w) = Inr x \<longrightarrow> V x))"

named_theorems spec_rules

lemma specI:
  assumes "\<And>w. I (w_priv w) \<Longrightarrow> I (w_priv (snd (m w))) \<and>
    (\<exists>ms. w_sent (snd (m w)) = w_sent w @ ms \<and> list_all Q ms) \<and> (\<forall>x. fst (m w) = Inr x \<longrightarrow> V x)"
  shows "spec I Q m V"
  using assms by (simp add: spec_def)

lemma spec_elim:
  assumes "spec I Q m V" "I (w_priv w)"
  obtains ms where "I (w_priv (snd (m w)))" "w_sent (snd (m w)) = w_sent w @ ms" "list_all Q ms"
    "\<And>x. fst (m w) = Inr x \<Longrightarrow> V x"
  using assms unfolding spec_def by blast

lemma spec_ret: "V x \<Longrightarrow> spec I Q (ret x) V"
  by (simp add: spec_def)

lemma spec_skip [spec_rules]: "V () \<Longrightarrow> spec I Q skipA V"
  by (simp add: spec_def)

lemma spec_lift: "(\<And>x. r = Inr x \<Longrightarrow> V x) \<Longrightarrow> spec I Q (lift r) V"
  by (simp add: spec_def)

lemma spec_bind:
  fixes m :: "('db, 'p, 'a) act"
  assumes "spec I Q m V" "\<And>x. V x \<Longrightarrow> spec I Q (f x) W"
  shows "spec I Q (bindA m f) W"
proof (rule specI)
  fix w :: "('db, 'p) world" assume I: "I (w_priv w)"
  from spec_elim [OF assms(1) I] obtain ms where m: "I (w_priv (snd (m w)))"
    "w_sent (snd (m w)) = w_sent w @ ms" "list_all Q ms" "\<And>x. fst (m w) = Inr x \<Longrightarrow> V x"
    by metis
  show "I (w_priv (snd (bindA m f w))) \<and>
    (\<exists>ms. w_sent (snd (bindA m f w)) = w_sent w @ ms \<and> list_all Q ms) \<and>
    (\<forall>x. fst (bindA m f w) = Inr x \<longrightarrow> W x)"
  proof (cases "m w")
    case (Pair r w')
    show ?thesis
    proof (cases r)
      case (Inl e)
      then show ?thesis using m Pair by simp
    next
      case (Inr x)
      with m Pair have "V x" "I (w_priv w')" by simp_all
      from spec_elim [OF assms(2) [OF this(1)] this(2)] obtain ns where
        "I (w_priv (snd (f x w')))" "w_sent (snd (f x w')) = w_sent w' @ ns" "list_all Q ns"
        "\<And>y. fst (f x w') = Inr y \<Longrightarrow> W y"
        by metis
      then show ?thesis using m Pair Inr by simp
    qed
  qed
qed

lemma spec_then:
  assumes "spec I Q m (\<lambda>_. True)" "spec I Q n W"
  shows "spec I Q (thenA m n) W"
  unfolding thenA_def by (rule spec_bind [OF assms(1)]) (rule assms(2))

lemma spec_try:
  fixes m :: "('db, 'p, 'a) act"
  assumes "spec I Q m V" "\<And>e. spec I Q (h e) V"
  shows "spec I Q (tryA m h) V"
proof (rule specI)
  fix w :: "('db, 'p) world" assume I: "I (w_priv w)"
  from spec_elim [OF assms(1) I] obtain ms where m: "I (w_priv (snd (m w)))"
    "w_sent (snd (m w)) = w_sent w @ ms" "list_all Q ms" "\<And>x. fst (m w) = Inr x \<Longrightarrow> V x"
    by metis
  show "I (w_priv (snd (tryA m h w))) \<and>
    (\<exists>ms. w_sent (snd (tryA m h w)) = w_sent w @ ms \<and> list_all Q ms) \<and>
    (\<forall>x. fst (tryA m h w) = Inr x \<longrightarrow> V x)"
  proof (cases "m w")
    case (Pair r w')
    show ?thesis
    proof (cases r)
      case (Inl e)
      with m Pair have "I (w_priv w')" by simp
      from spec_elim [OF assms(2) [of e] this] obtain ns where
        "I (w_priv (snd (h e w')))" "w_sent (snd (h e w')) = w_sent w' @ ns" "list_all Q ns"
        "\<And>y. fst (h e w') = Inr y \<Longrightarrow> V y"
        by metis
      then show ?thesis using m Pair Inl by simp
    next
      case (Inr x)
      then show ?thesis using m Pair by simp
    qed
  qed
qed

lemma spec_get_priv:
  assumes "\<And>p. I p \<Longrightarrow> spec I Q (f p) W"
  shows "spec I Q (bindA get_priv f) W"
  by (rule spec_bind [of I Q get_priv I]) (simp_all add: spec_def assms [unfolded spec_def])

lemma spec_put_priv: "I p \<Longrightarrow> V () \<Longrightarrow> spec I Q (put_priv p) V"
  by (simp add: spec_def)

lemma spec_send: "Q (dest, c, b) \<Longrightarrow> V () \<Longrightarrow> spec I Q (send X dest c b) V"
  by (auto simp: spec_def send_def split: option.splits)

lemma spec_sql_exec: "V () \<Longrightarrow> spec I Q (sql_exec X sql args) V"
  by (auto simp: spec_def sql_exec_def split: prod.splits option.splits)

lemma spec_sql_each: "(\<And>x. V x) \<Longrightarrow> spec I Q (sql_each X sql args f b) V"
  by (auto simp: spec_def sql_each_def split: prod.splits)

lemma spec_sql_int: "(\<And>x. V x) \<Longrightarrow> spec I Q (sql_int X sql args) V"
  by (auto simp: spec_def sql_int_def split: prod.splits)

lemma spec_if [spec_rules]:
  "(b \<Longrightarrow> spec I Q m V) \<Longrightarrow> (\<not> b \<Longrightarrow> spec I Q n V) \<Longrightarrow> spec I Q (if b then m else n) V"
  by simp

text \<open>The messages that are replies of a service: writes of the web socket provider.\<close>

definition is_reply :: "sent \<Rightarrow> bool" where
  "is_reply m \<longleftrightarrow> (case m of (dest, c, _) \<Rightarrow> dest = ''ws'' \<and> c = ''write'')"

lemma spec_respond:
  "(\<And>tr. Q (''ws'', ''write'', B_transport tr)) \<Longrightarrow> V () \<Longrightarrow> spec I Q (respond X t r) V"
  by (simp add: respond_def write_ws_def spec_send)

lemma spec_reply_error:
  "(\<And>tr. Q (''ws'', ''write'', B_transport tr)) \<Longrightarrow> V () \<Longrightarrow> spec I Q (reply_error X t text) V"
  by (simp add: reply_error_def spec_respond)

section \<open>Actions that send one message\<close>

text \<open>
  An action is quiet when it sends nothing. It sends one message when it does so just
  before it returns, and has sent nothing when it ends with an exception.
\<close>

definition quiet :: "('db, 'p, 'a) act \<Rightarrow> bool" where
  "quiet m \<longleftrightarrow> (\<forall>w. w_sent (snd (m w)) = w_sent w)"

definition one_from :: "(sent \<Rightarrow> bool) \<Rightarrow> sent list \<Rightarrow> 'a result \<times> ('db, 'p) world \<Rightarrow> bool" where
  "one_from Q before out \<longleftrightarrow>
     (case fst out of
        Inr _ \<Rightarrow> \<exists>s. Q s \<and> w_sent (snd out) = before @ [s]
      | Inl _ \<Rightarrow> w_sent (snd out) = before)"

definition sends_one :: "(sent \<Rightarrow> bool) \<Rightarrow> ('db, 'p, 'a) act \<Rightarrow> bool" where
  "sends_one Q m \<longleftrightarrow> (\<forall>w. one_from Q (w_sent w) (m w))"

text \<open>What an action returns when it returns.\<close>

definition returns :: "('db, 'p, 'a) act \<Rightarrow> ('a \<Rightarrow> bool) \<Rightarrow> bool" where
  "returns m V \<longleftrightarrow> (\<forall>w x. fst (m w) = Inr x \<longrightarrow> V x)"

text \<open>A reply to a task: a write to its transport with the id of its request.\<close>

definition reply_message :: "string \<Rightarrow> response_message \<Rightarrow> sent" where
  "reply_message transport r = (''ws'', ''write'', B_transport (T_ws transport (serialize_response r)))"

text \<open>What an error reply is, wherever it is sent from: one response with the text, if it can be sent.\<close>

definition refuses :: "task \<Rightarrow> string \<Rightarrow> sent" where
  "refuses t text = reply_message (tk_transport t) (fail text (response_to t))"

lemma reply_error_cases:
  "reply_error X t text w =
     (case x_contacts X ''ws'' of
        None \<Rightarrow> (Inl Out_of_range, w)
      | Some _ \<Rightarrow> (Inr (), w \<lparr>w_sent := w_sent w @ [refuses t text]\<rparr>))"
  by (simp add: reply_error_def respond_def write_ws_def send_def reply_message_def refuses_def split: option.split)

lemma refuses_cong: "tk_request u = tk_request t \<Longrightarrow> tk_transport u = tk_transport t \<Longrightarrow> refuses u text = refuses t text"
  by (simp add: refuses_def response_to_def)

definition is_reply_to :: "json \<Rightarrow> string \<Rightarrow> sent \<Rightarrow> bool" where
  "is_reply_to ident transport s \<longleftrightarrow> (\<exists>r. res_id r = ident \<and> s = reply_message transport r)"

lemma quiet_basic [simp]: "quiet (ret x)" "quiet (lift r)" "quiet get_priv" "quiet (put_priv p)" "quiet skipA"
  by (simp_all add: quiet_def)

lemma quiet_sql [simp]: "quiet (sql_exec X sql args)" "quiet (sql_each X sql args f b)" "quiet (sql_int X sql args)"
  by (auto simp: quiet_def sql_exec_def sql_each_def sql_int_def split: prod.splits option.splits)

lemma quiet_bind: "quiet m \<Longrightarrow> (\<And>x. quiet (f x)) \<Longrightarrow> quiet (bindA m f)"
  unfolding quiet_def bindA_def by (simp split: prod.splits sum.splits) (metis snd_conv)

lemma quiet_then: "quiet m \<Longrightarrow> quiet n \<Longrightarrow> quiet (thenA m n)"
  by (simp add: thenA_def quiet_bind)

lemma quiet_if: "quiet m \<Longrightarrow> quiet n \<Longrightarrow> quiet (if b then m else n)"
  by simp

lemma quiet_try: "quiet m \<Longrightarrow> (\<And>e. quiet (h e)) \<Longrightarrow> quiet (tryA m h)"
  unfolding quiet_def tryA_def by (simp split: prod.splits sum.splits) (metis snd_conv)

lemma quiet_caught: "quiet m \<Longrightarrow> quiet (caught X r m)"
  by (simp add: caught_def quiet_try)

lemma quiet_case_prod: "(\<And>x y. quiet (f x y)) \<Longrightarrow> quiet (case p of (x, y) \<Rightarrow> f x y)"
  by (simp split: prod.split)

lemma res_id_simps [simp]:
  "res_id (response_to t) = req_id (tk_request t)"
  "res_id (success v r) = res_id r"
  "res_id (fail text r) = res_id r"
  by (simp_all add: response_to_def success_def fail_def)

lemma returns_ret: "V x \<Longrightarrow> returns (ret x) V"
  by (simp add: returns_def)

lemma returns_True: "returns m (\<lambda>_. True)"
  by (simp add: returns_def)

lemma returns_bind: "(\<And>x. returns (f x) V) \<Longrightarrow> returns (bindA m f) V"
  unfolding returns_def bindA_def
  by (auto split: prod.splits sum.splits)

lemma returns_then: "returns n V \<Longrightarrow> returns (thenA m n) V"
  by (simp add: thenA_def returns_bind)

lemma returns_if: "(b \<Longrightarrow> returns m V) \<Longrightarrow> (\<not> b \<Longrightarrow> returns n V) \<Longrightarrow> returns (if b then m else n) V"
  by simp

lemma returns_caught:
  assumes "returns m V" "\<And>text. V (fail text r)"
  shows "returns (caught X r m) V"
  using assms unfolding returns_def caught_def tryA_def
  by (auto split: prod.splits sum.splits if_splits) (metis fst_conv)

lemma returns_case_prod: "(\<And>x y. returns (f x y) V) \<Longrightarrow> returns (case p of (x, y) \<Rightarrow> f x y) V"
  by (simp split: prod.split)

lemma sends_one_send: "Q (dest, c, b) \<Longrightarrow> sends_one Q (send X dest c b)"
  by (auto simp: sends_one_def one_from_def send_def split: option.splits)

lemma sends_one_respond:
  "(\<And>b. b = serialize_response r \<Longrightarrow> Q (''ws'', ''write'', B_transport (T_ws (tk_transport t) b))) \<Longrightarrow>
     sends_one Q (respond X t r)"
  by (simp add: respond_def write_ws_def sends_one_send)

lemma sends_one_lift: "(\<And>x. r = Inr x \<Longrightarrow> sends_one Q (f x)) \<Longrightarrow> sends_one Q (bindA (lift r) f)"
  by (cases r) (auto simp: sends_one_def one_from_def)

lemma sends_one_bind:
  assumes "quiet m" "returns m V" "\<And>x. V x \<Longrightarrow> sends_one Q (f x)"
  shows "sends_one Q (bindA m f)"
  unfolding sends_one_def
proof
  fix w
  obtain r w' where m: "m w = (r, w')" by fastforce
  have sent: "w_sent w' = w_sent w" using assms(1) m by (metis quiet_def snd_conv)
  show "one_from Q (w_sent w) (bindA m f w)"
  proof (cases r)
    case (Inl e)
    then show ?thesis using m sent by (simp add: one_from_def)
  next
    case (Inr x)
    then have "V x" using assms(2) m by (simp add: returns_def) (metis fst_conv)
    from assms(3) [OF this, unfolded sends_one_def, rule_format, of w'] show ?thesis
      using m Inr sent by simp
  qed
qed

lemma sends_one_bind_any: "quiet m \<Longrightarrow> (\<And>x. sends_one Q (f x)) \<Longrightarrow> sends_one Q (bindA m f)"
  by (rule sends_one_bind [OF _ returns_True])

lemma sends_one_then: "quiet m \<Longrightarrow> sends_one Q n \<Longrightarrow> sends_one Q (thenA m n)"
  by (simp add: thenA_def sends_one_bind_any)

lemma sends_one_if: "(b \<Longrightarrow> sends_one Q m) \<Longrightarrow> (\<not> b \<Longrightarrow> sends_one Q n) \<Longrightarrow> sends_one Q (if b then m else n)"
  by simp

lemma sends_one_case_prod: "(\<And>x y. sends_one Q (f x y)) \<Longrightarrow> sends_one Q (case p of (x, y) \<Rightarrow> f x y)"
  by (simp split: prod.split)

lemma sends_one_try:
  assumes "sends_one Q m" "\<And>e. sends_one Q (h e)"
  shows "sends_one Q (tryA m h)"
  unfolding sends_one_def
proof
  fix w
  obtain r w' where m: "m w = (r, w')" by fastforce
  have out: "one_from Q (w_sent w) (m w)" "one_from Q (w_sent w') (h e w')" for e
    using assms by (simp_all add: sends_one_def)
  show "one_from Q (w_sent w) (tryA m h w)"
    using m out by (cases r) (auto simp: one_from_def)
qed

text \<open>The rules in the order in which they are tried, for both kinds of goals.\<close>

lemma sends_one_answer:
  assumes "quiet m" "returns m (\<lambda>r. res_id r = ident)"
    "\<And>r. res_id r = ident \<Longrightarrow> Q (reply_message (tk_transport t) r)"
  shows "sends_one Q (answer X t m)"
  unfolding answer_def
  by (rule sends_one_bind [OF assms(1,2)], rule sends_one_respond)
    (use assms(3) in \<open>simp add: reply_message_def\<close>)

lemma sends_one_reply_error:
  "(\<And>r. res_id r = req_id (tk_request t) \<Longrightarrow> Q (reply_message (tk_transport t) r)) \<Longrightarrow>
     sends_one Q (reply_error X t text)"
  unfolding reply_error_def by (rule sends_one_respond) (simp add: reply_message_def)

lemmas quiet_rules = quiet_basic quiet_sql quiet_caught quiet_then quiet_bind quiet_if quiet_try quiet_case_prod

lemmas returns_rules = returns_caught returns_then returns_bind returns_if returns_case_prod returns_ret

lemmas sends_one_rules =
  sends_one_answer sends_one_reply_error sends_one_send sends_one_lift sends_one_then
  sends_one_bind_any sends_one_try sends_one_if sends_one_case_prod

lemma sends_oneD:
  "sends_one Q m \<Longrightarrow> m w = (Inr x, w') \<Longrightarrow> \<exists>s. Q s \<and> w_sent w' = w_sent w @ [s]"
  by (auto simp: sends_one_def one_from_def dest: spec [of _ w])

lemma sends_one_noneD: "sends_one Q m \<Longrightarrow> m w = (Inl e, w') \<Longrightarrow> w_sent w' = w_sent w"
  by (auto simp: sends_one_def one_from_def dest: spec [of _ w])

text \<open>The storage of a task does not change where its answer goes.\<close>

lemma storage_frame [simp]:
  "tk_request (storage_set k v t) = tk_request t" "tk_transport (storage_set k v t) = tk_transport t"
  "tk_request (storage_emplace k v t) = tk_request t" "tk_transport (storage_emplace k v t) = tk_transport t"
  by (simp_all add: storage_set_def storage_emplace_def)

lemma storage_index_frame [simp]:
  "tk_request (snd (storage_index k t)) = tk_request t" "tk_transport (snd (storage_index k t)) = tk_transport t"
  by (simp_all add: storage_index_def split: option.splits)

lemma storage_index_find:
  "storage_index k t = (v, u) \<Longrightarrow>
     v = (case um_find k (tk_storage t) of Some x \<Rightarrow> x | None \<Rightarrow> [])
     \<and> (j \<noteq> k \<longrightarrow> um_find j (tk_storage u) = um_find j (tk_storage t))
     \<and> tk_request u = tk_request t \<and> tk_transport u = tk_transport t"
  by (auto simp: storage_index_def um_find_set split: option.splits)

lemma spec_answer:
  assumes "spec I Q m (\<lambda>_. True)" "\<And>tr. Q (''ws'', ''write'', B_transport tr)"
  shows "spec I Q (answer X t m) (\<lambda>_. True)"
  unfolding answer_def by (rule spec_bind [OF assms(1)]) (simp add: spec_respond assms(2))

lemma spec_caught: "spec I Q m (\<lambda>_. True) \<Longrightarrow> spec I Q (caught X r m) (\<lambda>_. True)"
  unfolding caught_def by (rule spec_try) (simp_all add: spec_ret)

section \<open>A service processes messages one after the other\<close>

text \<open>An exception that leaves a handler ends the process.\<close>

fun process :: "(string \<Rightarrow> body \<Rightarrow> ('db, 'p, unit) act) \<Rightarrow> (string \<times> body) list \<Rightarrow> ('db, 'p, unit) act" where
  "process handle [] = skipA"
| "process handle ((command, b) # ms) = thenA (handle command b) (process handle ms)"

locale service =
  fixes handle :: "'db ext \<Rightarrow> string \<Rightarrow> body \<Rightarrow> ('db, 'p, unit) act"
    and inv :: "'p \<Rightarrow> bool"
  assumes handle_spec: "spec inv (\<lambda>_. True) (handle X command b) (\<lambda>_. True)"
begin

lemma process_spec: "spec inv (\<lambda>_. True) (process (handle X) ms) (\<lambda>_. True)"
proof (induction ms)
  case Nil
  show ?case unfolding process.simps(1) by (rule spec_skip) simp
next
  case (Cons m ms)
  obtain command b where "m = (command, b)" by fastforce
  then show ?case using spec_then [OF handle_spec Cons] by simp
qed

lemma process_inv: "inv (w_priv w) \<Longrightarrow> inv (w_priv (snd (process (handle X) ms w)))"
  using process_spec [of X ms] by (auto simp: spec_def)

lemma process_sent_grows:
  "inv (w_priv w) \<Longrightarrow> \<exists>new. w_sent (snd (process (handle X) ms w)) = w_sent w @ new"
  using process_spec [of X ms] by (auto simp: spec_def)

end

text \<open>The rules of the logic of handlers for messages without a condition.\<close>

lemma spec_any_lift: "spec I (\<lambda>_. True) (lift r) (\<lambda>_. True)"
  by (simp add: spec_lift)

lemma spec_any_bind_lift: "(\<And>x. spec I Q (f x) V) \<Longrightarrow> spec I Q (bindA (lift r) f) V"
  by (rule spec_bind [of I Q "lift r" "\<lambda>_. True"]) (simp_all add: spec_lift)

text \<open>A new private state that was computed from an old one.\<close>

lemma spec_bind_lift_put:
  assumes "\<And>p. r = Inr p \<Longrightarrow> I p" "spec I Q m V"
  shows "spec I Q (bindA (lift r) (\<lambda>p. thenA (put_priv p) m)) V"
proof (cases r)
  case (Inl e)
  then show ?thesis by (simp add: spec_def)
next
  case (Inr p)
  have "spec I Q (thenA (put_priv p) m) V"
    by (rule spec_then [OF spec_put_priv [of I p] assms(2)]) (simp_all add: assms(1) Inr)
  then show ?thesis unfolding Inr bindA_lift .
qed

lemma spec_any_bind: "spec I Q m (\<lambda>_. True) \<Longrightarrow> (\<And>x. spec I Q (f x) V) \<Longrightarrow> spec I Q (bindA m f) V"
  by (rule spec_bind)

lemma spec_case_prod: "(\<And>x y. spec I Q (f x y) V) \<Longrightarrow> spec I Q (case p of (x, y) \<Rightarrow> f x y) V"
  by (simp split: prod.split)

lemma spec_case_option:
  "spec I Q m V \<Longrightarrow> (\<And>x. spec I Q (f x) V) \<Longrightarrow> spec I Q (case p of None \<Rightarrow> m | Some x \<Rightarrow> f x) V"
  by (simp split: option.split)

lemmas spec_any_rules =
  spec_get_priv spec_any_bind_lift spec_then spec_answer spec_caught spec_any_bind spec_try
  spec_put_priv spec_reply_error spec_respond spec_send spec_sql_exec spec_sql_each spec_sql_int
  spec_if spec_case_prod spec_skip spec_any_lift spec_ret

section \<open>A concrete environment\<close>

text \<open>
  The parameters instantiated, for the examples: the database is the function from the
  arguments of a statement to its rows, all services are contacts.
\<close>

definition demo_contacts :: "string list" where
  "demo_contacts =
     [''ws'', ''http'', ''client'', ''router'', ''users'', ''devices'', ''groups'', ''subscriptions'',
      ''connections'', ''profile'', ''managers'', ''manager'']"

definition demo_ext :: "(string list \<Rightarrow> sql_row list) ext" where
  "demo_ext =
     \<lparr>x_split = (\<lambda>s d. split_at (hd d) s),
      x_utf = (\<lambda>us. []),
      x_what = (\<lambda>e. ''error''),
      x_sql = (\<lambda>sql args db. (db args, None, db)),
      x_cast_int = (\<lambda>s. 0),
      x_contacts = (\<lambda>n. if n \<in> set demo_contacts then Some [''list''] else None)\<rparr>"

definition demo_task :: "json_map \<Rightarrow> json \<Rightarrow> (string \<times> string) list \<Rightarrow> task" where
  "demo_task metadata params storage =
     \<lparr>tk_request = \<lparr>req_id = JStr ''1'', req_method = ''groups.list'', req_params = params,
        req_metadata = metadata\<rparr>,
      tk_transport = ''t'', tk_storage = storage\<rparr>"

end
