(* ===== verification/Users.thy ===== *)
theory Users
  imports Service
begin

text \<open>
  \<open>stream-manager/src/users.cpp\<close>: the accounts of a manager. The private state is the
  cache \<open>users_auth\<close> of the keys that passed authentication, with the login of each.
\<close>

section \<open>The cache\<close>

record users_impl =
  users_auth :: "(string \<times> string) list"

definition is_auth :: "string \<Rightarrow> users_impl \<Rightarrow> bool" where
  "is_auth user_key p \<longleftrightarrow> um_find user_key (users_auth p) \<noteq> None"

definition add_auth :: "string \<Rightarrow> string \<Rightarrow> users_impl \<Rightarrow> users_impl" where
  "add_auth user_key user_login p = p \<lparr>users_auth := um_emplace user_key user_login (users_auth p)\<rparr>"

definition is_auth_login :: "string \<Rightarrow> users_impl \<Rightarrow> bool" where
  "is_auth_login user_login p \<longleftrightarrow> list_ex (\<lambda>e. snd e = user_login) (users_auth p)"

definition remove_auth :: "string \<Rightarrow> users_impl \<Rightarrow> users_impl" where
  "remove_auth user_key p = p \<lparr>users_auth := um_erase user_key (users_auth p)\<rparr>"

text \<open>\<open>erase\<close> of the iterator that \<open>find_if\<close> returned: the first entry with the login.\<close>

fun erase_first :: "('a \<Rightarrow> bool) \<Rightarrow> 'a list \<Rightarrow> 'a list" where
  "erase_first P [] = []"
| "erase_first P (x # xs) = (if P x then xs else x # erase_first P xs)"

definition remove_auth_login :: "string \<Rightarrow> users_impl \<Rightarrow> users_impl" where
  "remove_auth_login user_login p =
     p \<lparr>users_auth := erase_first (\<lambda>e. snd e = user_login) (users_auth p)\<rparr>"

section \<open>The handlers\<close>

definition users_add :: "'db ext \<Rightarrow> body \<Rightarrow> ('db, users_impl, unit) act" where
  "users_add X b =
     bindA (lift (body_task b)) (\<lambda>t.
     bindA (lift (param as_string ''login'' t)) (\<lambda>login.
     bindA (lift (param as_string ''password'' t)) (\<lambda>password.
     let r = response_to t in
     answer X t
       (if login \<noteq> [] \<and> password \<noteq> [] then
          caught X r
            (thenA (sql_exec X ''insert into users (login,password) values (?,?);'' [login, password])
            (ret (success (JBool True) r)))
        else ret (fail ''login or password empty'' r)))))"

definition users_delete :: "'db ext \<Rightarrow> body \<Rightarrow> ('db, users_impl, unit) act" where
  "users_delete X b =
     bindA (lift (body_task b)) (\<lambda>t.
     bindA (lift (param as_string ''login'' t)) (\<lambda>login.
     let r = response_to t in
     answer X t
       (if login \<noteq> [] then
          caught X r
            (thenA (sql_exec X ''delete from users where login = ?;'' [login])
            (bindA get_priv (\<lambda>p.
             thenA (put_priv (remove_auth_login login p))
            (ret (success (JBool True) r)))))
        else ret (fail ''name manager empty'' r))))"

definition users_list :: "'db ext \<Rightarrow> body \<Rightarrow> ('db, users_impl, unit) act" where
  "users_list X b =
     bindA (lift (body_task b)) (\<lambda>t.
     let (profile_key, t) = storage_index ''profile.key'' t; r = response_to t in
     answer X t
       (caught X r
          (bindA (sql_each X ''select login, password from users;'' []
              (\<lambda>row list.
                 bindE (col_string 0 row) (\<lambda>login.
                 bindE (col_string 1 row) (\<lambda>password.
                 let user_key = login @ ''.'' @ password; admin_user = (profile_key = user_key) in
                 Inr (list @ [JMap (make_map [(''login'', JStr login), (''admin'', JBool admin_user)])]))))
              [])
          (\<lambda>list. ret (success (JArr list) r)))))"

text \<open>The row of a login; without a row both columns stay empty.\<close>

definition select_user :: "'db ext \<Rightarrow> string \<Rightarrow> ('db, users_impl, string \<times> string) act" where
  "select_user X login =
     sql_each X ''select login, password from users where login = ? limit 1;'' [login]
       (\<lambda>row _.
          bindE (col_ptr 0 row) (\<lambda>login_p.
          bindE (col_ptr 1 row) (\<lambda>password_p.
          Inr (case_option [] id login_p, case_option [] id password_p))))
       ([], [])"

definition users_login :: "'db ext \<Rightarrow> body \<Rightarrow> ('db, users_impl, unit) act" where
  "users_login X b =
     bindA (lift (body_task b)) (\<lambda>t.
     bindA (lift (param as_string ''login'' t)) (\<lambda>login_param.
     bindA (lift (param as_string ''password'' t)) (\<lambda>password_param.
     let (profile_key, t) = storage_index ''profile.key'' t; r = response_to t in
     answer X t
       (if login_param \<noteq> [] \<and> password_param \<noteq> [] then
          caught X r
            (bindA (select_user X login_param) (\<lambda>(login, password).
             let user_key = login_param @ ''.'' @ password_param;
                 admin_user = (profile_key = user_key)
             in ret
               (if password_param = password \<or> admin_user then
                  success (JMap (make_map
                    [(''key'', JStr user_key), (''login'', JStr login_param), (''admin'', JBool admin_user)])) r
                else fail ''login or password is incorrect'' r)))
        else ret (fail ''login or password empty'' r)))))"

text \<open>
  The check of a key before a task is handed to the service it asks for. What throws
  inside the \<open>try\<close> block, the sends included, is answered with an error.
\<close>

definition users_auth_handler :: "'db ext \<Rightarrow> body \<Rightarrow> ('db, users_impl, unit) act" where
  "users_auth_handler X b =
     bindA (lift (body_task b)) (\<lambda>t.
     bindA (lift (metadata_string ''user-key'' t)) (\<lambda>user_key.
     let (profile_key, t) = storage_index ''profile.key'' t;
         admin_user = (profile_key = user_key);
         t = storage_set ''user.admin'' (bool_digit admin_user) t;
         user = x_split X user_key ''.''
     in
     bindA get_priv (\<lambda>p.
     if is_auth user_key p \<or> admin_user then
       bindA (lift (vec_at user 0)) (\<lambda>user0.
       send X ''router'' ''service'' (B_task (storage_emplace ''user.login'' user0 t)))
     else
       tryA
         (bindA (lift (vec_at user 0)) (\<lambda>user0.
          bindA (select_user X user0) (\<lambda>(login, password).
          bindA (lift (vec_at user 1)) (\<lambda>user1.
          if user1 = password then
            bindA get_priv (\<lambda>p.
            thenA (put_priv (add_auth user_key login p))
            (send X ''router'' ''service'' (B_task (storage_emplace ''user.login'' user0 t))))
          else reply_error X t ''authentication bad''))))
         (\<lambda>e. reply_error X t (x_what X e)))))"

definition users_startup :: "'db ext \<Rightarrow> ('db, users_impl, unit) act" where
  "users_startup X =
     thenA (sql_exec X
       ''create table if not exists users (   login text primary key not null,   password text not null);'' [])
     (put_priv \<lparr>users_auth = []\<rparr>)"

definition users_commands :: "string list" where
  "users_commands = [''add'', ''delete'', ''list'', ''login'', ''auth'']"

definition users_handle :: "'db ext \<Rightarrow> string \<Rightarrow> body \<Rightarrow> ('db, users_impl, unit) act" where
  "users_handle X command b =
     (if command = ''add'' then users_add X b
      else if command = ''delete'' then users_delete X b
      else if command = ''list'' then users_list X b
      else if command = ''login'' then users_login X b
      else if command = ''auth'' then users_auth_handler X b
      else skipA)"

section \<open>Answers\<close>

text \<open>
  Each of the account operations that returns has sent exactly one message, a reply that
  the web socket provider writes to the transport of the requester, with the id of the
  request; whatever the database did.
\<close>

lemma users_answer_once:
  assumes "command \<in> {''add'', ''delete'', ''list'', ''login''}"
    "users_handle X command (B_task t) w = (Inr (), w')"
  shows "\<exists>s. is_reply_to (req_id (tk_request t)) (tk_transport t) s \<and> w_sent w' = w_sent w @ [s]"
proof -
  have "sends_one (is_reply_to (req_id (tk_request t)) (tk_transport t)) (users_handle X command (B_task t))"
    using assms(1)
    by (elim insertE emptyE)
      (auto simp: users_handle_def users_add_def users_delete_def users_list_def users_login_def
        select_user_def case_prod_beta Let_def is_reply_to_def
        intro!: sends_one_rules quiet_rules returns_rules)
  from sends_oneD [OF this assms(2)] show ?thesis .
qed

section \<open>Authentication\<close>

text \<open>
  What the database says of a login, in terms of the answer to the query of the accounts: the
  second column of the last row is the password (a null is empty), or there is no row.
\<close>

definition account_password :: "'db ext \<Rightarrow> string \<Rightarrow> string \<Rightarrow> ('db, users_impl) world \<Rightarrow> bool" where
  "account_password X login password w \<longleftrightarrow>
     (case x_sql X ''select login, password from users where login = ? limit 1;'' [login] (w_db w) of
        (rows, err, _) \<Rightarrow> err = None \<and> rows \<noteq> [] \<and> length (last rows) > 1
          \<and> (case text_of (last rows ! 1) of Some s \<Rightarrow> password = s | None \<Rightarrow> password = []))"

definition no_account :: "'db ext \<Rightarrow> string \<Rightarrow> ('db, users_impl) world \<Rightarrow> bool" where
  "no_account X login w \<longleftrightarrow>
     (case x_sql X ''select login, password from users where login = ? limit 1;'' [login] (w_db w) of
        (rows, err, _) \<Rightarrow> err = None \<and> rows = [])"

text \<open>
  A key is proved when it is the key of the manager, a login with the password of its account,
  or a login that has no account with the empty password, which the check lets pass as well
  (see \<open>auth_unknown_login\<close>).
\<close>

definition key_proved :: "'db ext \<Rightarrow> string \<Rightarrow> string \<Rightarrow> ('db, users_impl) world \<Rightarrow> bool" where
  "key_proved X profile_key key w \<longleftrightarrow>
     key = profile_key \<or>
     (case x_split X key ''.'' of
        login # password # _ \<Rightarrow> account_password X login password w \<or> (no_account X login w \<and> password = [])
      | _ \<Rightarrow> False)"

definition key_accepted :: "'db ext \<Rightarrow> string \<Rightarrow> string \<Rightarrow> ('db, users_impl) world \<Rightarrow> bool" where
  "key_accepted X profile_key key w \<longleftrightarrow> is_auth key (w_priv w) \<or> key_proved X profile_key key w"

text \<open>The task as the check hands it on.\<close>

definition checked_task :: "string \<Rightarrow> string \<Rightarrow> task \<Rightarrow> task" where
  "checked_task key login t =
     (let (profile_key, t) = storage_index ''profile.key'' t
      in storage_emplace ''user.login'' login (storage_set ''user.admin'' (bool_digit (profile_key = key)) t))"

lemma vec_at_0: "vec_at xs 0 = Inr x \<longleftrightarrow> (\<exists>ys. xs = x # ys)"
  by (cases xs) (auto simp: vec_at_def)

lemma vec_at_1: "vec_at xs (Suc 0) = Inr x \<longleftrightarrow> (\<exists>y ys. xs = y # x # ys)"
  by (cases xs; cases "tl xs") (auto simp: vec_at_def)

lemma select_user_frame: "w_sent (snd (select_user X l w)) = w_sent w \<and> w_priv (snd (select_user X l w)) = w_priv w"
  by (simp add: select_user_def sql_each_def split: prod.split)

lemma reply_error_sent:
  "snd (reply_error X t text w) = w \<or>
   (\<exists>r. snd (reply_error X t text w) = w \<lparr>w_sent := w_sent w @ [reply_message (tk_transport t) r]\<rparr>)"
  by (auto simp: reply_error_def respond_def write_ws_def send_def reply_message_def split: option.splits)

text \<open>The three ways the check ends, when the key is a string.\<close>

lemma auth_cases:
  assumes key: "metadata_string ''user-key'' t = Inr key"
    and prof: "storage_index ''profile.key'' t = (profile_key, t')"
  defines "u \<equiv> storage_set ''user.admin'' (bool_digit (profile_key = key)) t'"
  shows "users_auth_handler X (B_task t) w =
     (if is_auth key (w_priv w) \<or> profile_key = key then
        (case x_split X key ''.'' of
           [] \<Rightarrow> (Inl Undefined, w)
         | user0 # _ \<Rightarrow> send X ''router'' ''service'' (B_task (storage_emplace ''user.login'' user0 u)) w)
      else
        (case x_split X key ''.'' of
           [] \<Rightarrow> (Inl Undefined, w)
         | user0 # user \<Rightarrow>
             (case select_user X user0 w of
                (Inl e, w1) \<Rightarrow> if catchable e then reply_error X u (x_what X e) w1 else (Inl e, w1)
              | (Inr (login, password), w1) \<Rightarrow>
                  (case user of
                     [] \<Rightarrow> (Inl Undefined, w1)
                   | user1 # _ \<Rightarrow>
                       tryA
                         (if user1 = password then
                            thenA (put_priv (add_auth key login (w_priv w)))
                              (send X ''router'' ''service'' (B_task (storage_emplace ''user.login'' user0 u)))
                          else reply_error X u ''authentication bad'')
                         (\<lambda>e. reply_error X u (x_what X e)) w1))))"
proof -
  have priv: "w_priv w1 = w_priv w" if "select_user X user0 w = (r, w1)" for user0 r w1
    using select_user_frame [of X user0 w] that by simp
  define m where "m = bindA (lift (vec_at (x_split X key ''.'') 0)) (\<lambda>user0.
      bindA (select_user X user0) (\<lambda>(login, password).
      bindA (lift (vec_at (x_split X key ''.'') 1)) (\<lambda>user1.
      if user1 = password then
        bindA get_priv (\<lambda>p.
        thenA (put_priv (add_auth key login p))
        (send X ''router'' ''service'' (B_task (storage_emplace ''user.login'' user0 u))))
      else reply_error X u ''authentication bad'')))"
  have run: "users_auth_handler X (B_task t) w =
      (if is_auth key (w_priv w) \<or> profile_key = key then
        bindA (lift (vec_at (x_split X key ''.'') 0)) (\<lambda>user0.
          send X ''router'' ''service'' (B_task (storage_emplace ''user.login'' user0 u))) w
       else tryA m (\<lambda>e. reply_error X u (x_what X e)) w)"
    unfolding m_def u_def using key prof by (simp add: users_auth_handler_def Let_def)
  show ?thesis
  proof (cases "is_auth key (w_priv w) \<or> profile_key = key")
    case True
    then show ?thesis by (simp add: run vec_at_def split: list.split)
  next
    case False
    show ?thesis
    proof (cases "x_split X key ''.''")
      case Nil
      then have "m w = (Inl Undefined, w)" by (simp add: m_def vec_at_def)
      with Nil False show ?thesis by (simp add: run)
    next
      case (Cons user0 user)
      obtain r w1 where sel: "select_user X user0 w = (r, w1)" by fastforce
      show ?thesis
      proof (cases r)
        case (Inl e)
        then have "m w = (Inl e, w1)" by (simp add: m_def vec_at_def Cons sel)
        with Cons False Inl sel show ?thesis by (simp add: run)
      next
        case (Inr lp)
        obtain login password where lp: "lp = (login, password)" by fastforce
        show ?thesis
        proof (cases user)
          case Nil
          then have "m w = (Inl Undefined, w1)" by (simp add: m_def vec_at_def Cons sel Inr lp)
          with Nil Cons False Inr sel lp show ?thesis by (simp add: run)
        next
          case (Cons user1 us)
          define n where "n = (if user1 = password then
              thenA (put_priv (add_auth key login (w_priv w)))
                (send X ''router'' ''service'' (B_task (storage_emplace ''user.login'' user0 u)))
            else reply_error X u ''authentication bad'')"
          have "m w = n w1"
            using priv [OF sel]
            by (simp add: m_def n_def vec_at_def \<open>x_split X key ''.'' = user0 # user\<close> Cons sel Inr lp)
          then have "tryA m h w = tryA n h w1" for h by (simp add: tryA_def)
          then show ?thesis
            using False \<open>x_split X key ''.'' = user0 # user\<close> Cons Inr sel lp by (simp add: run n_def)
        qed
      qed
    qed
  qed
qed

lemma fold_rows_last:
  "fold_rows (\<lambda>row _. f row) rows b = Inr x \<Longrightarrow> if rows = [] then x = b else f (last rows) = Inr x"
proof (induction rows arbitrary: b)
  case (Cons r rs)
  then obtain y where y: "f r = Inr y" "fold_rows (\<lambda>row _. f row) rs y = Inr x" by (auto simp: bindE_Inr_iff)
  with Cons.IH [OF y(2)] show ?case by (auto split: if_splits)
qed simp

text \<open>What the check reads is what the database says.\<close>

lemma select_user_says:
  assumes "select_user X login w = (Inr (l, password), w1)"
  shows "account_password X login password w \<or> (no_account X login w \<and> password = [])"
proof -
  obtain rows err db where sql: "x_sql X ''select login, password from users where login = ? limit 1;'' [login] (w_db w) = (rows, err, db)"
    by (metis prod_cases3)
  from assms have rows: "err = None" "fold_rows (\<lambda>row _. bindE (col_ptr 0 row) (\<lambda>login_p. bindE (col_ptr 1 row) (\<lambda>password_p.
      Inr (case_option [] id login_p, case_option [] id password_p)))) rows ([], []) = Inr (l, password)"
    by (auto simp: select_user_def sql_each_def sql bindE_Inr_iff split: option.splits)
  from fold_rows_last [OF rows(2)] rows(1) show ?thesis
    by (auto simp: account_password_def no_account_def sql col_ptr_def bindE_Inr_iff split: if_splits option.splits)
qed

lemma metadata_string_Inl: "metadata_string ''user-key'' t = Inl e \<Longrightarrow> users_auth_handler X (B_task t) w = (Inl e, w)"
  by (simp add: users_auth_handler_def)

text \<open>Messages to others than the provider of web sockets.\<close>

definition foreign :: "sent list \<Rightarrow> sent list" where
  "foreign ms = filter (\<lambda>s. fst s \<noteq> ''ws'') ms"

lemma foreign_append [simp]: "foreign (xs @ ys) = foreign xs @ foreign ys"
  by (simp add: foreign_def)

lemma foreign_one [simp]: "foreign [(d, c, b)] = (if d = ''ws'' then [] else [(d, c, b)])"
  by (simp add: foreign_def)

lemma foreign_reply_error: "foreign (w_sent (snd (reply_error X t text w))) = foreign (w_sent w)"
  using reply_error_sent [of X t "text" w] by (auto simp: foreign_def reply_message_def)

lemma foreign_send: "foreign (w_sent (snd (send X dest c b w))) =
    foreign (w_sent w) @ (if x_contacts X dest = None \<or> dest = ''ws'' then [] else [(dest, c, b)])"
  by (auto simp: send_def foreign_def split: option.splits)

lemma tryA_foreign:
  assumes "\<And>e w. foreign (w_sent (snd (h e w))) = foreign (w_sent w)"
  shows "foreign (w_sent (snd (tryA m h w))) = foreign (w_sent (snd (m w)))"
proof -
  obtain r w' where "m w = (r, w')" by fastforce
  then show ?thesis using assms by (cases r) simp_all
qed

lemma auth_hands_on:
  assumes "users_handle X ''auth'' (B_task t) w = (res, w')"
    "foreign (w_sent w') \<noteq> foreign (w_sent w)"
  shows "\<exists>key login rest. metadata_string ''user-key'' t = Inr key
    \<and> x_split X key ''.'' = login # rest
    \<and> key_accepted X (fst (storage_index ''profile.key'' t)) key w
    \<and> foreign (w_sent w') = foreign (w_sent w) @ [(''router'', ''service'', B_task (checked_task key login t))]"
proof -
  have run: "users_auth_handler X (B_task t) w = (res, w')" using assms(1) by (simp add: users_handle_def)
  obtain key where key: "metadata_string ''user-key'' t = Inr key"
    using assms(2) run metadata_string_Inl [of t _ X w] by (cases "metadata_string ''user-key'' t") auto
  obtain profile_key t' where prof: "storage_index ''profile.key'' t = (profile_key, t')" by fastforce
  define u where "u = storage_set ''user.admin'' (bool_digit (profile_key = key)) t'"
  have checked: "checked_task key login t = storage_emplace ''user.login'' login u" for login
    by (simp add: checked_task_def prof u_def)
  note cases = auth_cases [OF key prof, of X w, folded u_def, unfolded run]
  obtain user0 user where split: "x_split X key ''.'' = user0 # user"
    using cases assms(2) by (cases "x_split X key ''.''") (auto split: if_splits)
  note cases = cases [unfolded split list.case]
  have "key_accepted X profile_key key w \<and>
      foreign (w_sent w') = foreign (w_sent w) @ [(''router'', ''service'', B_task (checked_task key user0 t))]"
  proof (cases "is_auth key (w_priv w) \<or> profile_key = key")
    case True
    then have "(res, w') = send X ''router'' ''service'' (B_task (storage_emplace ''user.login'' user0 u)) w"
      using cases by simp
    then have "w' = snd (send X ''router'' ''service'' (B_task (storage_emplace ''user.login'' user0 u)) w)"
      by (metis snd_conv)
    then show ?thesis
      using assms(2) True by (auto simp: foreign_send checked key_accepted_def key_proved_def split: if_splits)
  next
    case False
    obtain r w1 where sel: "select_user X user0 w = (r, w1)" by fastforce
    have sent: "w_sent w1 = w_sent w" using select_user_frame [of X user0 w] by (simp add: sel)
    show ?thesis
    proof (cases r)
      case (Inl e)
      then have "(res, w') = (if catchable e then reply_error X u (x_what X e) w1 else (Inl e, w1))"
        using cases False sel by simp
      then have "w' = w1 \<or> w' = snd (reply_error X u (x_what X e) w1)"
        by (metis snd_conv)
      then show ?thesis using assms(2) sent by (auto simp: foreign_reply_error)
    next
      case (Inr lp)
      obtain login password where lp: "lp = (login, password)" by fastforce
      show ?thesis
      proof (cases user)
        case Nil
        then show ?thesis using cases False sel Inr lp sent assms(2) by simp
      next
        case (Cons user1 us)
        define m where "m = (if user1 = password then
            thenA (put_priv (add_auth key login (w_priv w)))
              (send X ''router'' ''service'' (B_task (storage_emplace ''user.login'' user0 u)))
          else reply_error X u ''authentication bad'')"
        have "(res, w') = tryA m (\<lambda>e. reply_error X u (x_what X e)) w1"
          using cases False sel Inr lp Cons by (simp add: m_def)
        then have out: "foreign (w_sent w') = foreign (w_sent (snd (m w1)))"
          using tryA_foreign [of "\<lambda>e. reply_error X u (x_what X e)" m w1] foreign_reply_error
          by (metis snd_conv)
        show ?thesis
        proof (cases "user1 = password")
          case True
          then have "foreign (w_sent w') = foreign (w_sent (snd (send X ''router'' ''service''
              (B_task (storage_emplace ''user.login'' user0 u)) (w1 \<lparr>w_priv := add_auth key login (w_priv w)\<rparr>))))"
            using out by (simp add: m_def)
          moreover have "account_password X user0 user1 w \<or> (no_account X user0 w \<and> user1 = [])"
            using select_user_says [of X user0 w login password w1] sel Inr lp True by simp
          ultimately show ?thesis
            using assms(2) sent by (cases "x_contacts X ''router''") (auto simp: foreign_send checked key_accepted_def key_proved_def split Cons)
        next
          case False
          then show ?thesis
            using out assms(2) sent by (simp add: m_def foreign_reply_error)
        qed
      qed
    qed
  qed
  then show ?thesis using key prof split by auto
qed

text \<open>
  C6: the authentication gate. Whatever the task and the database, the only message the
  check hands on is the task itself, to the \<open>service\<close> handler of the router, and only when
  the key is in the cache, is the key of the manager, or is a login and a password for which
  the database answers the query of the accounts with that password in the row, or, the gap of
  the check, with no row and the password empty; the task then carries the login of the key
  and whether it is the key of the manager.
\<close>

theorem auth_gate:
  assumes "users_handle X ''auth'' (B_task t) w = (res, w')"
    "foreign (w_sent w') \<noteq> foreign (w_sent w)"
  shows "\<exists>key login rest. metadata_string ''user-key'' t = Inr key
    \<and> x_split X key ''.'' = login # rest
    \<and> key_accepted X (fst (storage_index ''profile.key'' t)) key w
    \<and> foreign (w_sent w') = foreign (w_sent w) @ [(''router'', ''service'', B_task (checked_task key login t))]"
  using assms by (rule auth_hands_on)

definition demo_users :: "(string list \<Rightarrow> sql_row list, users_impl) world" where
  "demo_users =
     \<lparr>w_db = (\<lambda>args. if args = [''bob''] then [[Sql_text ''bob'', Sql_text ''pw'']] else []),
      w_priv = \<lparr>users_auth = []\<rparr>, w_sent = []\<rparr>"

definition demo_key_task :: "string \<Rightarrow> task" where
  "demo_key_task key = demo_task [(''user-key'', JStr key)] JNull [(''profile.key'', ''admin.x'')]"

lemma users_answer_once_witness:
  "\<exists>s. is_reply_to (req_id (tk_request (demo_key_task ''bob.pw''))) (tk_transport (demo_key_task ''bob.pw'')) s
     \<and> w_sent (snd (users_handle demo_ext ''list'' (B_task (demo_key_task ''bob.pw'')) demo_users))
       = w_sent demo_users @ [s]"
proof (rule users_answer_once)
  have "fst (users_handle demo_ext ''list'' (B_task (demo_key_task ''bob.pw'')) demo_users) = Inr ()"
    by code_simp
  then show "users_handle demo_ext ''list'' (B_task (demo_key_task ''bob.pw'')) demo_users =
      (Inr (), snd (users_handle demo_ext ''list'' (B_task (demo_key_task ''bob.pw'')) demo_users))"
    by (simp add: prod_eq_iff)
qed simp

lemma foreign_not_Nil: "map fst ms = [d] \<Longrightarrow> d \<noteq> ''ws'' \<Longrightarrow> foreign ms \<noteq> []"
  by (auto simp: foreign_def map_eq_Cons_conv)

lemma foreign_demo: "foreign (w_sent demo_users) = []"
  by (simp add: demo_users_def foreign_def)

lemma auth_gate_witness:
  "\<exists>key login rest. metadata_string ''user-key'' (demo_key_task ''bob.pw'') = Inr key
    \<and> x_split demo_ext key ''.'' = login # rest
    \<and> key_accepted demo_ext (fst (storage_index ''profile.key'' (demo_key_task ''bob.pw''))) key demo_users
    \<and> foreign (w_sent (snd (users_handle demo_ext ''auth'' (B_task (demo_key_task ''bob.pw'')) demo_users)))
      = foreign (w_sent demo_users) @ [(''router'', ''service'', B_task (checked_task key login (demo_key_task ''bob.pw'')))]"
proof (rule auth_gate)
  have key: "metadata_string ''user-key'' (demo_key_task ''bob.pw'') = Inr ''bob.pw''"
    and prof: "storage_index ''profile.key'' (demo_key_task ''bob.pw'') = (''admin.x'', demo_key_task ''bob.pw'')"
    by (simp_all add: demo_key_task_def demo_task_def metadata_string_def map_index_def om_find_Cons
        storage_index_def um_find_Cons)
  have split: "x_split demo_ext ''bob.pw'' ''.'' = [''bob'', ''pw'']" "x_contacts demo_ext ''router'' = Some [''list'']"
    by code_simp+
  have sel: "select_user demo_ext ''bob'' demo_users = (Inr (''bob'', ''pw''), demo_users)"
    by (simp add: select_user_def sql_each_def demo_ext_def demo_users_def col_ptr_def)
  have "map fst (w_sent (snd (users_handle demo_ext ''auth'' (B_task (demo_key_task ''bob.pw'')) demo_users)))
      = [''router'']"
    by (simp add: users_handle_def auth_cases [OF key prof] split sel) (simp add: demo_users_def is_auth_def)
  then show "foreign (w_sent (snd (users_handle demo_ext ''auth'' (B_task (demo_key_task ''bob.pw'')) demo_users)))
      \<noteq> foreign (w_sent demo_users)"
    unfolding foreign_demo by (rule foreign_not_Nil) simp
qed (rule prod.collapse [symmetric])

text \<open>
  C35: a key whose login no account has is accepted when its password is empty: with the
  separator of the library call and no row for the login, a task with the key
  \<open>login.\<close> reaches the router as an authenticated task of that login.
\<close>

theorem auth_unknown_login:
  assumes "x_split X (login @ ''.'') ''.'' = [login, []]"
    "x_sql X ''select login, password from users where login = ? limit 1;'' [login] (w_db w) = ([], None, db)"
    "metadata_string ''user-key'' t = Inr (login @ ''.'')"
    "x_contacts X ''router'' = Some types"
  shows "fst (users_handle X ''auth'' (B_task t) w) = Inr ()
    \<and> w_sent (snd (users_handle X ''auth'' (B_task t) w))
      = w_sent w @ [(''router'', ''service'', B_task (checked_task (login @ ''.'') login t))]"
proof -
  obtain profile_key t' where prof: "storage_index ''profile.key'' t = (profile_key, t')" by fastforce
  have sel: "select_user X login w = (Inr ([], []), w \<lparr>w_db := db\<rparr>)"
    by (simp add: select_user_def sql_each_def assms(2))
  show ?thesis
    by (simp add: users_handle_def auth_cases [OF assms(3) prof] assms(1,4) sel checked_task_def prof)
qed

lemma auth_unknown_login_witness:
  "fst (users_handle demo_ext ''auth'' (B_task (demo_key_task ''nobody.'')) demo_users) = Inr ()
    \<and> w_sent (snd (users_handle demo_ext ''auth'' (B_task (demo_key_task ''nobody.'')) demo_users))
      = w_sent demo_users @ [(''router'', ''service'',
          B_task (checked_task (''nobody'' @ ''.'') ''nobody'' (demo_key_task ''nobody.'')))]"
proof (rule auth_unknown_login)
  show "x_split demo_ext (''nobody'' @ ''.'') ''.'' = [''nobody'', []]"
    "metadata_string ''user-key'' (demo_key_task ''nobody.'') = Inr (''nobody'' @ ''.'')"
    "x_contacts demo_ext ''router'' = Some [''list'']"
    by code_simp+
  show "x_sql demo_ext ''select login, password from users where login = ? limit 1;'' [''nobody''] (w_db demo_users)
      = ([], None, w_db demo_users)"
    by (simp add: demo_ext_def demo_users_def)
qed

section \<open>Revocation\<close>

definition cached_keys :: "string \<Rightarrow> users_impl \<Rightarrow> nat" where
  "cached_keys login p = length (filter (\<lambda>e. snd e = login) (users_auth p))"

lemma erase_first_count:
  "length (filter P (erase_first P xs)) = length (filter P xs) - 1"
  by (induction xs) auto

text \<open>
  Deleting an account revokes one cached key of its login, not all of them: when the
  statement succeeds, the number of cached keys drops by exactly one, so an account that
  was used with two keys stays authenticated after it was deleted.
\<close>

lemma delete_revokes_one_key:
  assumes "users_handle X ''delete'' (B_task t) w = (Inr (), w')"
    "param as_string ''login'' t = Inr login" "login \<noteq> []"
    "x_sql X ''delete from users where login = ?;'' [login] (w_db w) = (rows, None, db)"
  shows "cached_keys login (w_priv w') = cached_keys login (w_priv w) - 1"
proof -
  have "w_priv w' = remove_auth_login login (w_priv w)"
    using assms
    by (auto simp: users_handle_def users_delete_def Let_def answer_def caught_def sql_exec_def
        respond_def write_ws_def send_def split: option.splits)
  then show ?thesis by (simp add: cached_keys_def remove_auth_login_def erase_first_count)
qed

definition demo_two_keys :: "(string list \<Rightarrow> sql_row list, users_impl) world" where
  "demo_two_keys = demo_users \<lparr>w_priv := \<lparr>users_auth = [(''bob.pw.x'', ''bob''), (''bob.pw'', ''bob'')]\<rparr>\<rparr>"

lemma delete_revokes_one_key_witness:
  "cached_keys ''bob'' (w_priv (snd (users_handle demo_ext ''delete''
      (B_task (demo_task [] (JMap [(''login'', JStr ''bob'')]) [])) demo_two_keys)))
    = cached_keys ''bob'' (w_priv demo_two_keys) - 1 \<and> cached_keys ''bob'' (w_priv demo_two_keys) = 2"
proof
  have "fst (users_handle demo_ext ''delete'' (B_task (demo_task [] (JMap [(''login'', JStr ''bob'')]) [])) demo_two_keys) = Inr ()"
    by code_simp
  then have run: "users_handle demo_ext ''delete'' (B_task (demo_task [] (JMap [(''login'', JStr ''bob'')]) [])) demo_two_keys
      = (Inr (), snd (users_handle demo_ext ''delete''
          (B_task (demo_task [] (JMap [(''login'', JStr ''bob'')]) [])) demo_two_keys))"
    by (simp add: prod_eq_iff)
  show "cached_keys ''bob'' (w_priv (snd (users_handle demo_ext ''delete''
      (B_task (demo_task [] (JMap [(''login'', JStr ''bob'')]) [])) demo_two_keys)))
    = cached_keys ''bob'' (w_priv demo_two_keys) - 1"
    by (rule delete_revokes_one_key [OF run])
      (simp_all add: param_def value_index_def map_index_def om_find_Cons demo_task_def demo_ext_def demo_two_keys_def
        demo_users_def)
  show "cached_keys ''bob'' (w_priv demo_two_keys) = 2" by code_simp
qed

section \<open>The cache is a function\<close>

definition users_inv :: "users_impl \<Rightarrow> bool" where
  "users_inv p \<longleftrightarrow> um_inv (users_auth p)"

lemma erase_first_sub: "set (map fst (erase_first P xs)) \<subseteq> set (map fst xs)"
  by (induction xs) auto

lemma um_inv_erase_first: "um_inv m \<Longrightarrow> um_inv (erase_first P m)"
  unfolding um_inv_def
proof (induction m)
  case (Cons x m)
  then show ?case using erase_first_sub [of P m] by auto
qed simp

lemma users_inv_step:
  "users_inv p \<Longrightarrow> users_inv (add_auth k l p)" "users_inv p \<Longrightarrow> users_inv (remove_auth_login l p)"
  by (simp_all add: users_inv_def add_auth_def remove_auth_login_def um_inv_emplace um_inv_erase_first)

interpretation users_service: service users_handle users_inv
  by unfold_locales
    (unfold users_handle_def users_add_def users_delete_def users_list_def users_login_def
      users_auth_handler_def select_user_def Let_def,
     (rule spec_any_rules TrueI users_inv_step | assumption)+)

end
