(* ===== verification/Router.thy ===== *)
theory Router
  imports Service
begin

text \<open>
  \<open>stream-manager/src/router.cpp\<close>: the entry point of a manager. \<open>dispatcher\<close> receives the
  frames of the web socket provider, \<open>service\<close> the tasks that passed authentication and
  \<open>error\<close> the errors of connections. The private state is constant after \<open>startup\<close>.
\<close>

record router_impl =
  profile_key :: string
  manager_key :: string

definition get_service_list :: "string list" where
  "get_service_list = [''users'', ''devices'', ''groups'', ''subscriptions'', ''connections'', ''devices'']"

definition get_quest_method_list :: "string list" where
  "get_quest_method_list = [''users.login'', ''manager.info'']"

definition get_user_method_list :: "string list" where
  "get_user_method_list =
     [''devices.list'', ''devices.control'', ''devices.detail'', ''devices.subscribe'',
      ''subscriptions.devices'', ''devices.unsubscribe'', ''connections.subscribe'',
      ''connections.unsubscribe'']"

text \<open>The task of a request that came over a connection.\<close>

definition new_task :: "string \<Rightarrow> request_message \<Rightarrow> task" where
  "new_task transport r = \<lparr>tk_request = r, tk_transport = transport, tk_storage = []\<rparr>"

definition dispatch_request :: "'db ext \<Rightarrow> string \<Rightarrow> json_map \<Rightarrow> ('db, router_impl, unit) act" where
  "dispatch_request X transport message =
     bindA (lift (fst (parse_request message))) (\<lambda>r.
     let t = new_task transport r; dispatcher = x_split X (req_method r) ''.'' in
     if length dispatcher > 1 then
       bindA get_priv (\<lambda>p.
       let service_name = dispatcher ! 0;
           method_name = dispatcher ! 1;
           t = storage_emplace ''service.name'' service_name t;
           t = storage_emplace ''service.method'' method_name t;
           t = storage_emplace ''profile.key'' (profile_key p) t
       in if contains (req_metadata r) ''user-key'' then send X ''users'' ''auth'' (B_task t)
          else if req_method r \<in> set get_quest_method_list then send X service_name method_name (B_task t)
          else reply_error X t ''access is denied'')
     else reply_error X t ''not specified correctly method'')"

definition router_dispatcher :: "'db ext \<Rightarrow> body \<Rightarrow> ('db, router_impl, unit) act" where
  "router_dispatcher X b =
     bindA (lift (body_transport b)) (\<lambda>transport.
     if tr_type transport = Ws then
       bindA (lift (as_ws transport)) (\<lambda>(ident, text).
       bindA (read_message X text) (\<lambda>message.
       if is_request message then dispatch_request X ident message
       else if is_response message then
         send X ''devices'' ''response'' (B_transport (T_ws ident (to_string message)))
       else if is_notify message then
         send X ''devices'' ''notify'' (B_transport (T_ws ident (to_string message)))
       else skipA))
     else skipA)"

definition router_service :: "'db ext \<Rightarrow> body \<Rightarrow> ('db, router_impl, unit) act" where
  "router_service X b =
     bindA (lift (body_task b)) (\<lambda>t.
     let (service_name, t) = storage_index ''service.name'' t;
         (method_name, t) = storage_index ''service.method'' t
     in if service_name \<in> set get_service_list then
          (case x_contacts X service_name of
             None \<Rightarrow> lift (Inl Out_of_range)
           | Some message_types \<Rightarrow>
               if method_name \<in> set message_types then
                 (let (admin, t) = storage_index ''user.admin'' t in
                  if admin = ''1'' then send X service_name method_name (B_task t)
                  else if req_method (tk_request t) \<in> set get_user_method_list
                  then send X service_name method_name (B_task t)
                  else reply_error X t ''permission denied'')
               else reply_error X t ''method not found'')
        else reply_error X t ''service not found'')"

definition router_error :: "'db ext \<Rightarrow> body \<Rightarrow> ('db, router_impl, unit) act" where
  "router_error X b =
     bindA (lift (body_transport b)) (\<lambda>transport.
     if tr_type transport = Ws then
       bindA (lift (as_error transport)) (\<lambda>(ident, code).
       if code = Connection_reset \<or> code = Not_connected \<or> code = Ws_closed
       then send X ''ws'' ''remove'' (B_transport (T_ws ident []))
       else send X ''ws'' ''close'' (B_transport (T_ws ident [])))
     else skipA)"

definition router_startup :: "json_map \<Rightarrow> ('db, router_impl, unit) act" where
  "router_startup config =
     bindA (lift (as_string (fst (map_index ''profile-key'' config)))) (\<lambda>profile.
     bindA (lift (as_string (fst (map_index ''manager-key'' config)))) (\<lambda>manager.
     put_priv \<lparr>profile_key = profile, manager_key = manager\<rparr>))"

definition router_handle :: "'db ext \<Rightarrow> string \<Rightarrow> body \<Rightarrow> ('db, router_impl, unit) act" where
  "router_handle X command b =
     (if command = ''dispatcher'' then router_dispatcher X b
      else if command = ''service'' then router_service X b
      else if command = ''error'' then router_error X b
      else skipA)"

section \<open>Every frame is answered or handed on\<close>

definition dispatched :: "'db ext \<Rightarrow> string \<Rightarrow> sent \<Rightarrow> bool" where
  "dispatched X ident s \<longleftrightarrow>
     (\<exists>r. fst (snd s) = ''write'' \<and> s = reply_message ident r) \<or>
     (\<exists>text. s = (''devices'', ''response'', B_transport (T_ws ident text))) \<or>
     (\<exists>text. s = (''devices'', ''notify'', B_transport (T_ws ident text))) \<or>
     (\<exists>t. s = (''users'', ''auth'', B_task t) \<and> tk_transport t = ident
        \<and> contains (req_metadata (tk_request t)) ''user-key'') \<or>
     (\<exists>t service method rest. s = (service, method, B_task t) \<and> tk_transport t = ident
        \<and> \<not> contains (req_metadata (tk_request t)) ''user-key''
        \<and> req_method (tk_request t) \<in> {''users.login'', ''manager.info''}
        \<and> x_split X (req_method (tk_request t)) ''.'' = service # method # rest)"

lemma split_parts: "length xs > 1 \<Longrightarrow> \<exists>rest. xs = xs ! 0 # xs ! 1 # rest"
  by (cases xs; cases "tl xs") auto

lemma sends_one_dispatch_request: "sends_one (dispatched X ident) (dispatch_request X ident message)"
proof -
  have "sends_one (dispatched X ident)
      (let t = new_task ident r; dispatcher = x_split X (req_method r) ''.'' in
       if length dispatcher > 1 then
         bindA get_priv (\<lambda>p.
         let service_name = dispatcher ! 0;
             method_name = dispatcher ! 1;
             t = storage_emplace ''service.name'' service_name t;
             t = storage_emplace ''service.method'' method_name t;
             t = storage_emplace ''profile.key'' (profile_key p) t
         in if contains (req_metadata r) ''user-key'' then send X ''users'' ''auth'' (B_task t)
            else if req_method r \<in> set get_quest_method_list then send X service_name method_name (B_task t)
            else reply_error X t ''access is denied'')
       else reply_error X t ''not specified correctly method'')" for r
    unfolding Let_def
    using split_parts [of "x_split X (req_method r) ''.''"]
    by (intro sends_one_rules quiet_rules)
      (auto simp: dispatched_def new_task_def get_quest_method_list_def reply_message_def)
  then show ?thesis
    unfolding dispatch_request_def by (rule sends_one_lift)
qed

text \<open>
  A frame of a web socket that the dispatcher accepts makes it send exactly one
  message: the task to the authentication when the request carries a key, the task to the
  service when a guest may call the method, a response or a notification of a device to
  the devices, and otherwise an error to the sender. A guest reaches no other method.
\<close>

lemma dispatcher_sends_one:
  assumes "router_handle X ''dispatcher'' (B_transport (T_ws ident text)) w = (Inr (), w')"
  shows "\<exists>s. dispatched X ident s \<and> w_sent w' = w_sent w @ [s]"
proof -
  have dispatch: "sends_one (dispatched X ident)
      (if is_request message then dispatch_request X ident message
       else if is_response message then
         send X ''devices'' ''response'' (B_transport (T_ws ident (to_string message)))
       else if is_notify message then
         send X ''devices'' ''notify'' (B_transport (T_ws ident (to_string message)))
       else skipA)" for message
    using message_kinds [of message]
    by (auto intro!: sends_one_rules sends_one_dispatch_request simp: dispatched_def)
  have "sends_one (dispatched X ident) (router_dispatcher X (B_transport (T_ws ident text)))"
    by (simp add: router_dispatcher_def read_message_def) (rule sends_one_lift, rule dispatch)
  from sends_oneD [OF this, of w "()" w'] assms show ?thesis by (simp add: router_handle_def)
qed

section \<open>The permissions of a task\<close>

text \<open>An entry of the storage of a task, as \<open>operator[]\<close> reads it.\<close>

definition stored :: "string \<Rightarrow> task \<Rightarrow> string" where
  "stored k t = (case um_find k (tk_storage t) of Some v \<Rightarrow> v | None \<Rightarrow> [])"

definition same_task :: "task \<Rightarrow> task \<Rightarrow> bool" where
  "same_task u t \<longleftrightarrow> tk_request u = tk_request t \<and> tk_transport u = tk_transport t \<and> (\<lambda>k. stored k u) = (\<lambda>k. stored k t)"

text \<open>
  The decision: the service is one of the five, it has the method, and the task bears the flag
  of the manager or its request has one of the eight methods open to users.
\<close>

definition known_service :: "task \<Rightarrow> bool" where
  "known_service t \<longleftrightarrow> stored ''service.name'' t \<in> {''users'', ''devices'', ''groups'', ''subscriptions'', ''connections''}"

definition known_method :: "'db ext \<Rightarrow> task \<Rightarrow> bool" where
  "known_method X t \<longleftrightarrow>
     (case x_contacts X (stored ''service.name'' t) of None \<Rightarrow> False | Some types \<Rightarrow> stored ''service.method'' t \<in> set types)"

definition may_call :: "task \<Rightarrow> bool" where
  "may_call t \<longleftrightarrow> stored ''user.admin'' t = ''1''
     \<or> req_method (tk_request t) \<in> {''devices.list'', ''devices.control'', ''devices.detail'', ''devices.subscribe'',
          ''subscriptions.devices'', ''devices.unsubscribe'', ''connections.subscribe'', ''connections.unsubscribe''}"

definition refusal :: "'db ext \<Rightarrow> task \<Rightarrow> string" where
  "refusal X t =
     (if \<not> known_service t then ''service not found''
      else if \<not> known_method X t then ''method not found''
      else ''permission denied'')"

lemma five_of_six: "{x1, x2, x3, x4, x5, x2} = {x1, x2, x3, x4, x5}"
  by auto

lemma storage_index_stored:
  "storage_index k t = (v, u) \<Longrightarrow> v = stored k t \<and> same_task u t"
  by (cases "um_find k (tk_storage t)") (auto simp: storage_index_def stored_def same_task_def um_find_set fun_eq_iff)

lemma same_task_trans: "same_task u t \<Longrightarrow> same_task t s \<Longrightarrow> same_task u s"
  by (simp add: same_task_def)

lemma same_task_stored: "same_task u t \<Longrightarrow> stored k u = stored k t"
  by (auto simp: same_task_def dest: fun_cong)

lemma same_task_refl: "same_task t t"
  by (simp add: same_task_def)

lemma storage_index_obtain:
  assumes "same_task u t"
  obtains u' where "storage_index k u = (stored k t, u')" "same_task u' t"
proof -
  obtain v u' where i: "storage_index k u = (v, u')" by fastforce
  from storage_index_stored [OF i] have "v = stored k t" "same_task u' t"
    using same_task_stored [OF assms, of k] same_task_trans [OF _ assms] by simp_all
  with i that show ?thesis by simp
qed

lemma reply_error_Inr:
  assumes "reply_error X u text w = (Inr (), w')" "tk_request u = tk_request t" "tk_transport u = tk_transport t"
  shows "w_sent w' = w_sent w @ [refuses t text]"
  using assms refuses_cong [of u t "text"] by (auto simp: reply_error_cases split: option.splits)

text \<open>
  C7: the permission gate. When \<open>service\<close> returns it has sent exactly one message. If the
  service named in the task is one of the five, if it has the method named there, and if the
  task bears the flag of the manager or the method of its request is one of the eight open to
  users, this is the task itself, unchanged, to that service under that method. Otherwise it
  is an error response with the id of the request and the text for the first of the three
  that fails, to the connection of the task. Nothing compares the method named in the task
  with the method of its request: both come from the dispatcher.
\<close>

theorem service_gate:
  assumes "router_handle X ''service'' (B_task t) w = (Inr (), w')"
  shows "\<exists>m. w_sent w' = w_sent w @ [m] \<and>
    (if known_service t \<and> known_method X t \<and> may_call t
     then \<exists>u. m = (stored ''service.name'' t, stored ''service.method'' t, B_task u) \<and> same_task u t
     else m = refuses t (refusal X t))"
proof -
  obtain t1 where s1: "storage_index ''service.name'' t = (stored ''service.name'' t, t1)" "same_task t1 t"
    by (rule storage_index_obtain [OF same_task_refl])
  obtain t2 where s2: "storage_index ''service.method'' t1 = (stored ''service.method'' t, t2)" "same_task t2 t"
    by (rule storage_index_obtain [OF s1(2)])
  obtain t3 where s3: "storage_index ''user.admin'' t2 = (stored ''user.admin'' t, t3)" "same_task t3 t"
    by (rule storage_index_obtain [OF s2(2)])
  have frame: "tk_request t2 = tk_request t" "tk_transport t2 = tk_transport t"
    "tk_request t3 = tk_request t" "tk_transport t3 = tk_transport t"
    using s2(2) s3(2) by (simp_all add: same_task_def)
  have service: "stored ''service.name'' t \<in> set get_service_list \<longleftrightarrow> known_service t"
    unfolding get_service_list_def known_service_def list.set five_of_six by (rule refl)
  have user: "stored ''user.admin'' t = ''1'' \<or> req_method (tk_request t) \<in> set get_user_method_list \<longleftrightarrow> may_call t"
    unfolding get_user_method_list_def may_call_def list.set by (rule refl)
  have run: "(if known_service t then
      (case x_contacts X (stored ''service.name'' t) of
         None \<Rightarrow> (Inl Out_of_range, w)
       | Some types \<Rightarrow>
           if stored ''service.method'' t \<in> set types then
             (if stored ''user.admin'' t = ''1'' \<or> req_method (tk_request t) \<in> set get_user_method_list
              then send X (stored ''service.name'' t) (stored ''service.method'' t) (B_task t3) w
              else reply_error X t3 ''permission denied'' w)
           else reply_error X t2 ''method not found'' w)
     else reply_error X t2 ''service not found'' w) = (Inr (), w')"
    using assms service frame(3)
    by (cases "known_service t"; cases "x_contacts X (stored ''service.name'' t)";
        cases "stored ''user.admin'' t = ''1''"; cases "req_method (tk_request t) \<in> set get_user_method_list")
      (simp_all add: router_handle_def router_service_def s1(1) s2(1) s3(1) split: if_splits)
  show ?thesis
  proof (cases "known_service t \<and> known_method X t")
    case True
    then obtain types where types: "x_contacts X (stored ''service.name'' t) = Some types" "stored ''service.method'' t \<in> set types"
      by (auto simp: known_method_def split: option.splits)
    show ?thesis
    proof (cases "may_call t")
      case call: True
      with run True types user have "send X (stored ''service.name'' t) (stored ''service.method'' t) (B_task t3) w = (Inr (), w')"
        by simp
      then have "w_sent w' = w_sent w @ [(stored ''service.name'' t, stored ''service.method'' t, B_task t3)]"
        by (auto simp: send_def types(1))
      with True call s3(2) show ?thesis by auto
    next
      case False
      with run True types user have "reply_error X t3 ''permission denied'' w = (Inr (), w')" by simp
      from reply_error_Inr [OF this frame(3,4)] True False show ?thesis by (simp add: refusal_def)
    qed
  next
    case False
    then have "reply_error X t2 (refusal X t) w = (Inr (), w')"
      using run by (auto simp: known_method_def refusal_def split: if_splits option.splits)
    from reply_error_Inr [OF this frame(1,2)] False show ?thesis by auto
  qed
qed

section \<open>Examples\<close>

definition demo_router :: "(string list \<Rightarrow> sql_row list, router_impl) world" where
  "demo_router = \<lparr>w_db = (\<lambda>_. []), w_priv = \<lparr>profile_key = ''admin.x'', manager_key = ''m''\<rparr>, w_sent = []\<rparr>"

lemma dispatcher_sends_one_witness:
  "\<exists>s. dispatched demo_ext ''t'' s
     \<and> w_sent (snd (router_handle demo_ext ''dispatcher'' (B_transport (T_ws ''t'' ''{}'')) demo_router))
       = w_sent demo_router @ [s]"
proof (rule dispatcher_sends_one)
  have "fst (router_handle demo_ext ''dispatcher'' (B_transport (T_ws ''t'' ''{}'')) demo_router) = Inr ()"
    by code_simp
  then show "router_handle demo_ext ''dispatcher'' (B_transport (T_ws ''t'' ''{}'')) demo_router
      = (Inr (), snd (router_handle demo_ext ''dispatcher'' (B_transport (T_ws ''t'' ''{}'')) demo_router))"
    by (simp add: prod_eq_iff)
qed

definition demo_call :: task where
  "demo_call = demo_task [] JNull [(''service.name'', ''groups''), (''service.method'', ''list''), (''user.admin'', ''1'')]"

lemma service_gate_witness:
  "\<exists>m. w_sent (snd (router_handle demo_ext ''service'' (B_task demo_call) demo_router)) = w_sent demo_router @ [m] \<and>
    (if known_service demo_call \<and> known_method demo_ext demo_call \<and> may_call demo_call
     then \<exists>u. m = (stored ''service.name'' demo_call, stored ''service.method'' demo_call, B_task u) \<and> same_task u demo_call
     else m = refuses demo_call (refusal demo_ext demo_call))"
proof (rule service_gate)
  have "x_contacts demo_ext ''groups'' = Some [''list'']" by code_simp
  then have "fst (router_handle demo_ext ''service'' (B_task demo_call) demo_router) = Inr ()"
    by (simp add: router_handle_def router_service_def demo_call_def demo_task_def storage_index_def um_find_Cons
        get_service_list_def)
  then show "router_handle demo_ext ''service'' (B_task demo_call) demo_router
      = (Inr (), snd (router_handle demo_ext ''service'' (B_task demo_call) demo_router))"
    by (simp add: prod_eq_iff)
qed

end
