(* ===== verification/Group_Service.thy ===== *)
theory Group_Service
  imports Service
begin

text \<open>
  \<open>stream-manager/src/groups.cpp\<close> and \<open>connections.cpp\<close>: the groups of devices and the
  connections of devices to groups. Both keep everything in the database; their private
  state is empty.
\<close>

section \<open>Groups\<close>

definition groups_add :: "'db ext \<Rightarrow> body \<Rightarrow> ('db, unit, unit) act" where
  "groups_add X b =
     bindA (lift (body_task b)) (\<lambda>t.
     bindA (lift (param as_string ''key'' t)) (\<lambda>key.
     bindA (lift (param as_string ''name'' t)) (\<lambda>name.
     let r = response_to t in
     answer X t
       (if key \<noteq> [] \<and> name \<noteq> [] then
          caught X r
            (thenA (sql_exec X ''insert into groups (key,name) values (?,?);'' [key, name])
            (ret (success (JBool True) r)))
        else ret (fail ''key or name empty'' r)))))"

definition groups_delete :: "'db ext \<Rightarrow> body \<Rightarrow> ('db, unit, unit) act" where
  "groups_delete X b =
     bindA (lift (body_task b)) (\<lambda>t.
     bindA (lift (param as_string ''key'' t)) (\<lambda>key.
     let r = response_to t in
     answer X t
       (if key \<noteq> [] then
          caught X r
            (thenA (sql_exec X ''delete from groups where key = ?;'' [key])
            (ret (success (JBool True) r)))
        else ret (fail ''key group empty'' r))))"

definition groups_list :: "'db ext \<Rightarrow> body \<Rightarrow> ('db, unit, unit) act" where
  "groups_list X b =
     bindA (lift (body_task b)) (\<lambda>t.
     let r = response_to t in
     answer X t
       (caught X r
          (bindA (sql_each X ''select key,name from groups;'' []
              (\<lambda>row list.
                 bindE (col_string 0 row) (\<lambda>key.
                 bindE (col_string 1 row) (\<lambda>name.
                 Inr (list @ [JMap (make_map [(''key'', JStr key), (''name'', JStr name)])]))))
              [])
          (\<lambda>list. ret (success (JArr list) r)))))"

definition groups_startup :: "'db ext \<Rightarrow> ('db, unit, unit) act" where
  "groups_startup X =
     sql_exec X
       ''create table if not exists groups (   key text primary key not null,   name text unique not null);'' []"

definition groups_handle :: "'db ext \<Rightarrow> string \<Rightarrow> body \<Rightarrow> ('db, unit, unit) act" where
  "groups_handle X command b =
     (if command = ''add'' then groups_add X b
      else if command = ''delete'' then groups_delete X b
      else if command = ''list'' then groups_list X b
      else skipA)"

section \<open>Connections\<close>

definition connections_add :: "'db ext \<Rightarrow> body \<Rightarrow> ('db, unit, unit) act" where
  "connections_add X b =
     bindA (lift (body_task b)) (\<lambda>t.
     bindA (lift (param as_string ''group-key'' t)) (\<lambda>group_key.
     bindA (lift (param as_string ''device-key'' t)) (\<lambda>device_key.
     let r = response_to t in
     answer X t
       (if group_key \<noteq> [] \<and> device_key \<noteq> [] then
          caught X r
            (thenA (sql_exec X ''insert into connections (group_key,device_key) values (?,?);''
               [group_key, device_key])
            (ret (success (JBool True) r)))
        else ret (fail ''group-key or device-key empty'' r)))))"

definition connections_delete :: "'db ext \<Rightarrow> body \<Rightarrow> ('db, unit, unit) act" where
  "connections_delete X b =
     bindA (lift (body_task b)) (\<lambda>t.
     bindA (lift (param as_string ''group-key'' t)) (\<lambda>group_key.
     bindA (lift (param as_string ''device-key'' t)) (\<lambda>device_key.
     let r = response_to t in
     answer X t
       (if group_key \<noteq> [] \<and> device_key \<noteq> [] then
          caught X r
            (thenA (sql_exec X ''delete from connections where group_key = ? and device_key = ?;''
               [group_key, device_key])
            (ret (success (JBool True) r)))
        else ret (fail ''group-key or device-key empty'' r)))))"

text \<open>A column of strings as a JSON array.\<close>

definition push_column :: "sql_row \<Rightarrow> json list \<Rightarrow> json list result" where
  "push_column row list = bindE (col_string 0 row) (\<lambda>s. Inr (list @ [JStr s]))"

definition push_column_ptr :: "sql_row \<Rightarrow> json list \<Rightarrow> json list result" where
  "push_column_ptr row list =
     bindE (col_ptr 0 row) (\<lambda>p. Inr (case p of None \<Rightarrow> list | Some s \<Rightarrow> list @ [JStr s]))"

definition connections_list :: "'db ext \<Rightarrow> body \<Rightarrow> ('db, unit, unit) act" where
  "connections_list X b =
     bindA (lift (body_task b)) (\<lambda>t.
     bindA (lift (param as_string ''group-key'' t)) (\<lambda>group_key.
     let r = response_to t in
     answer X t
       (if group_key \<noteq> [] then
          caught X r
            (bindA (sql_each X ''select device_key from connections where group_key = ?;'' [group_key]
                push_column [])
            (\<lambda>list. ret (success (JArr list) r)))
        else ret (fail ''group-key empty'' r))))"

definition connections_groups :: "'db ext \<Rightarrow> body \<Rightarrow> ('db, unit, unit) act" where
  "connections_groups X b =
     bindA (lift (body_task b)) (\<lambda>t.
     bindA (lift (as_array (req_params (tk_request t)))) (\<lambda>group_key_list.
     let r = response_to t in
     answer X t
       (if group_key_list \<noteq> [] then
          caught X r
            (bindA (lift (string_list group_key_list)) (\<lambda>groups.
             bindA (sql_each X ''select device_key from connections where group_key in (?);''
                [accumulate groups] push_column_ptr [])
            (\<lambda>list. ret (success (JArr list) r))))
        else ret (fail ''devices not found'' r))))"

text \<open>
  The groups of a device: the query, the check that there is one, and the task with the
  groups in its metadata for the subscriptions.
\<close>

definition device_groups :: "'db ext \<Rightarrow> string \<Rightarrow> ('db, unit, json list) act" where
  "device_groups X device_key =
     sql_each X ''select group_key from connections where device_key = ?;'' [device_key] push_column []"

definition with_groups :: "json list \<Rightarrow> task \<Rightarrow> task" where
  "with_groups groups t =
     set_task_metadata (om_set ''device-groups'' (JArr groups) (req_metadata (tk_request t))) t"

definition connections_devices :: "'db ext \<Rightarrow> body \<Rightarrow> ('db, unit, unit) act" where
  "connections_devices X b =
     bindA (lift (body_task b)) (\<lambda>t.
     bindA (lift (metadata_string ''device-key'' t)) (\<lambda>device_key.
     if device_key \<noteq> [] then
       tryA
         (bindA (device_groups X device_key) (\<lambda>groups_list.
          if groups_list \<noteq> [] then
            send X ''subscriptions'' ''groups'' (B_task (with_groups groups_list t))
          else reply_error X t ''device groups empty''))
         (\<lambda>e. reply_error X t (x_what X e))
     else reply_error X t ''device-key empty''))"

definition connections_subscribe :: "'db ext \<Rightarrow> body \<Rightarrow> ('db, unit, unit) act" where
  "connections_subscribe X b =
     bindA (lift (body_task b)) (\<lambda>t.
     bindA (lift (param as_string ''device-key'' t)) (\<lambda>device_key.
     if device_key \<noteq> [] then
       tryA
         (bindA (device_groups X device_key) (\<lambda>groups_list.
          if groups_list \<noteq> [] then
            send X ''subscriptions'' ''on'' (B_task (with_groups groups_list t))
          else reply_error X t ''device groups empty''))
         (\<lambda>e. reply_error X t (x_what X e))
     else reply_error X t ''device-key empty''))"

definition connections_unsubscribe :: "'db ext \<Rightarrow> body \<Rightarrow> ('db, unit, unit) act" where
  "connections_unsubscribe X b =
     bindA (lift (body_task b)) (\<lambda>t.
     bindA (lift (param as_string ''device-key'' t)) (\<lambda>device_key.
     if device_key \<noteq> [] then
       tryA (send X ''subscriptions'' ''off'' (B_task t)) (\<lambda>e. reply_error X t (x_what X e))
     else reply_error X t ''device-key empty''))"

definition connections_startup :: "'db ext \<Rightarrow> ('db, unit, unit) act" where
  "connections_startup X =
     sql_exec X
       ''create table if not exists connections (   group_key text not null,   device_key text not null);'' []"

definition connections_handle :: "'db ext \<Rightarrow> string \<Rightarrow> body \<Rightarrow> ('db, unit, unit) act" where
  "connections_handle X command b =
     (if command = ''add'' then connections_add X b
      else if command = ''delete'' then connections_delete X b
      else if command = ''list'' then connections_list X b
      else if command = ''groups'' then connections_groups X b
      else if command = ''devices'' then connections_devices X b
      else if command = ''subscribe'' then connections_subscribe X b
      else if command = ''unsubscribe'' then connections_unsubscribe X b
      else skipA)"

section \<open>Answers and hand-overs\<close>

definition handed_over :: "task \<Rightarrow> sent \<Rightarrow> bool" where
  "handed_over t s \<longleftrightarrow>
     (\<exists>u. tk_transport u = tk_transport t \<and> req_id (tk_request u) = req_id (tk_request t)
        \<and> req_params (tk_request u) = req_params (tk_request t) \<and> tk_storage u = tk_storage t
        \<and> s \<in> {(''subscriptions'', ''groups'', B_task u), (''subscriptions'', ''on'', B_task u),
              (''subscriptions'', ''off'', B_task u)})"

lemma with_groups_frame [simp]:
  "tk_transport (with_groups gs t) = tk_transport t" "tk_storage (with_groups gs t) = tk_storage t"
  "req_id (tk_request (with_groups gs t)) = req_id (tk_request t)"
  "req_params (tk_request (with_groups gs t)) = req_params (tk_request t)"
  "req_method (tk_request (with_groups gs t)) = req_method (tk_request t)"
  by (simp_all add: with_groups_def set_task_metadata_def)

lemma handed_over_send:
  assumes "tk_transport u = tk_transport t" "req_id (tk_request u) = req_id (tk_request t)"
    "req_params (tk_request u) = req_params (tk_request t)" "tk_storage u = tk_storage t"
    "c = ''groups'' \<or> c = ''on'' \<or> c = ''off''"
  shows "handed_over t (''subscriptions'', c, B_task u)"
  using assms by (auto simp: handed_over_def)

lemmas group_operations =
  groups_handle_def groups_add_def groups_delete_def groups_list_def
  connections_handle_def connections_add_def connections_delete_def connections_list_def
  connections_groups_def connections_devices_def connections_subscribe_def connections_unsubscribe_def

text \<open>
  Every operation on groups and connections that returns has sent exactly one message:
  a reply to the requester, or, from \<open>devices\<close>, \<open>subscribe\<close> and \<open>unsubscribe\<close>, the task
  for the subscriptions, of the same request and transport.
\<close>

lemma group_operations_send_one:
  assumes "(command \<in> {''add'', ''delete'', ''list''}
      \<and> groups_handle X command (B_task t) w = (Inr (), w'))
    \<or> (command \<in> {''add'', ''delete'', ''list'', ''groups'', ''devices'', ''subscribe'', ''unsubscribe''}
      \<and> connections_handle X command (B_task t) w = (Inr (), w'))"
  shows "\<exists>s. (is_reply_to (req_id (tk_request t)) (tk_transport t) s \<or> handed_over t s)
    \<and> w_sent w' = w_sent w @ [s]"
proof -
  let ?Q = "\<lambda>s. is_reply_to (req_id (tk_request t)) (tk_transport t) s \<or> handed_over t s"
  have groups: "sends_one ?Q (groups_handle X command (B_task t))" if "command \<in> {''add'', ''delete'', ''list''}"
    using that
    by (elim insertE emptyE)
      (auto simp: group_operations Let_def is_reply_to_def intro!: sends_one_rules quiet_rules returns_rules)
  have connections: "sends_one ?Q (connections_handle X command (B_task t))"
    if "command \<in> {''add'', ''delete'', ''list'', ''groups'', ''devices'', ''subscribe'', ''unsubscribe''}"
    using that
    by (elim insertE emptyE)
      (auto simp: group_operations Let_def is_reply_to_def device_groups_def handed_over_send
        intro!: sends_one_rules quiet_rules returns_rules)
  from assms show ?thesis
  proof (elim disjE conjE)
    assume c: "command \<in> {''add'', ''delete'', ''list''}"
      and run: "groups_handle X command (B_task t) w = (Inr (), w')"
    show ?thesis by (rule sends_oneD [OF groups [OF c] run])
  next
    assume c: "command \<in> {''add'', ''delete'', ''list'', ''groups'', ''devices'', ''subscribe'', ''unsubscribe''}"
      and run: "connections_handle X command (B_task t) w = (Inr (), w')"
    show ?thesis by (rule sends_oneD [OF connections [OF c] run])
  qed
qed

definition demo_groups :: "(string list \<Rightarrow> sql_row list, unit) world" where
  "demo_groups = \<lparr>w_db = (\<lambda>args. if args = [''d''] then [[Sql_text ''g'']] else []), w_priv = (), w_sent = []\<rparr>"

definition demo_device_task :: task where
  "demo_device_task = demo_task [(''device-key'', JStr ''d'')] JNull []"

lemma group_operations_send_one_witness:
  "\<exists>s. (is_reply_to (req_id (tk_request demo_device_task)) (tk_transport demo_device_task) s
      \<or> handed_over demo_device_task s)
    \<and> w_sent (snd (connections_handle demo_ext ''devices'' (B_task demo_device_task) demo_groups))
      = w_sent demo_groups @ [s]"
proof (rule group_operations_send_one)
  let ?out = "connections_handle demo_ext ''devices'' (B_task demo_device_task) demo_groups"
  have contact: "x_contacts demo_ext ''subscriptions'' = Some [''list'']" by code_simp
  have "device_groups demo_ext ''d'' demo_groups = (Inr [JStr ''g''], demo_groups)"
    by (simp add: device_groups_def sql_each_def demo_ext_def demo_groups_def push_column_def
        col_string_def col_ptr_def)
  then have "fst ?out = Inr ()"
    using contact
    by (simp add: connections_handle_def connections_devices_def demo_device_task_def demo_task_def
        metadata_string_def map_index_def om_find_Cons)
  then have out: "?out = (Inr (), snd ?out)" by (simp add: prod_eq_iff)
  have "''devices'' \<in> {''add'', ''delete'', ''list'', ''groups'', ''devices'', ''subscribe'', ''unsubscribe''}"
    by simp
  then show "(''devices'' \<in> {''add'', ''delete'', ''list''}
      \<and> groups_handle demo_ext ''devices'' (B_task demo_device_task) demo_groups = (Inr (), snd ?out))
    \<or> (''devices'' \<in> {''add'', ''delete'', ''list'', ''groups'', ''devices'', ''subscribe'', ''unsubscribe''}
      \<and> ?out = (Inr (), snd ?out))"
    using out by (rule disjI2 [OF conjI])
qed

end
