(* ===== verification/Subscriptions.thy ===== *)
theory Subscriptions
  imports Service
begin

text \<open>
  \<open>stream-manager/src/subscriptions.cpp\<close>: the access of users to groups, kept in the
  database, and the connections that listen to a device, kept in the private state:
  \<open>device_subscribe_transport_reg\<close> maps the key of a device to a set of transports.
\<close>

section \<open>The registry\<close>

record subscriptions_impl =
  subscribe_reg :: "(string \<times> string list) list"

definition subs_is_reg_device :: "string \<Rightarrow> subscriptions_impl \<Rightarrow> bool" where
  "subs_is_reg_device device_key p \<longleftrightarrow> um_find device_key (subscribe_reg p) \<noteq> None"

text \<open>\<open>at\<close> raises when there is no entry.\<close>

definition get_device_subscribes :: "string \<Rightarrow> subscriptions_impl \<Rightarrow> string list result" where
  "get_device_subscribes device_key p =
     (case um_find device_key (subscribe_reg p) of Some s \<Rightarrow> Inr s | None \<Rightarrow> Inl Out_of_range)"

definition is_reg_device_subscribe :: "string \<Rightarrow> string \<Rightarrow> subscriptions_impl \<Rightarrow> bool result" where
  "is_reg_device_subscribe device_key ident p =
     bindE (get_device_subscribes device_key p) (\<lambda>s. Inr (ident \<in> set s))"

definition subs_add_reg_device :: "string \<Rightarrow> subscriptions_impl \<Rightarrow> subscriptions_impl" where
  "subs_add_reg_device device_key p = p \<lparr>subscribe_reg := um_emplace device_key [] (subscribe_reg p)\<rparr>"

definition subs_remove_reg_device :: "string \<Rightarrow> subscriptions_impl \<Rightarrow> subscriptions_impl" where
  "subs_remove_reg_device device_key p = p \<lparr>subscribe_reg := um_erase device_key (subscribe_reg p)\<rparr>"

text \<open>\<open>device_subscribe_transport_reg.at(device_key).emplace(id)\<close> and \<open>.erase(id)\<close>.\<close>

definition modify_subscribes ::
    "(string list \<Rightarrow> string list) \<Rightarrow> string \<Rightarrow> subscriptions_impl \<Rightarrow> subscriptions_impl result" where
  "modify_subscribes f device_key p =
     bindE (get_device_subscribes device_key p) (\<lambda>s.
       Inr (p \<lparr>subscribe_reg := um_set device_key (f s) (subscribe_reg p)\<rparr>))"

section \<open>The handlers\<close>

definition subscriptions_add :: "'db ext \<Rightarrow> body \<Rightarrow> ('db, subscriptions_impl, unit) act" where
  "subscriptions_add X b =
     bindA (lift (body_task b)) (\<lambda>t.
     bindA (lift (param as_string ''group-key'' t)) (\<lambda>group_key.
     bindA (lift (param as_string ''user-login'' t)) (\<lambda>user_login.
     let r = response_to t in
     answer X t
       (if group_key \<noteq> [] \<and> user_login \<noteq> [] then
          caught X r
            (thenA (sql_exec X ''insert into subscriptions (group_key,user_login) values (?,?);''
               [group_key, user_login])
            (ret (success (JBool True) r)))
        else ret (fail ''key or login empty'' r)))))"

definition subscriptions_delete :: "'db ext \<Rightarrow> body \<Rightarrow> ('db, subscriptions_impl, unit) act" where
  "subscriptions_delete X b =
     bindA (lift (body_task b)) (\<lambda>t.
     bindA (lift (param as_string ''group-key'' t)) (\<lambda>group_key.
     bindA (lift (param as_string ''user-login'' t)) (\<lambda>user_login.
     let r = response_to t in
     answer X t
       (if group_key \<noteq> [] \<and> user_login \<noteq> [] then
          caught X r
            (thenA (sql_exec X ''delete from subscriptions where group_key = ? and user_login = ?;''
               [group_key, user_login])
            (ret (success (JBool True) r)))
        else ret (fail ''key or login empty'' r)))))"

text \<open>A column of strings as a JSON array.\<close>

definition push_string :: "sql_row \<Rightarrow> json list \<Rightarrow> json list result" where
  "push_string row list = bindE (col_string 0 row) (\<lambda>s. Inr (list @ [JStr s]))"

definition subscriptions_list :: "'db ext \<Rightarrow> body \<Rightarrow> ('db, subscriptions_impl, unit) act" where
  "subscriptions_list X b =
     bindA (lift (body_task b)) (\<lambda>t.
     bindA (lift (param as_string ''group-key'' t)) (\<lambda>group_key.
     let r = response_to t in
     answer X t
       (if group_key \<noteq> [] then
          caught X r
            (bindA (sql_each X ''select user_login from subscriptions where group_key = ?;'' [group_key]
                push_string [])
            (\<lambda>list. ret (success (JArr list) r)))
        else ret (fail ''key empty'' r))))"

definition set_task_params :: "json \<Rightarrow> task \<Rightarrow> task" where
  "set_task_params v t = t \<lparr>tk_request := tk_request t \<lparr>req_params := v\<rparr>\<rparr>"

definition subscriptions_devices :: "'db ext \<Rightarrow> body \<Rightarrow> ('db, subscriptions_impl, unit) act" where
  "subscriptions_devices X b =
     bindA (lift (body_task b)) (\<lambda>t.
     let (user_login, t) = storage_index ''user.login'' t in
     tryA
       (bindA (sql_each X ''select group_key from subscriptions where user_login = ?;'' [user_login]
           push_string [])
       (\<lambda>groups_list.
        send X ''connections'' ''groups'' (B_task (set_task_params (JArr groups_list) t))))
       (\<lambda>e. reply_error X t (x_what X e)))"

text \<open>\<open>metadata["device-groups"].as<json_array>()\<close>.\<close>

definition metadata_array :: "string \<Rightarrow> task \<Rightarrow> json list result" where
  "metadata_array k t = as_array (fst (map_index k (req_metadata (tk_request t))))"

definition without_groups :: "task \<Rightarrow> task" where
  "without_groups t = set_task_metadata (om_erase ''device-groups'' (req_metadata (tk_request t))) t"

text \<open>
  The access check before a command goes to a device. The error of an exception after the
  groups were erased is answered for the same request.
\<close>

definition subscriptions_groups :: "'db ext \<Rightarrow> body \<Rightarrow> ('db, subscriptions_impl, unit) act" where
  "subscriptions_groups X b =
     bindA (lift (body_task b)) (\<lambda>t.
     bindA (lift (metadata_array ''device-groups'' t)) (\<lambda>device_groups.
     let (user_login, t) = storage_index ''user.login'' t;
         (user_admin, t) = storage_index ''user.admin'' t
     in if device_groups \<noteq> [] then
          tryA
            (bindA (lift (string_list device_groups)) (\<lambda>groups.
             bindA (sql_int X
                ''select count(*) from subscriptions where user_login = ? and group_key in (?);''
                [user_login, accumulate groups]) (\<lambda>access_group_users.
             let t = without_groups t in
             if access_group_users > 0 \<or> user_admin = ''1''
             then send X ''devices'' ''request'' (B_task t)
             else reply_error X t ''access denied to device'')))
            (\<lambda>e. reply_error X t (x_what X e))
        else reply_error X t ''device-groups empty''))"

text \<open>The registration of a listener once access is granted.\<close>

definition subscribe_transport ::
    "string \<Rightarrow> string \<Rightarrow> response_message \<Rightarrow> ('db, subscriptions_impl, response_message) act" where
  "subscribe_transport device_key ident r =
     bindA get_priv (\<lambda>p.
     let p1 = (if subs_is_reg_device device_key p then p else subs_add_reg_device device_key p) in
     thenA (put_priv p1)
     (bindA (lift (is_reg_device_subscribe device_key ident p1)) (\<lambda>already.
      if already then ret (fail ''subscriptions already'' r)
      else bindA (lift (modify_subscribes (us_emplace ident) device_key p1)) (\<lambda>p2.
           thenA (put_priv p2) (ret (success (JBool True) r))))))"

definition subscriptions_on :: "'db ext \<Rightarrow> body \<Rightarrow> ('db, subscriptions_impl, unit) act" where
  "subscriptions_on X b =
     bindA (lift (body_task b)) (\<lambda>t.
     bindA (lift (metadata_array ''device-groups'' t)) (\<lambda>device_groups.
     bindA (lift (param as_string ''device-key'' t)) (\<lambda>device_key.
     let (user_login, t) = storage_index ''user.login'' t;
         (user_admin, t) = storage_index ''user.admin'' t;
         r = response_to t
     in answer X t
          (if device_groups \<noteq> [] then
             caught X r
               (bindA (lift (string_list device_groups)) (\<lambda>groups.
                bindA (sql_each X
                   ''select group_key from subscriptions where user_login = ? and group_key in (?);''
                   [user_login, accumulate groups] push_string []) (\<lambda>user_groups.
                if user_groups = [] \<and> user_admin = ''0''
                then ret (fail ''access denied to device'' r)
                else subscribe_transport device_key (tk_transport t) r)))
           else ret (fail ''device-groups empty'' r)))))"

definition subscriptions_off :: "'db ext \<Rightarrow> body \<Rightarrow> ('db, subscriptions_impl, unit) act" where
  "subscriptions_off X b =
     bindA (lift (body_task b)) (\<lambda>t.
     bindA (lift (param as_string ''device-key'' t)) (\<lambda>device_key.
     let r = response_to t in
     answer X t
       (bindA get_priv (\<lambda>p.
        if subs_is_reg_device device_key p then
          bindA (lift (is_reg_device_subscribe device_key (tk_transport t) p)) (\<lambda>listening.
          if listening then
            bindA (lift (modify_subscribes (us_erase (tk_transport t)) device_key p)) (\<lambda>p1.
            thenA (put_priv p1) (ret (success (JBool True) (success (JBool True) r))))
          else ret (success (JBool True) (fail ''unsubscribe already'' r)))
        else ret (fail ''device is not connect'' r)))))"

text \<open>
  A notification of a device for every connection that listens to it: the transport in its
  metadata is overwritten for each.
\<close>

definition emit_message :: "string \<Rightarrow> json_map \<Rightarrow> json_map result" where
  "emit_message subscribe message =
     (let (md, message) = map_index ''metadata'' message in
      bindE (value_index ''transport'' md) (\<lambda>_.
      bindE (as_map md) (\<lambda>m. Inr (om_set ''metadata'' (JMap (om_set ''transport'' (JStr subscribe) m)) message))))"

fun emit_all :: "'db ext \<Rightarrow> string list \<Rightarrow> json_map \<Rightarrow> ('db, subscriptions_impl, unit) act" where
  "emit_all X [] message = skipA"
| "emit_all X (subscribe # rest) message =
     bindA (lift (emit_message subscribe message)) (\<lambda>message.
     thenA (write_ws X subscribe (to_string message)) (emit_all X rest message))"

definition subscriptions_emit :: "'db ext \<Rightarrow> body \<Rightarrow> ('db, subscriptions_impl, unit) act" where
  "subscriptions_emit X b =
     bindA (lift (body_transport b)) (\<lambda>transport.
     bindA (lift (as_ws transport)) (\<lambda>(ident, text).
     bindA (read_message X text) (\<lambda>message.
     let (md, message) = map_index ''metadata'' message in
     bindA (lift (value_index ''device-key'' md)) (\<lambda>(v, md).
     let message = om_set ''metadata'' md message in
     bindA (lift (as_string v)) (\<lambda>device_key.
     bindA get_priv (\<lambda>p.
     if subs_is_reg_device device_key p then
       bindA (lift (get_device_subscribes device_key p)) (\<lambda>subscribes.
       emit_all X subscribes message)
     else skipA))))))"

definition subscriptions_startup :: "'db ext \<Rightarrow> ('db, subscriptions_impl, unit) act" where
  "subscriptions_startup X =
     thenA (sql_exec X
       ''create table if not exists subscriptions (   group_key text not null,   user_login text not null);'' [])
     (put_priv \<lparr>subscribe_reg = []\<rparr>)"

definition subscriptions_handle :: "'db ext \<Rightarrow> string \<Rightarrow> body \<Rightarrow> ('db, subscriptions_impl, unit) act" where
  "subscriptions_handle X command b =
     (if command = ''add'' then subscriptions_add X b
      else if command = ''delete'' then subscriptions_delete X b
      else if command = ''list'' then subscriptions_list X b
      else if command = ''devices'' then subscriptions_devices X b
      else if command = ''groups'' then subscriptions_groups X b
      else if command = ''on'' then subscriptions_on X b
      else if command = ''off'' then subscriptions_off X b
      else if command = ''emit'' then subscriptions_emit X b
      else skipA)"

section \<open>The registry as a set of listeners\<close>

definition listening :: "subscriptions_impl \<Rightarrow> string \<Rightarrow> string \<Rightarrow> bool" where
  "listening p device_key ident \<longleftrightarrow>
     (case um_find device_key (subscribe_reg p) of Some s \<Rightarrow> ident \<in> set s | None \<Rightarrow> False)"

definition subs_inv :: "subscriptions_impl \<Rightarrow> bool" where
  "subs_inv p \<longleftrightarrow> um_inv (subscribe_reg p)
     \<and> (\<forall>d s. um_find d (subscribe_reg p) = Some s \<longrightarrow> distinct s)"

lemma subs_inv_add: "subs_inv p \<Longrightarrow> subs_inv (subs_add_reg_device d p)"
  by (auto simp: subs_inv_def subs_add_reg_device_def um_inv_emplace um_find_emplace split: if_splits option.splits)

lemma subs_inv_modify:
  assumes "subs_inv p" "modify_subscribes f d p = Inr q" "\<And>s. distinct s \<Longrightarrow> distinct (f s)"
  shows "subs_inv q"
  using assms
  by (auto simp: subs_inv_def modify_subscribes_def get_device_subscribes_def bindE_Inr_iff um_inv_set um_find_set
      split: option.splits if_splits)

lemma listening_add: "listening (subs_add_reg_device d p) e i = listening p e i"
  by (auto simp: listening_def subs_add_reg_device_def um_find_emplace split: option.splits)

lemma listening_modify:
  assumes "modify_subscribes f d p = Inr q"
  shows "listening q e i = (if e = d then i \<in> set (f (case um_find d (subscribe_reg p) of Some s \<Rightarrow> s | None \<Rightarrow> []))
    else listening p e i)"
  using assms
  by (auto simp: listening_def modify_subscribes_def get_device_subscribes_def bindE_Inr_iff um_find_set
      split: option.splits)

lemma registered_add: "subs_is_reg_device d (subs_add_reg_device d p)"
  by (simp add: subs_is_reg_device_def subs_add_reg_device_def um_find_emplace split: option.splits)

lemma is_reg_subscribe: "subs_is_reg_device d p \<Longrightarrow> is_reg_device_subscribe d i p = Inr (listening p d i)"
  by (auto simp: subs_is_reg_device_def is_reg_device_subscribe_def get_device_subscribes_def listening_def)

lemma modify_registered: "subs_is_reg_device d p \<Longrightarrow> \<exists>q. modify_subscribes f d p = Inr q"
  by (auto simp: subs_is_reg_device_def modify_subscribes_def get_device_subscribes_def)

lemma listening_emplace:
  assumes "modify_subscribes (us_emplace i) d p = Inr q"
  shows "listening q e j \<longleftrightarrow> listening p e j \<or> (e = d \<and> j = i)"
  unfolding listening_modify [OF assms]
  by (cases "um_find d (subscribe_reg p)") (auto simp: listening_def)

lemma listening_erase:
  assumes "modify_subscribes (us_erase i) d p = Inr q"
  shows "listening q e j \<longleftrightarrow> listening p e j \<and> \<not> (e = d \<and> j = i)"
  unfolding listening_modify [OF assms]
  by (cases "um_find d (subscribe_reg p)") (auto simp: listening_def)

lemma subscribe_transport_run:
  "\<exists>q. (\<forall>e j. listening q e j \<longleftrightarrow> listening (w_priv w) e j \<or> (e = d \<and> j = i))
     \<and> subscribe_transport d i r w =
        ((if listening (w_priv w) d i then Inr (fail ''subscriptions already'' r) else Inr (success (JBool True) r)),
         w \<lparr>w_priv := q\<rparr>)"
proof -
  define p1 where "p1 = (if subs_is_reg_device d (w_priv w) then w_priv w else subs_add_reg_device d (w_priv w))"
  have reg: "subs_is_reg_device d p1" by (simp add: p1_def registered_add)
  have same: "listening p1 = listening (w_priv w)" by (simp add: p1_def listening_add fun_eq_iff)
  obtain q where q: "modify_subscribes (us_emplace i) d p1 = Inr q" using modify_registered [OF reg] by blast
  have run: "subscribe_transport d i r w =
      (if listening p1 d i then (Inr (fail ''subscriptions already'' r), w \<lparr>w_priv := p1\<rparr>)
       else (Inr (success (JBool True) r), w \<lparr>w_priv := q\<rparr>))"
    by (simp add: subscribe_transport_def p1_def [symmetric] is_reg_subscribe [OF reg] q)
  show ?thesis
  proof (cases "listening p1 d i")
    case True
    then show ?thesis using run same by (intro exI [of _ p1]) auto
  next
    case False
    then show ?thesis using run same listening_emplace [OF q] by (intro exI [of _ q]) auto
  qed
qed

text \<open>
  \<open>on\<close> implements adding a listener: when it returns, either its reply bears no error,
  the connection of the task did not listen to the device before and is now added to its
  listeners, or the reply is an error and every device has the listeners it had.
\<close>

lemma on_adds_listener:
  assumes "subscriptions_handle X ''on'' (B_task t) w = (Inr (), w')"
    "param as_string ''device-key'' t = Inr device"
  shows "\<exists>r. w_sent w' = w_sent w @ [reply_message (tk_transport t) r]
    \<and> (if res_error r = None
       then \<not> listening (w_priv w) device (tk_transport t)
         \<and> (\<forall>e j. listening (w_priv w') e j \<longleftrightarrow> listening (w_priv w) e j \<or> (e = device \<and> j = tk_transport t))
       else \<forall>e j. listening (w_priv w') e j = listening (w_priv w) e j)"
proof -
  obtain dgroups where dg: "metadata_array ''device-groups'' t = Inr dgroups"
    using assms by (cases "metadata_array ''device-groups'' t") (auto simp: subscriptions_handle_def subscriptions_on_def)
  obtain login t1 where s1: "storage_index ''user.login'' t = (login, t1)" by fastforce
  obtain admin t2 where s2: "storage_index ''user.admin'' t1 = (admin, t2)" by fastforce
  have tr: "tk_transport t2 = tk_transport t"
    using storage_index_frame(2) [of "''user.login''" t] storage_index_frame(2) [of "''user.admin''" t1] s1 s2 by simp
  have error: "res_error (response_to t2) = None" by (simp add: response_to_def empty_response_def)
  define m where "m = bindA (lift (string_list dgroups)) (\<lambda>groups.
      bindA (sql_each X
         ''select group_key from subscriptions where user_login = ? and group_key in (?);''
         [login, accumulate groups] push_string []) (\<lambda>user_groups.
      if user_groups = [] \<and> admin = ''0''
      then ret (fail ''access denied to device'' (response_to t2))
      else subscribe_transport device (tk_transport t2) (response_to t2)))"
  define act where "act = (if dgroups \<noteq> [] then caught X (response_to t2) m else ret (fail ''device-groups empty'' (response_to t2)))"
  have "answer X t2 act w = (Inr (), w')"
    using assms unfolding act_def m_def
    by (simp add: subscriptions_handle_def subscriptions_on_def dg s1 s2 Let_def split del: if_split)
  then obtain r w1 where r: "act w = (Inr r, w1)"
    "w' = w1 \<lparr>w_sent := w_sent w1 @ [reply_message (tk_transport t) r]\<rparr>"
    by (rule answer_run) (simp add: tr reply_message_def)
  have "w_sent w1 = w_sent w \<and>
    (if res_error r = None
     then \<not> listening (w_priv w) device (tk_transport t)
       \<and> (\<forall>e j. listening (w_priv w1) e j \<longleftrightarrow> listening (w_priv w) e j \<or> (e = device \<and> j = tk_transport t))
     else \<forall>e j. listening (w_priv w1) e j = listening (w_priv w) e j)"
  proof (cases "dgroups = []")
    case True
    then show ?thesis using r(1) by (auto simp: act_def fail_def)
  next
    case False
    show ?thesis
    proof (cases "string_list dgroups")
      case (Inl e)
      then show ?thesis using r(1) False by (auto simp: act_def m_def caught_def fail_def split: if_splits)
    next
      case (Inr groups)
      obtain q w2 where q: "sql_each X
          ''select group_key from subscriptions where user_login = ? and group_key in (?);''
          [login, accumulate groups] push_string [] w = (q, w2)" by fastforce
      note frame = sql_each_frame [OF q]
      show ?thesis
      proof (cases q)
        case (Inl e)
        then show ?thesis
          using r(1) False Inr q frame by (auto simp: act_def m_def caught_def fail_def split: if_splits)
      next
        case (Inr ug)
        obtain p where p: "\<forall>e j. listening p e j \<longleftrightarrow> listening (w_priv w2) e j \<or> (e = device \<and> j = tk_transport t)"
          "subscribe_transport device (tk_transport t) (response_to t2) w2 =
            ((if listening (w_priv w2) device (tk_transport t)
              then Inr (fail ''subscriptions already'' (response_to t2))
              else Inr (success (JBool True) (response_to t2))), w2 \<lparr>w_priv := p\<rparr>)"
          using subscribe_transport_run [of w2 device "tk_transport t"] by blast
        have run: "m w = (if ug = [] \<and> admin = ''0'' then (Inr (fail ''access denied to device'' (response_to t2)), w2)
            else subscribe_transport device (tk_transport t) (response_to t2) w2)"
          using q \<open>string_list dgroups = Inr groups\<close> Inr by (simp add: m_def tr)
        show ?thesis
        proof (cases "ug = [] \<and> admin = ''0''")
          case True
          then show ?thesis using r(1) False run frame by (auto simp: act_def caught_def fail_def)
        next
          case not: False
          show ?thesis
            using r(1) False run not frame p error
            by (auto simp: act_def caught_def fail_def success_def split: if_splits)
        qed
      qed
    qed
  qed
  then show ?thesis using r(2) by (intro exI [of _ r]) simp
qed

text \<open>
  \<open>off\<close> implements removing a listener: for a device of the registry the connection of
  the task is no longer among its listeners, the other listeners stay, and the reply has
  the result \<open>true\<close> in every case: when the connection did not listen, the reply has
  both the result and the error \<open>unsubscribe already\<close>.
\<close>

lemma off_removes_listener:
  fixes X :: "'db ext"
  assumes "subscriptions_handle X ''off'' (B_task t) w = (Inr (), w')"
    "param as_string ''device-key'' t = Inr device" "subs_is_reg_device device (w_priv w)"
  shows "(\<forall>e j. listening (w_priv w') e j \<longleftrightarrow> listening (w_priv w) e j \<and> \<not> (e = device \<and> j = tk_transport t))
    \<and> (\<exists>r. w_sent w' = w_sent w @ [reply_message (tk_transport t) r] \<and> res_result r = JBool True
          \<and> (res_error r = None \<longleftrightarrow> listening (w_priv w) device (tk_transport t)))"
proof -
  let ?r = "response_to t"
  have error: "res_error ?r = None" by (simp add: response_to_def empty_response_def)
  obtain q where q: "modify_subscribes (us_erase (tk_transport t)) device (w_priv w) = Inr q"
    using modify_registered [OF assms(3)] by blast
  define act :: "('db, subscriptions_impl, response_message) act" where "act = bindA get_priv (\<lambda>p.
        if subs_is_reg_device device p then
          bindA (lift (is_reg_device_subscribe device (tk_transport t) p)) (\<lambda>listening.
          if listening then
            bindA (lift (modify_subscribes (us_erase (tk_transport t)) device p)) (\<lambda>p1.
            thenA (put_priv p1) (ret (success (JBool True) (success (JBool True) ?r))))
          else ret (success (JBool True) (fail ''unsubscribe already'' ?r)))
        else ret (fail ''device is not connect'' ?r))"
  have "answer X t act w = (Inr (), w')"
    using assms(1,2) unfolding act_def
    by (simp add: subscriptions_handle_def subscriptions_off_def Let_def split del: if_split)
  then obtain r w1 where r: "act w = (Inr r, w1)"
    "w' = w1 \<lparr>w_sent := w_sent w1 @ [reply_message (tk_transport t) r]\<rparr>"
    by (rule answer_run) (simp add: reply_message_def)
  show ?thesis
  proof (cases "listening (w_priv w) device (tk_transport t)")
    case True
    then have "r = success (JBool True) (success (JBool True) ?r)" "w1 = w \<lparr>w_priv := q\<rparr>"
      using r(1) assms(3) q by (auto simp: act_def is_reg_subscribe)
    then show ?thesis
      using r(2) listening_erase [OF q] True error by (auto simp: success_def)
  next
    case False
    then have "r = success (JBool True) (fail ''unsubscribe already'' ?r)" "w1 = w"
      using r(1) assms(3) by (auto simp: act_def is_reg_subscribe)
    then show ?thesis
      using r(2) False by (auto simp: success_def fail_def)
  qed
qed

section \<open>Access to a device\<close>




lemma reply_error_cong:
  "tk_request u = tk_request t \<Longrightarrow> tk_transport u = tk_transport t \<Longrightarrow> reply_error X u text = reply_error X t text"
  by (simp add: reply_error_def respond_def response_to_def)





section \<open>Notifications reach every listener\<close>

lemma emit_message_run:
  assumes "om_find ''metadata'' m = Some (JMap md)"
  shows "emit_message i m = Inr (om_set ''metadata'' (JMap (om_set ''transport'' (JStr i) md)) m)"
  using assms by (simp add: emit_message_def value_index_def Let_def split: prod.split)

lemma emit_all_run:
  assumes "om_inv m" "om_inv md" "om_find ''metadata'' m = Some (JMap md)" "x_contacts X ''ws'' = Some ts"
  shows "emit_all X subs m w = (Inr (), w \<lparr>w_sent := w_sent w @
    map (\<lambda>i. (''ws'', ''write'', B_transport (T_ws i
      (to_string (om_set ''metadata'' (JMap (om_set ''transport'' (JStr i) md)) m))))) subs\<rparr>)"
  using assms
proof (induction subs arbitrary: m md w)
  case Nil
  then show ?case by simp
next
  case (Cons i subs)
  let ?md = "om_set ''transport'' (JStr i) md"
  let ?m = "om_set ''metadata'' (JMap ?md) m"
  let ?w = "w \<lparr>w_sent := w_sent w @ [(''ws'', ''write'', B_transport (T_ws i (to_string ?m)))]\<rparr>"
  have step: "emit_all X (i # subs) m w = emit_all X subs ?m ?w"
    using Cons.prems by (simp add: emit_message_run write_ws_def)
  have IH: "emit_all X subs ?m ?w = (Inr (), ?w \<lparr>w_sent := w_sent ?w @
    map (\<lambda>j. (''ws'', ''write'', B_transport (T_ws j
      (to_string (om_set ''metadata'' (JMap (om_set ''transport'' (JStr j) ?md)) ?m))))) subs\<rparr>)"
    using Cons.prems by (intro Cons.IH) (simp_all add: om_inv_set om_find_set)
  show ?case
    unfolding step IH using Cons.prems by (simp add: om_set_overwrite)
qed

text \<open>
  C18: a notification of a device is written once to every connection that listens to the
  device, in the order of the registry, each copy with its own connection as the
  \<open>transport\<close> of its metadata; no listener is left out and nobody else receives it.
\<close>

theorem emit_reaches_listeners:
  assumes "parse_map (x_utf X) text = Inr m" "om_find ''metadata'' m = Some (JMap md)"
    "om_find ''device-key'' md = Some (JStr device)"
    "um_find device (subscribe_reg (w_priv w)) = Some subs" "x_contacts X ''ws'' = Some types"
  shows "subscriptions_handle X ''emit'' (B_transport (T_ws ident text)) w =
    (Inr (), w \<lparr>w_sent := w_sent w @
      map (\<lambda>i. (''ws'', ''write'', B_transport (T_ws i
        (to_string (om_set ''metadata'' (JMap (om_set ''transport'' (JStr i) md)) m))))) subs\<rparr>)"
proof -
  have wf: "json_wf (JMap m)" by (rule parse_map_wf [OF assms(1)])
  have inv: "om_inv m" "om_inv md"
    using wf json_wf_find [OF wf assms(2)] by (simp_all add: json_wf_JMap)
  have same: "om_set ''metadata'' (JMap md) m = m"
  proof (rule om_ext)
    show "om_inv (om_set ''metadata'' (JMap md) m)" by (rule om_inv_set [OF inv(1)])
  qed (use inv assms(2) in \<open>auto simp: om_find_set\<close>)
  have "subscriptions_handle X ''emit'' (B_transport (T_ws ident text)) w = emit_all X subs m w"
    using assms
    by (simp add: subscriptions_handle_def subscriptions_emit_def read_message_def value_index_def Let_def
        same subs_is_reg_device_def get_device_subscribes_def)
  then show ?thesis using emit_all_run [OF inv assms(2,5)] by simp
qed

section \<open>The registry keeps its invariant\<close>

lemma subs_inv_emplace:
  "subs_inv p \<Longrightarrow> modify_subscribes (us_emplace i) d p = Inr q \<Longrightarrow> subs_inv q"
  by (erule subs_inv_modify, assumption, rule distinct_us_emplace)

lemma subs_inv_erase:
  "subs_inv p \<Longrightarrow> modify_subscribes (us_erase i) d p = Inr q \<Longrightarrow> subs_inv q"
  by (erule subs_inv_modify, assumption, rule distinct_us_erase)

lemma spec_subscribe_transport:
  "spec subs_inv Q (subscribe_transport d i r) (\<lambda>_. True)"
  unfolding subscribe_transport_def Let_def
  by (rule spec_get_priv, rule spec_then, rule spec_put_priv, simp add: subs_inv_add, simp,
      rule spec_any_bind_lift, rule spec_if, rule spec_ret, simp)
    (rule spec_bind_lift_put, auto intro: subs_inv_emplace subs_inv_add spec_ret split: if_splits)

lemma spec_emit_all: "(\<And>tr. Q (''ws'', ''write'', B_transport tr)) \<Longrightarrow> spec I Q (emit_all X subs m) (\<lambda>_. True)"
proof (induction subs arbitrary: m)
  case Nil
  show ?case unfolding emit_all.simps by (rule spec_skip) simp
next
  case (Cons i subs)
  show ?case
    unfolding emit_all.simps write_ws_def
    by (rule spec_any_bind_lift, rule spec_then) (simp_all add: spec_send Cons)
qed

lemma spec_off_update:
  "spec subs_inv Q (bindA get_priv (\<lambda>p.
        if subs_is_reg_device d p then
          bindA (lift (is_reg_device_subscribe d i p)) (\<lambda>listening.
          if listening then
            bindA (lift (modify_subscribes (us_erase i) d p)) (\<lambda>p1.
            thenA (put_priv p1) (ret r1))
          else ret r2)
        else ret r3)) (\<lambda>_. True)"
  by (rule spec_get_priv, rule spec_if, rule spec_any_bind_lift, rule spec_if)
    (rule spec_bind_lift_put, auto intro: subs_inv_erase spec_ret)

interpretation subscriptions_svc: service subscriptions_handle subs_inv
  by unfold_locales
    (unfold subscriptions_handle_def subscriptions_add_def subscriptions_delete_def subscriptions_list_def
      subscriptions_devices_def subscriptions_groups_def subscriptions_on_def subscriptions_off_def
      subscriptions_emit_def read_message_def Let_def,
     (rule spec_subscribe_transport spec_emit_all spec_off_update spec_any_rules TrueI | assumption)+)

section \<open>Examples\<close>

definition demo_subs :: "(string list \<Rightarrow> sql_row list, subscriptions_impl) world" where
  "demo_subs =
     \<lparr>w_db = (\<lambda>args. if args = [''bob'', ''g''] then [[Sql_int 1]] else []),
      w_priv = \<lparr>subscribe_reg = [(''d'', [''u''])]\<rparr>, w_sent = []\<rparr>"

definition demo_subs_task :: task where
  "demo_subs_task = demo_task [(''device-groups'', JArr [JStr ''g''])] (JMap [(''device-key'', JStr ''d'')])
     [(''user.login'', ''bob''), (''user.admin'', ''0'')]"

lemma demo_subs_facts:
  "metadata_array ''device-groups'' demo_subs_task = Inr [JStr ''g'']"
  "param as_string ''device-key'' demo_subs_task = Inr ''d''"
  "storage_index ''user.login'' demo_subs_task = (''bob'', demo_subs_task)"
  "storage_index ''user.admin'' demo_subs_task = (''0'', demo_subs_task)"
  "tk_transport demo_subs_task = ''t''"
  by (simp_all add: metadata_array_def demo_subs_task_def demo_task_def map_index_def om_find_Cons
      storage_index_def um_find_Cons param_def value_index_def)

lemma demo_subs_contacts: "x_contacts demo_ext ''ws'' = Some [''list'']" "x_contacts demo_ext ''devices'' = Some [''list'']"
  by code_simp+

lemma demo_subs_sql:
  "sql_int demo_ext ''select count(*) from subscriptions where user_login = ? and group_key in (?);''
      [''bob'', ''g''] demo_subs = (Inr 1, demo_subs)"
  "sql_each demo_ext ''select group_key from subscriptions where user_login = ? and group_key in (?);''
      [''bob'', ''g''] push_string [] demo_subs = (Inr [JStr (show_int 1)], demo_subs)"
  by (simp_all add: sql_int_def sql_each_def demo_ext_def demo_subs_def push_string_def col_string_def col_ptr_def)

lemma demo_on: "subscriptions_handle demo_ext ''on'' (B_task demo_subs_task) demo_subs
    = (Inr (), snd (subscriptions_handle demo_ext ''on'' (B_task demo_subs_task) demo_subs))"
proof -
  obtain q where q: "subscribe_transport ''d'' ''t'' (response_to demo_subs_task) demo_subs =
        ((if listening (w_priv demo_subs) ''d'' ''t'' then Inr (fail ''subscriptions already'' (response_to demo_subs_task))
          else Inr (success (JBool True) (response_to demo_subs_task))), demo_subs \<lparr>w_priv := q\<rparr>)"
    using subscribe_transport_run [of demo_subs "''d''" "''t''"] by blast
  have "\<not> listening (w_priv demo_subs) ''d'' ''t''"
    by (simp add: listening_def demo_subs_def um_find_Cons)
  then have "fst (subscriptions_handle demo_ext ''on'' (B_task demo_subs_task) demo_subs) = Inr ()"
    by (simp add: subscriptions_handle_def subscriptions_on_def demo_subs_facts demo_subs_contacts demo_subs_sql
        accumulate_def answer_def caught_def respond_def write_ws_def q Let_def)
  then show ?thesis by (simp add: prod_eq_iff)
qed

lemma demo_off: "subscriptions_handle demo_ext ''off'' (B_task demo_subs_task) demo_subs
    = (Inr (), snd (subscriptions_handle demo_ext ''off'' (B_task demo_subs_task) demo_subs))"
proof -
  have reg: "subs_is_reg_device ''d'' (w_priv demo_subs)" "\<not> listening (w_priv demo_subs) ''d'' ''t''"
    by (simp_all add: subs_is_reg_device_def listening_def demo_subs_def um_find_Cons)
  have "fst (subscriptions_handle demo_ext ''off'' (B_task demo_subs_task) demo_subs) = Inr ()"
    by (simp add: subscriptions_handle_def subscriptions_off_def demo_subs_facts demo_subs_contacts
        answer_def respond_def write_ws_def reg is_reg_subscribe Let_def)
  then show ?thesis by (simp add: prod_eq_iff)
qed

lemma on_adds_listener_witness:
  "\<exists>r. w_sent (snd (subscriptions_handle demo_ext ''on'' (B_task demo_subs_task) demo_subs))
      = w_sent demo_subs @ [reply_message (tk_transport demo_subs_task) r]
    \<and> (if res_error r = None
       then \<not> listening (w_priv demo_subs) ''d'' (tk_transport demo_subs_task)
         \<and> (\<forall>e j. listening (w_priv (snd (subscriptions_handle demo_ext ''on'' (B_task demo_subs_task) demo_subs))) e j
              \<longleftrightarrow> listening (w_priv demo_subs) e j \<or> (e = ''d'' \<and> j = tk_transport demo_subs_task))
       else \<forall>e j. listening (w_priv (snd (subscriptions_handle demo_ext ''on'' (B_task demo_subs_task) demo_subs))) e j
              = listening (w_priv demo_subs) e j)"
  by (rule on_adds_listener [OF demo_on demo_subs_facts(2)])

lemma off_removes_listener_witness:
  "(\<forall>e j. listening (w_priv (snd (subscriptions_handle demo_ext ''off'' (B_task demo_subs_task) demo_subs))) e j
      \<longleftrightarrow> listening (w_priv demo_subs) e j \<and> \<not> (e = ''d'' \<and> j = tk_transport demo_subs_task))
    \<and> (\<exists>r. w_sent (snd (subscriptions_handle demo_ext ''off'' (B_task demo_subs_task) demo_subs))
          = w_sent demo_subs @ [reply_message (tk_transport demo_subs_task) r] \<and> res_result r = JBool True
          \<and> (res_error r = None \<longleftrightarrow> listening (w_priv demo_subs) ''d'' (tk_transport demo_subs_task)))"
  by (rule off_removes_listener [OF demo_off demo_subs_facts(2)])
    (simp add: subs_is_reg_device_def demo_subs_def um_find_Cons)


definition demo_signal :: string where
  "demo_signal = to_string [(''metadata'', JMap [(''device-key'', JStr ''d'')]), (''method'', JStr ''signal'')]"

lemma emit_reaches_listeners_witness:
  "subscriptions_handle demo_ext ''emit'' (B_transport (T_ws ''x'' demo_signal)) demo_subs =
    (Inr (), demo_subs \<lparr>w_sent := w_sent demo_subs @
      map (\<lambda>i. (''ws'', ''write'', B_transport (T_ws i
        (to_string (om_set ''metadata'' (JMap (om_set ''transport'' (JStr i) [(''device-key'', JStr ''d'')]))
          [(''metadata'', JMap [(''device-key'', JStr ''d'')]), (''method'', JStr ''signal'')]))))) [''u'']\<rparr>)"
proof (rule emit_reaches_listeners)
  show "parse_map (x_utf demo_ext) demo_signal
      = Inr [(''metadata'', JMap [(''device-key'', JStr ''d'')]), (''method'', JStr ''signal'')]"
    unfolding demo_signal_def by (rule parse_map_to_string) (simp_all add: json_wf_JMap om_inv_def)
  show "x_contacts demo_ext ''ws'' = Some [''list'']" by code_simp
qed (simp_all add: om_find_Cons demo_subs_def um_find_Cons)

end
