(* ===== verification/Devices.thy ===== *)
theory Devices
  imports Service
begin

text \<open>
  \<open>stream-manager/src/devices.cpp\<close>: the devices of a manager. The private state holds, for
  every connected device, its transport, its actions and its variables in three maps.
\<close>

section \<open>The registries\<close>

record devices_impl =
  devices_reg :: "(string \<times> string) list"
  device_actions_reg :: "(string \<times> string list) list"
  device_variables_reg :: "(string \<times> string list) list"

definition is_reg_device :: "string \<Rightarrow> devices_impl \<Rightarrow> bool" where
  "is_reg_device device_key p \<longleftrightarrow> um_find device_key (devices_reg p) \<noteq> None"

definition is_reg_device_id :: "string \<Rightarrow> devices_impl \<Rightarrow> bool" where
  "is_reg_device_id ident p \<longleftrightarrow> list_ex (\<lambda>e. snd e = ident) (devices_reg p)"

text \<open>\<open>emplace\<close> leaves the entries of a key that is registered.\<close>

definition add_reg_device :: "string \<Rightarrow> string \<Rightarrow> string list \<Rightarrow> string list \<Rightarrow> devices_impl \<Rightarrow> devices_impl" where
  "add_reg_device device_key transport_id actions variables p =
     \<lparr>devices_reg = um_emplace device_key transport_id (devices_reg p),
      device_actions_reg = um_emplace device_key actions (device_actions_reg p),
      device_variables_reg = um_emplace device_key variables (device_variables_reg p)\<rparr>"

definition remove_reg_device :: "string \<Rightarrow> devices_impl \<Rightarrow> devices_impl" where
  "remove_reg_device device_key p =
     \<lparr>devices_reg = um_erase device_key (devices_reg p),
      device_actions_reg = um_erase device_key (device_actions_reg p),
      device_variables_reg = um_erase device_key (device_variables_reg p)\<rparr>"

definition map_at :: "string \<Rightarrow> (string \<times> 'a) list \<Rightarrow> 'a result" where
  "map_at k m = (case um_find k m of Some v \<Rightarrow> Inr v | None \<Rightarrow> Inl Out_of_range)"

definition get_device_transport_id :: "string \<Rightarrow> devices_impl \<Rightarrow> string result" where
  "get_device_transport_id key p = map_at key (devices_reg p)"

definition get_device_actions :: "string \<Rightarrow> devices_impl \<Rightarrow> string list result" where
  "get_device_actions key p = map_at key (device_actions_reg p)"

definition get_device_variables :: "string \<Rightarrow> devices_impl \<Rightarrow> string list result" where
  "get_device_variables key p = map_at key (device_variables_reg p)"

section \<open>The handlers\<close>

definition devices_add :: "'db ext \<Rightarrow> body \<Rightarrow> ('db, devices_impl, unit) act" where
  "devices_add X b =
     bindA (lift (body_task b)) (\<lambda>t.
     bindA (lift (param as_string ''name'' t)) (\<lambda>name.
     let (user_login, t) = storage_index ''user.login'' t; r = response_to t in
     answer X t
       (if name \<noteq> [] then
          (let key = user_login @ ''.'' @ name in
           caught X r
             (thenA (sql_exec X ''insert into devices (name, key) values (?,?);'' [name, key])
             (ret (success (JStr key) r))))
        else ret (fail ''name device empty'' r))))"

definition devices_delete :: "'db ext \<Rightarrow> body \<Rightarrow> ('db, devices_impl, unit) act" where
  "devices_delete X b =
     bindA (lift (body_task b)) (\<lambda>t.
     bindA (lift (param as_string ''key'' t)) (\<lambda>key.
     let r = response_to t in
     answer X t
       (if key \<noteq> [] then
          caught X r
            (thenA (sql_exec X ''delete from devices where key = ?;'' [key])
            (ret (success (JBool True) r)))
        else ret (fail ''key device empty'' r))))"

text \<open>The function called on a row has three parameters, the query two columns.\<close>

definition devices_list :: "'db ext \<Rightarrow> body \<Rightarrow> ('db, devices_impl, unit) act" where
  "devices_list X b =
     bindA (lift (body_task b)) (\<lambda>t.
     let r = response_to t in
     answer X t
       (caught X r
          (bindA (sql_each X ''select name, key from devices;'' []
              (\<lambda>row list.
                 bindE (col_string 0 row) (\<lambda>name.
                 bindE (col_string 1 row) (\<lambda>key.
                 bindE (col_string 2 row) (\<lambda>status.
                 Inr (list @ [JMap (om_set ''key'' (JStr key) (om_set ''name'' (JStr name) []))])))))
              [])
          (\<lambda>list. ret (success (JArr list) r)))))"

definition device_info_row :: "devices_impl \<Rightarrow> sql_row \<Rightarrow> json_map \<Rightarrow> json_map result" where
  "device_info_row p row info =
     bindE (col_string 0 row) (\<lambda>key.
     bindE (col_string 1 row) (\<lambda>name.
     let info = om_set ''key'' (JStr key) (om_set ''name'' (JStr name) info) in
     bindE (get_device_actions key p) (\<lambda>actions.
     bindE (get_device_variables key p) (\<lambda>variables.
     Inr (om_set ''variables'' (JArr (map JStr variables))
           (om_set ''actions'' (JArr (map JStr actions)) info))))))"

definition devices_detail :: "'db ext \<Rightarrow> body \<Rightarrow> ('db, devices_impl, unit) act" where
  "devices_detail X b =
     bindA (lift (body_task b)) (\<lambda>t.
     bindA (lift (param as_string ''key'' t)) (\<lambda>key.
     let r = response_to t in
     answer X t
       (bindA get_priv (\<lambda>p.
        if is_reg_device key p then
          caught X r
            (bindA (sql_each X ''select key, name from devices where key = ? limit 1;'' [key]
                (device_info_row p) [])
            (\<lambda>device_info. ret (success (JMap device_info) r)))
        else ret (fail ''device not connected'' r)))))"

definition devices_control :: "'db ext \<Rightarrow> body \<Rightarrow> ('db, devices_impl, unit) act" where
  "devices_control X b =
     bindA (lift (body_task b)) (\<lambda>t.
     if contains (req_metadata (tk_request t)) ''device-key'' then
       bindA (lift (metadata_string ''device-key'' t)) (\<lambda>device_key.
       bindA get_priv (\<lambda>p.
       if is_reg_device device_key p then send X ''connections'' ''devices'' (B_task t)
       else reply_error X t ''device not connected''))
     else reply_error X t ''device-key not found'')"

text \<open>The set the elements are emplaced into, one after the other.\<close>

definition string_set :: "string list \<Rightarrow> string list" where
  "string_set ss = fold us_emplace ss []"

text \<open>
  \<open>result\<close> is set before the strings are read: a wrong element leaves a response with both
  a result and an error.
\<close>

definition devices_connect :: "'db ext \<Rightarrow> body \<Rightarrow> ('db, devices_impl, unit) act" where
  "devices_connect X b =
     bindA (lift (body_task b)) (\<lambda>t.
     bindA (lift (param as_string ''key'' t)) (\<lambda>key.
     bindA (lift (param as_array ''actions'' t)) (\<lambda>actions.
     bindA (lift (param as_array ''variables'' t)) (\<lambda>variables.
     let r = response_to t in
     answer X t
       (caught X r
          (bindA (sql_int X ''select count(*) from devices where key = ?;'' [key]) (\<lambda>count_device_key.
           if count_device_key > 0 then
             if actions \<noteq> [] \<or> variables \<noteq> [] then
               (let r = success (JBool True) r in
                caught X r
                  (bindA (lift (string_list actions)) (\<lambda>device_actions.
                   bindA (lift (string_list variables)) (\<lambda>device_variables.
                   bindA get_priv (\<lambda>p.
                   thenA (put_priv (add_reg_device key (tk_transport t)
                            (string_set device_actions) (string_set device_variables) p))
                   (ret r))))))
             else ret (fail ''device control contains actions and/or variables'' r)
           else ret (fail ''device not found'' r))))))))"

text \<open>Nothing is answered when the removal succeeds, and it cannot fail.\<close>

definition devices_disconnect :: "'db ext \<Rightarrow> body \<Rightarrow> ('db, devices_impl, unit) act" where
  "devices_disconnect X b =
     bindA (lift (body_task b)) (\<lambda>t.
     bindA (lift (param as_string ''key'' t)) (\<lambda>key.
     tryA
       (bindA get_priv (\<lambda>p. put_priv (remove_reg_device key p)))
       (\<lambda>e. reply_error X t (x_what X e))))"

definition device_request :: "task \<Rightarrow> string \<Rightarrow> request_message" where
  "device_request t action =
     \<lparr>req_id = req_id (tk_request t), req_method = action, req_params = JNull,
      req_metadata = make_map [(''transport'', JStr (tk_transport t))]\<rparr>"

definition devices_request :: "'db ext \<Rightarrow> body \<Rightarrow> ('db, devices_impl, unit) act" where
  "devices_request X b =
     bindA (lift (body_task b)) (\<lambda>t.
     bindA (lift (metadata_string ''device-key'' t)) (\<lambda>device_key.
     bindA get_priv (\<lambda>p.
     if is_reg_device device_key p then
       bindA (lift (get_device_transport_id device_key p)) (\<lambda>device_transport_id.
       bindA (lift (param as_string ''action'' t)) (\<lambda>action.
       write_ws X device_transport_id (serialize_request (device_request t action))))
     else reply_error X t ''device not connected'')))"

text \<open>\<open>message["metadata"][k].as<std::string>()\<close>, and the message it leaves.\<close>

definition message_metadata :: "string \<Rightarrow> json_map \<Rightarrow> (string \<times> json_map) result" where
  "message_metadata k message =
     (let (md, message) = map_index ''metadata'' message in
      bindE (value_index k md) (\<lambda>(v, md).
      bindE (as_string v) (\<lambda>s. Inr (s, om_set ''metadata'' md message))))"

definition devices_response :: "'db ext \<Rightarrow> body \<Rightarrow> ('db, devices_impl, unit) act" where
  "devices_response X b =
     bindA (lift (body_transport b)) (\<lambda>transport.
     bindA (lift (as_ws transport)) (\<lambda>(ident, text).
     bindA (read_message X text) (\<lambda>message.
     if is_response message then
       bindA (lift (message_metadata ''transport'' message)) (\<lambda>(transports_id, message).
       bindA (lift (message_metadata ''device-key'' message)) (\<lambda>(device_key, message).
       bindA get_priv (\<lambda>p.
       if is_reg_device device_key p
       then write_ws X transports_id (to_string (om_erase ''metadata'' message))
       else skipA)))
     else skipA)))"

definition devices_notify :: "'db ext \<Rightarrow> body \<Rightarrow> ('db, devices_impl, unit) act" where
  "devices_notify X b =
     bindA (lift (body_transport b)) (\<lambda>transport.
     bindA (lift (as_ws transport)) (\<lambda>(ident, text).
     bindA (read_message X text) (\<lambda>message.
     if is_notify message then
       bindA (lift (message_metadata ''device-key'' message)) (\<lambda>(device_key, message).
       bindA get_priv (\<lambda>p.
       if is_reg_device device_key p
       then send X ''subscriptions'' ''emit'' (B_transport (T_ws ident (to_string message)))
       else skipA))
     else skipA)))"

definition devices_subscribe :: "'db ext \<Rightarrow> body \<Rightarrow> ('db, devices_impl, unit) act" where
  "devices_subscribe X b =
     bindA (lift (body_task b)) (\<lambda>t.
     bindA (lift (param as_string ''device-key'' t)) (\<lambda>device_key.
     bindA get_priv (\<lambda>p.
     if is_reg_device device_key p then send X ''connections'' ''subscribe'' (B_task t)
     else reply_error X t ''device not connected'')))"

definition devices_unsubscribe :: "'db ext \<Rightarrow> body \<Rightarrow> ('db, devices_impl, unit) act" where
  "devices_unsubscribe X b =
     bindA (lift (body_task b)) (\<lambda>t.
     bindA (lift (param as_string ''device-key'' t)) (\<lambda>device_key.
     bindA get_priv (\<lambda>p.
     if is_reg_device device_key p then send X ''connections'' ''unsubscribe'' (B_task t)
     else reply_error X t ''device not connected'')))"

definition no_devices :: devices_impl where
  "no_devices = \<lparr>devices_reg = [], device_actions_reg = [], device_variables_reg = []\<rparr>"

definition devices_startup :: "'db ext \<Rightarrow> ('db, devices_impl, unit) act" where
  "devices_startup X =
     thenA (sql_exec X
       ''create table if not exists devices (   key text primary key not null,   name text not null);'' [])
     (put_priv no_devices)"

definition devices_handle :: "'db ext \<Rightarrow> string \<Rightarrow> body \<Rightarrow> ('db, devices_impl, unit) act" where
  "devices_handle X command b =
     (if command = ''add'' then devices_add X b
      else if command = ''delete'' then devices_delete X b
      else if command = ''list'' then devices_list X b
      else if command = ''detail'' then devices_detail X b
      else if command = ''control'' then devices_control X b
      else if command = ''connect'' then devices_connect X b
      else if command = ''disconnect'' then devices_disconnect X b
      else if command = ''request'' then devices_request X b
      else if command = ''response'' then devices_response X b
      else if command = ''notify'' then devices_notify X b
      else if command = ''subscribe'' then devices_subscribe X b
      else if command = ''unsubscribe'' then devices_unsubscribe X b
      else skipA)"

section \<open>The three registries agree\<close>

definition devices_inv :: "devices_impl \<Rightarrow> bool" where
  "devices_inv p \<longleftrightarrow>
     um_inv (devices_reg p) \<and> um_inv (device_actions_reg p) \<and> um_inv (device_variables_reg p)
     \<and> (\<forall>k. (um_find k (devices_reg p) = None) = (um_find k (device_actions_reg p) = None)
          \<and> (um_find k (devices_reg p) = None) = (um_find k (device_variables_reg p) = None))"

lemma devices_inv_empty: "devices_inv no_devices"
  by (simp add: devices_inv_def no_devices_def)

lemma devices_inv_add: "devices_inv p \<Longrightarrow> devices_inv (add_reg_device k i as vs p)"
  by (auto simp: devices_inv_def add_reg_device_def um_inv_emplace um_find_emplace split: option.splits)

lemma devices_inv_remove: "devices_inv p \<Longrightarrow> devices_inv (remove_reg_device k p)"
  by (auto simp: devices_inv_def remove_reg_device_def um_inv_erase um_find_erase)

interpretation devices_svc: service devices_handle devices_inv
  by unfold_locales
    (unfold devices_handle_def devices_add_def devices_delete_def devices_list_def devices_detail_def
      devices_control_def devices_connect_def devices_disconnect_def devices_request_def devices_response_def
      devices_notify_def devices_subscribe_def devices_unsubscribe_def read_message_def write_ws_def Let_def,
     (rule spec_any_rules TrueI devices_inv_add devices_inv_remove | assumption)+)

text \<open>
  C19: from the start of the service and after any sequence of messages, the three
  registries have the same keys: a device is registered exactly when it has a transport,
  a set of actions and a set of variables, so that no look-up of a registered device raises.
\<close>

theorem device_registries_agree:
  assumes "devices_startup X w0 = (Inr (), w)"
  shows "let p = w_priv (snd (process (devices_handle X) ms w)) in
    (is_reg_device k p \<longleftrightarrow> (\<exists>i. get_device_transport_id k p = Inr i))
    \<and> (is_reg_device k p \<longleftrightarrow> (\<exists>as. get_device_actions k p = Inr as))
    \<and> (is_reg_device k p \<longleftrightarrow> (\<exists>vs. get_device_variables k p = Inr vs))"
proof -
  have "w_priv w = no_devices"
    using assms by (auto simp: devices_startup_def sql_exec_def thenA_def bindA_def split: prod.splits option.splits)
  then have inv: "devices_inv (w_priv (snd (process (devices_handle X) ms w)))"
    by (intro devices_svc.process_inv) (simp add: devices_inv_empty)
  define p where "p = w_priv (snd (process (devices_handle X) ms w))"
  have "devices_inv p" using inv by (simp add: p_def)
  then have none: "(um_find k (devices_reg p) = None) = (um_find k (device_actions_reg p) = None)"
    "(um_find k (devices_reg p) = None) = (um_find k (device_variables_reg p) = None)"
    unfolding devices_inv_def by blast+
  show ?thesis
    using none unfolding p_def [symmetric]
    by (auto simp: is_reg_device_def get_device_transport_id_def get_device_actions_def
        get_device_variables_def map_at_def split: option.splits)
qed

section \<open>Connecting, and the commands of a connected device\<close>

text \<open>What \<open>connect\<close> does when its parameters are read and the device is in the database.\<close>

lemma connect_run:
  assumes "param as_string ''key'' t = Inr key"
    "param as_array ''actions'' t = Inr actions" "string_list actions = Inr as"
    "param as_array ''variables'' t = Inr variables" "string_list variables = Inr vs"
    "actions \<noteq> [] \<or> variables \<noteq> []"
    "sql_int X ''select count(*) from devices where key = ?;'' [key] w = (Inr n, w1)" "n > 0"
    "x_contacts X ''ws'' = Some types"
  shows "devices_handle X ''connect'' (B_task t) w =
    (Inr (), w1 \<lparr>w_priv := add_reg_device key (tk_transport t) (string_set as) (string_set vs) (w_priv w),
       w_sent := w_sent w @ [reply_message (tk_transport t) (success (JBool True) (response_to t))]\<rparr>)"
proof -
  note frame = sql_int_frame [OF assms(7)]
  have guard: "actions = [] \<longrightarrow> variables \<noteq> []" using assms(6) by blast
  show ?thesis
    using assms(1-5,7-9) frame guard
    by (simp add: devices_handle_def devices_connect_def answer_def caught_def respond_def write_ws_def
        reply_message_def Let_def)
qed

text \<open>
  A device that connects becomes reachable under the connection of its task: after
  \<open>connect\<close> of a device of the database that was not registered, its transport, actions and
  variables are those of the task, and the other devices are as before.
\<close>

lemma connect_registers:
  assumes "param as_string ''key'' t = Inr key"
    "param as_array ''actions'' t = Inr actions" "string_list actions = Inr as"
    "param as_array ''variables'' t = Inr variables" "string_list variables = Inr vs"
    "actions \<noteq> [] \<or> variables \<noteq> []"
    "sql_int X ''select count(*) from devices where key = ?;'' [key] w = (Inr n, w1)" "n > 0"
    "x_contacts X ''ws'' = Some types" "devices_inv (w_priv w)" "\<not> is_reg_device key (w_priv w)"
  shows "let (r, w') = devices_handle X ''connect'' (B_task t) w; p = w_priv w' in
    r = Inr () \<and> w_sent w' = w_sent w @ [reply_message (tk_transport t) (success (JBool True) (response_to t))]
    \<and> get_device_transport_id key p = Inr (tk_transport t)
    \<and> get_device_actions key p = Inr (string_set as) \<and> get_device_variables key p = Inr (string_set vs)
    \<and> (\<forall>k. k \<noteq> key \<longrightarrow> get_device_transport_id k p = get_device_transport_id k (w_priv w)
          \<and> get_device_actions k p = get_device_actions k (w_priv w)
          \<and> get_device_variables k p = get_device_variables k (w_priv w))"
proof -
  have none: "um_find key (devices_reg (w_priv w)) = None" "um_find key (device_actions_reg (w_priv w)) = None"
    "um_find key (device_variables_reg (w_priv w)) = None"
    using assms(10,11) by (auto simp: devices_inv_def is_reg_device_def)
  show ?thesis
    unfolding connect_run [OF assms(1-9)]
    using none
    by (simp add: add_reg_device_def get_device_transport_id_def get_device_actions_def get_device_variables_def
        map_at_def um_find_emplace)
qed

text \<open>
  A device that connects again, over a new connection and without \<open>disconnect\<close>, is
  told that it is connected, but its old connection stays registered: nothing of the
  registries changes.
\<close>

lemma reconnect_keeps_old_transport:
  assumes "param as_string ''key'' t = Inr key"
    "param as_array ''actions'' t = Inr actions" "string_list actions = Inr as"
    "param as_array ''variables'' t = Inr variables" "string_list variables = Inr vs"
    "actions \<noteq> [] \<or> variables \<noteq> []"
    "sql_int X ''select count(*) from devices where key = ?;'' [key] w = (Inr n, w1)" "n > 0"
    "x_contacts X ''ws'' = Some types" "devices_inv (w_priv w)" "is_reg_device key (w_priv w)"
  shows "devices_handle X ''connect'' (B_task t) w =
    (Inr (), w1 \<lparr>w_priv := w_priv w,
       w_sent := w_sent w @ [reply_message (tk_transport t) (success (JBool True) (response_to t))]\<rparr>)"
proof -
  have "\<exists>j. um_find key (devices_reg (w_priv w)) = Some j" using assms(11) by (auto simp: is_reg_device_def)
  moreover have "(um_find key (devices_reg (w_priv w)) = None) = (um_find key (device_actions_reg (w_priv w)) = None)"
    "(um_find key (devices_reg (w_priv w)) = None) = (um_find key (device_variables_reg (w_priv w)) = None)"
    using assms(10) unfolding devices_inv_def by blast+
  ultimately have "add_reg_device key i as' vs' (w_priv w) = w_priv w" for i as' vs'
    by (auto simp: add_reg_device_def um_emplace_def)
  then show ?thesis using connect_run [OF assms(1-9)] by simp
qed

text \<open>
  C25: a command for a registered device is written to the connection of the device, as a
  request with the id of the caller, the action as its method and the connection of the
  caller in its metadata; the response that the device sends back with that metadata is
  written to the caller, without the metadata.
\<close>

theorem command_roundtrip:
  assumes "metadata_string ''device-key'' t = Inr key"
    "get_device_transport_id key (w_priv w) = Inr i" "param as_string ''action'' t = Inr action"
    "x_contacts X ''ws'' = Some types"
    "parse_map (x_utf X) answer_text = Inr m" "is_response m"
    "om_find ''metadata'' m = Some (JMap md)" "om_find ''device-key'' md = Some (JStr key)"
    "om_find ''transport'' md = om_find ''transport'' (req_metadata (device_request t action))"
  shows "devices_handle X ''request'' (B_task t) w =
      (Inr (), w \<lparr>w_sent := w_sent w @ [(''ws'', ''write'', B_transport (T_ws i
         (serialize_request \<lparr>req_id = req_id (tk_request t), req_method = action, req_params = JNull,
            req_metadata = [(''transport'', JStr (tk_transport t))]\<rparr>)))]\<rparr>)
    \<and> devices_handle X ''response'' (B_transport (T_ws i answer_text)) w =
      (Inr (), w \<lparr>w_sent := w_sent w @ [(''ws'', ''write'', B_transport (T_ws (tk_transport t)
         (to_string (om_erase ''metadata'' m))))]\<rparr>)"
proof
  have reg: "is_reg_device key (w_priv w)"
    using assms(2) by (auto simp: is_reg_device_def get_device_transport_id_def map_at_def split: option.splits)
  have md: "make_map [(''transport'', JStr (tk_transport t))] = [(''transport'', JStr (tk_transport t))]"
    by (simp add: make_map_def om_merge_def)
  show "devices_handle X ''request'' (B_task t) w =
      (Inr (), w \<lparr>w_sent := w_sent w @ [(''ws'', ''write'', B_transport (T_ws i
         (serialize_request \<lparr>req_id = req_id (tk_request t), req_method = action, req_params = JNull,
            req_metadata = [(''transport'', JStr (tk_transport t))]\<rparr>)))]\<rparr>)"
    using assms(1-4) reg by (simp add: devices_handle_def devices_request_def write_ws_def device_request_def md)
  have wf: "json_wf (JMap m)" by (rule parse_map_wf [OF assms(5)])
  have tr: "om_find ''transport'' md = Some (JStr (tk_transport t))"
    using assms(9) by (simp add: device_request_def md om_find_Cons)
  have same: "om_set ''metadata'' (JMap md) m = m"
    by (rule om_ext) (use wf assms(7) in \<open>auto simp: json_wf_JMap om_inv_set om_find_set\<close>)
  have read: "message_metadata k m = Inr (s, m)" if "om_find k md = Some (JStr s)" for k s
    using that assms(7) by (simp add: message_metadata_def value_index_def same)
  show "devices_handle X ''response'' (B_transport (T_ws i answer_text)) w =
      (Inr (), w \<lparr>w_sent := w_sent w @ [(''ws'', ''write'', B_transport (T_ws (tk_transport t)
         (to_string (om_erase ''metadata'' m))))]\<rparr>)"
    using assms(4-6) reg read [OF tr] read [OF assms(8)]
    by (simp add: devices_handle_def devices_response_def read_message_def write_ws_def)
qed

section \<open>Examples\<close>

definition demo_devices :: "(string list \<Rightarrow> sql_row list, devices_impl) world" where
  "demo_devices = \<lparr>w_db = (\<lambda>args. [[Sql_int 1]]), w_priv = no_devices, w_sent = []\<rparr>"

definition demo_connected :: "(string list \<Rightarrow> sql_row list, devices_impl) world" where
  "demo_connected = demo_devices \<lparr>w_priv := add_reg_device ''d'' ''old'' [''go''] [] no_devices\<rparr>"

definition demo_connect_task :: task where
  "demo_connect_task = demo_task [(''device-key'', JStr ''d'')]
     (JMap [(''action'', JStr ''go''), (''actions'', JArr [JStr ''go'']), (''key'', JStr ''d''), (''variables'', JArr [])]) []"

lemma demo_connect_facts:
  "param as_string ''key'' demo_connect_task = Inr ''d''"
  "param as_array ''actions'' demo_connect_task = Inr [JStr ''go'']"
  "param as_array ''variables'' demo_connect_task = Inr []"
  "param as_string ''action'' demo_connect_task = Inr ''go''"
  "metadata_string ''device-key'' demo_connect_task = Inr ''d''"
  "tk_transport demo_connect_task = ''t''"
  by (simp_all add: demo_connect_task_def demo_task_def param_def value_index_def map_index_def om_find_Cons
      metadata_string_def)

lemma demo_connect_ws: "x_contacts demo_ext ''ws'' = Some [''list'']"
  by code_simp

lemma demo_connect_sql:
  "sql_int demo_ext ''select count(*) from devices where key = ?;'' [''d''] demo_devices = (Inr 1, demo_devices)"
  "sql_int demo_ext ''select count(*) from devices where key = ?;'' [''d''] demo_connected = (Inr 1, demo_connected)"
  by (simp_all add: sql_int_def demo_ext_def demo_devices_def demo_connected_def)

lemma demo_devices_inv: "devices_inv (w_priv demo_devices)" "devices_inv (w_priv demo_connected)"
  by (simp_all add: demo_devices_def demo_connected_def devices_inv_empty devices_inv_add)

lemma demo_devices_reg: "\<not> is_reg_device ''d'' (w_priv demo_devices)" "is_reg_device ''d'' (w_priv demo_connected)"
  by (simp_all add: demo_devices_def demo_connected_def is_reg_device_def add_reg_device_def no_devices_def
      um_find_emplace)

lemma device_registries_agree_witness:
  "let p = w_priv (snd (process (devices_handle demo_ext) [(''disconnect'', B_task demo_connect_task)] demo_devices)) in
    (is_reg_device ''d'' p \<longleftrightarrow> (\<exists>i. get_device_transport_id ''d'' p = Inr i))
    \<and> (is_reg_device ''d'' p \<longleftrightarrow> (\<exists>as. get_device_actions ''d'' p = Inr as))
    \<and> (is_reg_device ''d'' p \<longleftrightarrow> (\<exists>vs. get_device_variables ''d'' p = Inr vs))"
  by (rule device_registries_agree [of _ demo_connected])
    (simp add: devices_startup_def sql_exec_def demo_ext_def demo_connected_def demo_devices_def)

lemma connect_registers_witness:
  "let (r, w') = devices_handle demo_ext ''connect'' (B_task demo_connect_task) demo_devices; p = w_priv w' in
    r = Inr () \<and> w_sent w' = w_sent demo_devices
      @ [reply_message (tk_transport demo_connect_task) (success (JBool True) (response_to demo_connect_task))]
    \<and> get_device_transport_id ''d'' p = Inr (tk_transport demo_connect_task)
    \<and> get_device_actions ''d'' p = Inr (string_set [''go'']) \<and> get_device_variables ''d'' p = Inr (string_set [])
    \<and> (\<forall>k. k \<noteq> ''d'' \<longrightarrow> get_device_transport_id k p = get_device_transport_id k (w_priv demo_devices)
          \<and> get_device_actions k p = get_device_actions k (w_priv demo_devices)
          \<and> get_device_variables k p = get_device_variables k (w_priv demo_devices))"
  by (rule connect_registers [OF demo_connect_facts(1,2) _ demo_connect_facts(3) _ _ demo_connect_sql(1) _ demo_connect_ws
      demo_devices_inv(1) demo_devices_reg(1)]) simp_all

lemma reconnect_keeps_old_transport_witness:
  "devices_handle demo_ext ''connect'' (B_task demo_connect_task) demo_connected =
    (Inr (), demo_connected \<lparr>w_priv := w_priv demo_connected,
       w_sent := w_sent demo_connected
         @ [reply_message (tk_transport demo_connect_task) (success (JBool True) (response_to demo_connect_task))]\<rparr>)
   \<and> get_device_transport_id ''d'' (w_priv demo_connected) = Inr ''old'' \<and> tk_transport demo_connect_task = ''t''"
proof (intro conjI)
  show "devices_handle demo_ext ''connect'' (B_task demo_connect_task) demo_connected =
    (Inr (), demo_connected \<lparr>w_priv := w_priv demo_connected,
       w_sent := w_sent demo_connected
         @ [reply_message (tk_transport demo_connect_task) (success (JBool True) (response_to demo_connect_task))]\<rparr>)"
    by (rule reconnect_keeps_old_transport
        [OF demo_connect_facts(1,2) _ demo_connect_facts(3) _ _ demo_connect_sql(2) _ demo_connect_ws
          demo_devices_inv(2) demo_devices_reg(2)]) simp_all
qed (simp_all add: demo_connected_def get_device_transport_id_def map_at_def add_reg_device_def no_devices_def
      um_find_emplace demo_connect_facts)

definition demo_answer :: json_map where
  "demo_answer = [(''id'', JStr ''1''), (''metadata'', JMap [(''device-key'', JStr ''d''), (''transport'', JStr ''t'')]),
     (''result'', JBool True)]"

lemma command_roundtrip_witness:
  "devices_handle demo_ext ''request'' (B_task demo_connect_task) demo_connected =
      (Inr (), demo_connected \<lparr>w_sent := w_sent demo_connected @ [(''ws'', ''write'', B_transport (T_ws ''old''
         (serialize_request \<lparr>req_id = req_id (tk_request demo_connect_task), req_method = ''go'', req_params = JNull,
            req_metadata = [(''transport'', JStr (tk_transport demo_connect_task))]\<rparr>)))]\<rparr>)
    \<and> devices_handle demo_ext ''response'' (B_transport (T_ws ''old'' (to_string demo_answer))) demo_connected =
      (Inr (), demo_connected \<lparr>w_sent := w_sent demo_connected @ [(''ws'', ''write'', B_transport (T_ws (tk_transport demo_connect_task)
         (to_string (om_erase ''metadata'' demo_answer))))]\<rparr>)"
proof (rule command_roundtrip [OF demo_connect_facts(5) _ demo_connect_facts(4) demo_connect_ws])
  show "get_device_transport_id ''d'' (w_priv demo_connected) = Inr ''old''"
    by (simp add: demo_connected_def get_device_transport_id_def map_at_def add_reg_device_def no_devices_def
        um_find_emplace)
  show "parse_map (x_utf demo_ext) (to_string demo_answer) = Inr demo_answer"
    by (rule parse_map_to_string) (simp_all add: demo_answer_def json_wf_JMap om_inv_def)
  show "is_response demo_answer"
    "om_find ''metadata'' demo_answer = Some (JMap [(''device-key'', JStr ''d''), (''transport'', JStr ''t'')])"
    by (simp_all add: demo_answer_def is_response_def contains_def om_find_Cons)
qed (simp_all add: om_find_Cons device_request_def make_map_def om_merge_def demo_connect_facts)

end
