(* ===== verification/Platform_Link.thy ===== *)
theory Platform_Link
  imports Service
begin

text \<open>
  \<open>stream-manager/src/platform.cpp\<close>: the link of a manager to the platform. It listens to
  the web socket client: \<open>handshake\<close> when the connection is up, \<open>dispatcher\<close> for the frames
  of the platform, \<open>error\<close> for errors of the connection, and \<open>write\<close> for the replies of the
  manager's services to callers behind the platform.
\<close>

record link_impl =
  link_profile_key :: string
  link_manager_key :: string

text \<open>The two requests about the manager itself.\<close>

definition manager_request :: "string \<Rightarrow> link_impl \<Rightarrow> request_message" where
  "manager_request method p =
     \<lparr>req_id = JStr ''0'', req_method = method,
      req_params = JMap (make_map [(''key'', JStr (link_manager_key p))]),
      req_metadata = make_map [(''profile-key'', JStr (link_profile_key p))]\<rparr>"

definition link_dispatcher :: "'db ext \<Rightarrow> body \<Rightarrow> ('db, link_impl, unit) act" where
  "link_dispatcher X b =
     bindA (lift (body_transport b)) (\<lambda>transport.
     if tr_type transport = Ws then
       bindA (lift (as_ws transport)) (\<lambda>(ident, text).
       bindA (read_message X text) (\<lambda>message.
       if is_request message then
         (let (parsed, message) = parse_request message in
          bindA (lift parsed) (\<lambda>request.
          if contains (req_metadata request) ''transport'' then
            (let (md, message) = map_index ''metadata'' message in
             bindA (lift (value_index ''transport'' md)) (\<lambda>(v, md).
             bindA (lift (as_string v)) (\<lambda>caller.
             let message = om_set ''metadata'' md message in
             send X ''router'' ''dispatcher'' (B_transport (T_ws caller (to_string message))))))
          else if req_method request = ''disconnect'' then send X ''client'' ''close'' (B_string [])
          else skipA))
       else if contains message ''error'' then send X ''client'' ''close'' (B_string [])
       else if is_response message then
         bindA get_priv (\<lambda>p.
         send X ''client'' ''set_closing_message''
           (B_string (serialize_request (manager_request ''managers.disconnect'' p))))
       else skipA))
     else skipA)"

definition link_handshake :: "'db ext \<Rightarrow> body \<Rightarrow> ('db, link_impl, unit) act" where
  "link_handshake X b =
     bindA (lift (body_transport b)) (\<lambda>transport.
     bindA get_priv (\<lambda>p.
     send X ''client'' ''write''
       (B_transport (T_ws (tr_id transport) (serialize_request (manager_request ''managers.connect'' p))))))"

text \<open>The ten seconds the thread sleeps before it reconnects are not part of the model.\<close>

definition link_error :: "'db ext \<Rightarrow> body \<Rightarrow> ('db, link_impl, unit) act" where
  "link_error X b =
     bindA (lift (body_transport b)) (\<lambda>transport.
     if tr_type transport = Ws then
       bindA (lift (as_error transport)) (\<lambda>(ident, code).
       if code = Connection_reset \<or> code = Not_connected \<or> code = Connection_refused \<or> code = Eof
          \<or> code = Ws_closed
       then send X ''client'' ''reconnect'' (B_string [])
       else send X ''client'' ''close'' (B_transport (T_ws ident [])))
     else skipA)"

text \<open>
  The caller is put into the metadata of what goes to the platform. The test looks for the
  entry in the message, not in the metadata, so it overwrites the transport that is there.
\<close>

definition link_write :: "'db ext \<Rightarrow> body \<Rightarrow> ('db, link_impl, unit) act" where
  "link_write X b =
     bindA (lift (body_transport b)) (\<lambda>transport.
     if tr_type transport = Ws then
       bindA (lift (as_ws transport)) (\<lambda>(ident, text).
       bindA (read_message X text) (\<lambda>message.
       bindA (lift (if contains message ''metadata'' then as_map (fst (map_index ''metadata'' message)) else Inr []))
         (\<lambda>metadata.
       let metadata = (if \<not> contains message ''transport'' then om_set ''transport'' (JStr ident) metadata
                       else metadata);
           message = om_set ''metadata'' (JMap metadata) message
       in send X ''client'' ''write'' (B_transport (T_ws ident (to_string message))))))
     else skipA)"

definition link_startup :: "json_map \<Rightarrow> ('db, link_impl, unit) act" where
  "link_startup config =
     bindA (lift (as_string (fst (map_index ''profile-key'' config)))) (\<lambda>profile.
     bindA (lift (as_string (fst (map_index ''manager-key'' config)))) (\<lambda>manager.
     put_priv \<lparr>link_profile_key = profile, link_manager_key = manager\<rparr>))"

definition link_handle :: "'db ext \<Rightarrow> string \<Rightarrow> body \<Rightarrow> ('db, link_impl, unit) act" where
  "link_handle X command b =
     (if command = ''dispatcher'' then link_dispatcher X b
      else if command = ''handshake'' then link_handshake X b
      else if command = ''error'' then link_error X b
      else if command = ''write'' then link_write X b
      else skipA)"

interpretation link_svc: service link_handle "\<lambda>p. p = p0" for p0
  by unfold_locales
    (unfold link_handle_def link_dispatcher_def link_handshake_def link_error_def link_write_def
      read_message_def Let_def,
     (rule spec_any_rules TrueI | assumption)+)

section \<open>What goes to the platform\<close>

text \<open>
  A reply of a service that the manager sends to a caller behind the platform keeps
  every entry of the reply but the metadata, and carries the transport of the caller in
  its metadata, where the platform finds it; one message, to the client.
\<close>

lemma link_write_addresses_caller:
  assumes "parse_map (x_utf X) text = Inr m" "x_contacts X ''client'' = Some types"
    "om_find ''transport'' m = None"
    "om_find ''metadata'' m = None \<or> om_find ''metadata'' m = Some (JMap md)"
  shows "\<exists>out. link_handle X ''write'' (B_transport (T_ws caller text)) w =
      (Inr (), w \<lparr>w_sent := w_sent w @ [(''client'', ''write'', B_transport (T_ws caller (to_string out)))]\<rparr>)
    \<and> (\<forall>k. k \<noteq> ''metadata'' \<longrightarrow> om_find k out = om_find k m)
    \<and> (\<exists>out_md. om_find ''metadata'' out = Some (JMap out_md)
        \<and> om_find ''transport'' out_md = Some (JStr caller)
        \<and> (\<forall>k. k \<noteq> ''transport'' \<longrightarrow> om_find k out_md = (if om_find ''metadata'' m = None then None else om_find k md)))"
proof -
  define old where "old = (if om_find ''metadata'' m = None then [] else md)"
  have read: "(if contains m ''metadata'' then as_map (fst (map_index ''metadata'' m)) else Inr []) = Inr old"
    using assms(4) by (auto simp: contains_def old_def entry_def)
  define out where "out = om_set ''metadata'' (JMap (om_set ''transport'' (JStr caller) old)) m"
  have "link_handle X ''write'' (B_transport (T_ws caller text)) w =
      (Inr (), w \<lparr>w_sent := w_sent w @ [(''client'', ''write'', B_transport (T_ws caller (to_string out)))]\<rparr>)"
    using assms(1-3) read
    by (simp add: link_handle_def link_write_def read_message_def contains_def Let_def out_def)
  then show ?thesis
    by (intro exI [of _ out]) (auto simp: out_def om_find_set old_def)
qed

definition demo_link :: "(string list \<Rightarrow> sql_row list, link_impl) world" where
  "demo_link = \<lparr>w_db = (\<lambda>_. []), w_priv = \<lparr>link_profile_key = ''a.b'', link_manager_key = ''m''\<rparr>, w_sent = []\<rparr>"

lemma link_write_addresses_caller_witness:
  "\<exists>out. link_handle demo_ext ''write'' (B_transport (T_ws ''c'' (to_string [(''id'', JStr ''1'')]))) demo_link =
      (Inr (), demo_link \<lparr>w_sent := w_sent demo_link @ [(''client'', ''write'', B_transport (T_ws ''c'' (to_string out)))]\<rparr>)
    \<and> (\<forall>k. k \<noteq> ''metadata'' \<longrightarrow> om_find k out = om_find k [(''id'', JStr ''1'')])
    \<and> (\<exists>out_md. om_find ''metadata'' out = Some (JMap out_md)
        \<and> om_find ''transport'' out_md = Some (JStr ''c'')
        \<and> (\<forall>k. k \<noteq> ''transport'' \<longrightarrow> om_find k out_md
              = (if om_find ''metadata'' [(''id'', JStr ''1'')] = None then None else om_find k [])))"
proof (rule link_write_addresses_caller)
  show "parse_map (x_utf demo_ext) (to_string [(''id'', JStr ''1'')]) = Inr [(''id'', JStr ''1'')]"
    by (rule parse_map_to_string) (simp_all add: json_wf_JMap om_inv_def)
  show "x_contacts demo_ext ''client'' = Some [''list'']" by code_simp
qed (simp_all add: om_find_Cons)

end
