(* ===== verification/Platform.thy ===== *)
theory Platform
  imports Service
begin

text \<open>
  \<open>stream-platform/src\<close>: the services of the platform that managers connect to.
  \<open>router.cpp\<close> takes the frames of all connections, \<open>profile.cpp\<close> keeps the accounts and
  the cache of authenticated keys, \<open>managers.cpp\<close> the managers of the accounts and the
  connections of those that are online.
\<close>

section \<open>The router\<close>

definition platform_service_list :: "string list" where
  "platform_service_list = [''profile'', ''managers'', ''manager'']"

definition platform_quest_list :: "string list" where
  "platform_quest_list = [''profile.signup'', ''profile.login'', ''manager.info'']"

definition platform_task :: "string \<Rightarrow> request_message \<Rightarrow> task" where
  "platform_task transport r = \<lparr>tk_request = r, tk_transport = transport, tk_storage = []\<rparr>"

definition platform_dispatch :: "'db ext \<Rightarrow> string \<Rightarrow> json_map \<Rightarrow> ('db, unit, unit) act" where
  "platform_dispatch X transport message =
     bindA (lift (fst (parse_request message))) (\<lambda>r.
     let t = platform_task transport r in
     if contains (req_metadata r) ''manager-key'' then send X ''managers'' ''request'' (B_task t)
     else
       (let dispatcher = x_split X (req_method r) ''.'' in
        if length dispatcher > 1 then
          (let service_name = dispatcher ! 0;
               method_name = dispatcher ! 1;
               t = storage_emplace ''service.name'' service_name t;
               t = storage_emplace ''service.method'' method_name t
           in if contains (req_metadata r) ''profile-key'' then send X ''profile'' ''auth'' (B_task t)
              else if req_method r \<in> set platform_quest_list then send X service_name method_name (B_task t)
              else reply_error X t ''access is denied'')
        else reply_error X t ''not specified correctly method''))"

definition platform_dispatcher :: "'db ext \<Rightarrow> body \<Rightarrow> ('db, unit, unit) act" where
  "platform_dispatcher X b =
     bindA (lift (body_transport b)) (\<lambda>transport.
     if tr_type transport = Ws then
       bindA (lift (as_ws transport)) (\<lambda>(ident, text).
       bindA (read_message X text) (\<lambda>message.
       if is_request message then platform_dispatch X ident message
       else if is_response message then
         send X ''managers'' ''response'' (B_transport (T_ws ident (to_string message)))
       else if is_notify message then
         send X ''managers'' ''response'' (B_transport (T_ws ident (to_string message)))
       else skipA))
     else skipA)"

definition platform_service :: "'db ext \<Rightarrow> body \<Rightarrow> ('db, unit, unit) act" where
  "platform_service X b =
     bindA (lift (body_task b)) (\<lambda>t.
     let (service_name, t) = storage_index ''service.name'' t;
         (method_name, t) = storage_index ''service.method'' t
     in if service_name \<in> set platform_service_list then
          (case x_contacts X service_name of
             None \<Rightarrow> lift (Inl Out_of_range)
           | Some message_types \<Rightarrow>
               if method_name \<in> set message_types then send X service_name method_name (B_task t)
               else reply_error X t ''method not found'')
        else reply_error X t ''service not found'')"

definition platform_error :: "'db ext \<Rightarrow> body \<Rightarrow> ('db, unit, unit) act" where
  "platform_error X b =
     bindA (lift (body_transport b)) (\<lambda>transport.
     if tr_type transport = Ws then
       bindA (lift (as_error transport)) (\<lambda>(ident, code).
       if code = Connection_reset \<or> code = Not_connected \<or> code = Ws_closed
       then send X ''ws'' ''remove'' (B_transport (T_ws ident []))
       else send X ''ws'' ''close'' (B_transport (T_ws ident [])))
     else skipA)"

definition platform_handle :: "'db ext \<Rightarrow> string \<Rightarrow> body \<Rightarrow> ('db, unit, unit) act" where
  "platform_handle X command b =
     (if command = ''dispatcher'' then platform_dispatcher X b
      else if command = ''service'' then platform_service X b
      else if command = ''error'' then platform_error X b
      else skipA)"

section \<open>Profiles\<close>

record profile_impl =
  profiles_auth :: "string list"

definition profile_is_auth :: "string \<Rightarrow> profile_impl \<Rightarrow> bool" where
  "profile_is_auth key p \<longleftrightarrow> key \<in> set (profiles_auth p)"

definition profile_add_auth :: "string \<Rightarrow> profile_impl \<Rightarrow> profile_impl" where
  "profile_add_auth key p = p \<lparr>profiles_auth := us_emplace key (profiles_auth p)\<rparr>"

definition profile_remove_auth :: "string \<Rightarrow> profile_impl \<Rightarrow> profile_impl" where
  "profile_remove_auth key p = p \<lparr>profiles_auth := us_erase key (profiles_auth p)\<rparr>"

definition profile_signup :: "'db ext \<Rightarrow> body \<Rightarrow> ('db, profile_impl, unit) act" where
  "profile_signup X b =
     bindA (lift (body_task b)) (\<lambda>t.
     bindA (lift (param as_string ''login'' t)) (\<lambda>login.
     bindA (lift (param as_string ''password'' t)) (\<lambda>password.
     let r = response_to t in
     answer X t
       (if login \<noteq> [] \<and> password \<noteq> [] then
          caught X r
            (thenA (sql_exec X ''insert into profile (login,password) values (?,?);'' [login, password])
            (ret (success (JBool True) r)))
        else ret (fail ''login or password empty'' r)))))"

definition select_profile :: "'db ext \<Rightarrow> string \<Rightarrow> ('db, profile_impl, string \<times> string) act" where
  "select_profile X login =
     sql_each X ''select login, password from profile where login = ? limit 1;'' [login]
       (\<lambda>row _.
          bindE (col_ptr 0 row) (\<lambda>login_p.
          bindE (col_ptr 1 row) (\<lambda>password_p.
          Inr (case_option [] id login_p, case_option [] id password_p))))
       ([], [])"

definition profile_login :: "'db ext \<Rightarrow> body \<Rightarrow> ('db, profile_impl, unit) act" where
  "profile_login X b =
     bindA (lift (body_task b)) (\<lambda>t.
     bindA (lift (param as_string ''login'' t)) (\<lambda>login_param.
     bindA (lift (param as_string ''password'' t)) (\<lambda>password_param.
     let r = response_to t in
     answer X t
       (if login_param \<noteq> [] \<and> password_param \<noteq> [] then
          caught X r
            (bindA (select_profile X login_param) (\<lambda>(login, password).
             ret (if password_param = password then success (JStr (login @ ''.'' @ password)) r
                  else fail ''login or password is incorrect'' r)))
        else ret (fail ''login or password empty'' r)))))"

definition profile_auth :: "'db ext \<Rightarrow> body \<Rightarrow> ('db, profile_impl, unit) act" where
  "profile_auth X b =
     bindA (lift (body_task b)) (\<lambda>t.
     bindA (lift (metadata_string ''profile-key'' t)) (\<lambda>profile_key.
     let profile = x_split X profile_key ''.'' in
     bindA get_priv (\<lambda>p.
     if profile_is_auth profile_key p then
       bindA (lift (vec_at profile 0)) (\<lambda>login0.
       send X ''router'' ''service'' (B_task (storage_emplace ''profile.login'' login0 t)))
     else
       tryA
         (bindA (lift (vec_at profile 0)) (\<lambda>login0.
          bindA (select_profile X login0) (\<lambda>(login, password).
          bindA (lift (vec_at profile 1)) (\<lambda>password1.
          if password1 = password then
            bindA get_priv (\<lambda>p.
            thenA (put_priv (profile_add_auth profile_key p))
            (send X ''router'' ''service'' (B_task (storage_emplace ''profile.login'' login0 t))))
          else reply_error X t ''authentication bad''))))
         (\<lambda>e. reply_error X t (x_what X e)))))"

definition profile_startup :: "'db ext \<Rightarrow> ('db, profile_impl, unit) act" where
  "profile_startup X =
     thenA (sql_exec X
       ''create table if not exists profile (   login text primary key not null,   password text not null);'' [])
     (put_priv \<lparr>profiles_auth = []\<rparr>)"

definition profile_handle :: "'db ext \<Rightarrow> string \<Rightarrow> body \<Rightarrow> ('db, profile_impl, unit) act" where
  "profile_handle X command b =
     (if command = ''signup'' then profile_signup X b
      else if command = ''login'' then profile_login X b
      else if command = ''auth'' then profile_auth X b
      else skipA)"

section \<open>Managers\<close>

record managers_impl =
  managers_reg :: "(string \<times> string) list"

definition is_reg_manager :: "string \<Rightarrow> managers_impl \<Rightarrow> bool" where
  "is_reg_manager key p \<longleftrightarrow> um_find key (managers_reg p) \<noteq> None"

definition is_reg_manager_id :: "string \<Rightarrow> managers_impl \<Rightarrow> bool" where
  "is_reg_manager_id ident p \<longleftrightarrow> list_ex (\<lambda>e. snd e = ident) (managers_reg p)"

definition add_reg_manager :: "string \<Rightarrow> string \<Rightarrow> managers_impl \<Rightarrow> managers_impl" where
  "add_reg_manager key ident p = p \<lparr>managers_reg := um_emplace key ident (managers_reg p)\<rparr>"

definition remove_reg_manager :: "string \<Rightarrow> managers_impl \<Rightarrow> managers_impl" where
  "remove_reg_manager key p = p \<lparr>managers_reg := um_erase key (managers_reg p)\<rparr>"

definition get_manager_transport_id :: "string \<Rightarrow> managers_impl \<Rightarrow> string result" where
  "get_manager_transport_id key p =
     (case um_find key (managers_reg p) of Some i \<Rightarrow> Inr i | None \<Rightarrow> Inl Out_of_range)"

text \<open>The result is set before the trusted url is sent, which may raise.\<close>

definition managers_add :: "'db ext \<Rightarrow> body \<Rightarrow> ('db, managers_impl, unit) act" where
  "managers_add X b =
     bindA (lift (body_task b)) (\<lambda>t.
     bindA (lift (param as_string ''name'' t)) (\<lambda>name.
     let (profile_login, t) = storage_index ''profile.login'' t; r = response_to t in
     answer X t
       (if name \<noteq> [] \<and> length name \<le> 6 then
          (let key = profile_login @ ''.'' @ name in
           caught X r
             (thenA (sql_exec X ''insert into managers (profile_login,name, key) values (?,?, ?);''
                [profile_login, name, key])
             (let url = profile_login @ ''/'' @ key;
                  r = success (JMap (make_map [(''key'', JStr key)])) r
              in caught X r
                   (thenA (send X ''http'' ''add_trusted_url'' (B_string url)) (ret r)))))
        else ret (fail ''name manager empty or size > 6'' r))))"

definition disconnect_request :: "task \<Rightarrow> request_message" where
  "disconnect_request t =
     \<lparr>req_id = req_id (tk_request t), req_method = ''disconnect'', req_params = JNull, req_metadata = []\<rparr>"

definition managers_delete :: "'db ext \<Rightarrow> body \<Rightarrow> ('db, managers_impl, unit) act" where
  "managers_delete X b =
     bindA (lift (body_task b)) (\<lambda>t.
     bindA (lift (param as_string ''key'' t)) (\<lambda>key.
     let (profile_login, t) = storage_index ''profile.login'' t; r = response_to t in
     answer X t
       (if key \<noteq> [] then
          caught X r
            (thenA (sql_exec X ''delete from managers where key = ? and profile_login =  ?;'' [key, profile_login])
            (let url = profile_login @ ''/'' @ key; r = success (JBool True) r in
             caught X r
               (thenA (send X ''http'' ''remove_trusted_url'' (B_string url))
               (bindA get_priv (\<lambda>p.
                thenA
                  (if is_reg_manager key p then
                     bindA (lift (get_manager_transport_id key p)) (\<lambda>ident.
                     write_ws X ident (serialize_request (disconnect_request t)))
                   else skipA)
                (bindA get_priv (\<lambda>p.
                 thenA (put_priv (remove_reg_manager key p))
                (ret r))))))))
        else ret (fail ''key manager empty'' r))))"

text \<open>The function called on a row has three parameters, the query two columns.\<close>

definition managers_list :: "'db ext \<Rightarrow> body \<Rightarrow> ('db, managers_impl, unit) act" where
  "managers_list X b =
     bindA (lift (body_task b)) (\<lambda>t.
     let (profile_login, t) = storage_index ''profile.login'' t; r = response_to t in
     answer X t
       (caught X r
          (bindA (sql_each X ''select name, key from managers where profile_login = ?;'' [profile_login]
              (\<lambda>row list.
                 bindE (col_string 0 row) (\<lambda>name.
                 bindE (col_string 1 row) (\<lambda>key.
                 bindE (col_string 2 row) (\<lambda>status.
                 Inr (list @ [JMap (om_set ''key'' (JStr key) (om_set ''name'' (JStr name) []))])))))
              [])
          (\<lambda>list. ret (success (JArr list) r)))))"

definition managers_connect :: "'db ext \<Rightarrow> body \<Rightarrow> ('db, managers_impl, unit) act" where
  "managers_connect X b =
     bindA (lift (body_task b)) (\<lambda>t.
     bindA (lift (param as_string ''key'' t)) (\<lambda>key.
     let (profile_login, t) = storage_index ''profile.login'' t; r = response_to t in
     answer X t
       (caught X r
          (bindA (sql_int X ''select count(*) from managers where key = ? and profile_login = ?''
             [key, profile_login]) (\<lambda>count_managers_key.
           if count_managers_key > 0 then
             bindA get_priv (\<lambda>p.
             thenA (put_priv (add_reg_manager key (tk_transport t) p))
             (ret (success (JBool True) r)))
           else ret (fail ''manager not found'' r))))))"

definition managers_disconnect :: "'db ext \<Rightarrow> body \<Rightarrow> ('db, managers_impl, unit) act" where
  "managers_disconnect X b =
     bindA (lift (body_task b)) (\<lambda>t.
     bindA (lift (param as_string ''key'' t)) (\<lambda>key.
     let (profile_login, t) = storage_index ''profile.login'' t in
     tryA
       (bindA get_priv (\<lambda>p. put_priv (remove_reg_manager key p)))
       (\<lambda>e. reply_error X t (x_what X e))))"

definition managers_request :: "'db ext \<Rightarrow> body \<Rightarrow> ('db, managers_impl, unit) act" where
  "managers_request X b =
     bindA (lift (body_task b)) (\<lambda>t.
     bindA (lift (metadata_string ''manager-key'' t)) (\<lambda>manager_key.
     bindA get_priv (\<lambda>p.
     if is_reg_manager manager_key p then
       bindA (lift (get_manager_transport_id manager_key p)) (\<lambda>manager_transport_id.
       let t = set_task_metadata
                 (om_set ''transport'' (JStr (tk_transport t)) (req_metadata (tk_request t))) t
       in write_ws X manager_transport_id (serialize_request (tk_request t)))
     else reply_error X t ''manager not connection'')))"

definition managers_response :: "'db ext \<Rightarrow> body \<Rightarrow> ('db, managers_impl, unit) act" where
  "managers_response X b =
     bindA (lift (body_transport b)) (\<lambda>transport.
     bindA (lift (as_ws transport)) (\<lambda>(ident, text).
     bindA (read_message X text) (\<lambda>message.
     let (md, message) = map_index ''metadata'' message in
     bindA (lift (value_index ''transport'' md)) (\<lambda>(v, md).
     bindA (lift (as_string v)) (\<lambda>transports_id.
     write_ws X transports_id (to_string (om_erase ''metadata'' message)))))))"

definition managers_startup :: "'db ext \<Rightarrow> ('db, managers_impl, unit) act" where
  "managers_startup X =
     thenA (sql_exec X
       ''create table if not exists managers (   profile_login text not null,   name text not null,   key text primary key not null);'' [])
     (put_priv \<lparr>managers_reg = []\<rparr>)"

definition managers_handle :: "'db ext \<Rightarrow> string \<Rightarrow> body \<Rightarrow> ('db, managers_impl, unit) act" where
  "managers_handle X command b =
     (if command = ''add'' then managers_add X b
      else if command = ''delete'' then managers_delete X b
      else if command = ''list'' then managers_list X b
      else if command = ''connect'' then managers_connect X b
      else if command = ''disconnect'' then managers_disconnect X b
      else if command = ''request'' then managers_request X b
      else if command = ''response'' then managers_response X b
      else skipA)"

section \<open>The services keep their invariants\<close>

interpretation platform_svc: service platform_handle "\<lambda>_. True"
  by unfold_locales
    (unfold platform_handle_def platform_dispatcher_def platform_dispatch_def platform_service_def
      platform_error_def read_message_def Let_def,
     (rule spec_any_rules spec_case_option TrueI | assumption)+)

lemma profile_inv_add: "distinct (profiles_auth p) \<Longrightarrow> distinct (profiles_auth (profile_add_auth k p))"
  by (simp add: profile_add_auth_def distinct_us_emplace)

interpretation profile_svc: service profile_handle "\<lambda>p. distinct (profiles_auth p)"
  by unfold_locales
    (unfold profile_handle_def profile_signup_def profile_login_def profile_auth_def select_profile_def Let_def,
     (rule spec_any_rules TrueI profile_inv_add | assumption)+)

lemma managers_inv_step:
  "um_inv (managers_reg p) \<Longrightarrow> um_inv (managers_reg (add_reg_manager k i p))"
  "um_inv (managers_reg p) \<Longrightarrow> um_inv (managers_reg (remove_reg_manager k p))"
  by (simp_all add: add_reg_manager_def remove_reg_manager_def um_inv_emplace um_inv_erase)

interpretation managers_svc: service managers_handle "\<lambda>p. um_inv (managers_reg p)"
  by unfold_locales
    (unfold managers_handle_def managers_add_def managers_delete_def managers_list_def managers_connect_def
      managers_disconnect_def managers_request_def managers_response_def write_ws_def read_message_def Let_def,
     (rule spec_any_rules TrueI managers_inv_step | assumption)+)

section \<open>Every frame is answered or handed on\<close>

text \<open>What the dispatcher of the platform sends for a frame.\<close>

definition platform_dispatched :: "'db ext \<Rightarrow> string \<Rightarrow> sent \<Rightarrow> bool" where
  "platform_dispatched X ident s \<longleftrightarrow>
     (\<exists>r. s = reply_message ident r) \<or>
     (\<exists>text. s = (''managers'', ''response'', B_transport (T_ws ident text))) \<or>
     (\<exists>t. s = (''managers'', ''request'', B_task t) \<and> tk_transport t = ident
        \<and> contains (req_metadata (tk_request t)) ''manager-key'') \<or>
     (\<exists>t. s = (''profile'', ''auth'', B_task t) \<and> tk_transport t = ident
        \<and> contains (req_metadata (tk_request t)) ''profile-key'') \<or>
     (\<exists>t service method rest. s = (service, method, B_task t) \<and> tk_transport t = ident
        \<and> req_method (tk_request t) \<in> {''profile.signup'', ''profile.login'', ''manager.info''}
        \<and> x_split X (req_method (tk_request t)) ''.'' = service # method # rest)"

lemma platform_split: "length xs > 1 \<Longrightarrow> \<exists>rest. xs = xs ! 0 # xs ! 1 # rest"
  by (cases xs; cases "tl xs") auto

lemma sends_one_platform_dispatch: "sends_one (platform_dispatched X ident) (platform_dispatch X ident message)"
  unfolding platform_dispatch_def Let_def
  using platform_split
  by (intro sends_one_rules quiet_rules)
    (auto simp: platform_dispatched_def platform_task_def platform_quest_list_def)

text \<open>
  A frame the platform accepts makes its dispatcher send exactly one message. A request
  that names a manager goes to the managers, whoever sent it: it is the manager that
  checks the user. Another request goes to the check of its profile key, to the method
  when a guest may call it, or is refused; a response or notification goes to the managers.
\<close>

lemma platform_dispatcher_sends_one:
  assumes "platform_handle X ''dispatcher'' (B_transport (T_ws ident text)) w = (Inr (), w')"
  shows "\<exists>s. platform_dispatched X ident s \<and> w_sent w' = w_sent w @ [s]"
proof -
  have dispatch: "sends_one (platform_dispatched X ident)
      (if is_request message then platform_dispatch X ident message
       else if is_response message then
         send X ''managers'' ''response'' (B_transport (T_ws ident (to_string message)))
       else if is_notify message then
         send X ''managers'' ''response'' (B_transport (T_ws ident (to_string message)))
       else skipA)" for message
    using message_kinds [of message]
    by (auto intro!: sends_one_rules sends_one_platform_dispatch simp: platform_dispatched_def)
  have "sends_one (platform_dispatched X ident) (platform_dispatcher X (B_transport (T_ws ident text)))"
    by (simp add: platform_dispatcher_def read_message_def) (rule sends_one_lift, rule dispatch)
  from sends_oneD [OF this, of w "()" w'] assms show ?thesis by (simp add: platform_handle_def)
qed

section \<open>The relay between callers and managers\<close>

text \<open>
  The relay. A request for a registered manager is written to the connection of the
  manager with its id, method, parameters and metadata, the caller added as the
  \<open>transport\<close> of the metadata; a frame with that transport in its metadata is written
  back to the caller without the metadata.
\<close>

lemma platform_relay:
  assumes "metadata_string ''manager-key'' t = Inr key" "um_find key (managers_reg (w_priv w)) = Some manager"
    "x_contacts X ''ws'' = Some types"
    "parse_map (x_utf X) answer_text = Inr m" "om_find ''metadata'' m = Some (JMap md)"
    "om_find ''transport'' md = Some (JStr (tk_transport t))"
  shows "managers_handle X ''request'' (B_task t) w =
      (Inr (), w \<lparr>w_sent := w_sent w @ [(''ws'', ''write'', B_transport (T_ws manager
         (serialize_request ((tk_request t) \<lparr>req_metadata :=
            om_set ''transport'' (JStr (tk_transport t)) (req_metadata (tk_request t))\<rparr>))))]\<rparr>)
    \<and> managers_handle X ''response'' (B_transport (T_ws ident answer_text)) w =
      (Inr (), w \<lparr>w_sent := w_sent w @ [(''ws'', ''write'', B_transport (T_ws (tk_transport t)
         (to_string (om_erase ''metadata'' m))))]\<rparr>)"
  using assms
  by (simp add: managers_handle_def managers_request_def managers_response_def is_reg_manager_def
      get_manager_transport_id_def write_ws_def set_task_metadata_def read_message_def value_index_def)

text \<open>
  The relay of responses does not look at the sender: any connection, also one of no
  registered manager, can have a frame of its choice written to any other connection.
\<close>

lemma response_sender_unchecked:
  assumes "x_contacts X ''ws'' = Some types"
    "json_wf (JMap m)" "printable (JMap m)" "om_find ''metadata'' m = Some (JMap [(''transport'', JStr victim)])"
    "managers_reg (w_priv w) = []"
  shows "managers_handle X ''response'' (B_transport (T_ws attacker (to_string m))) w =
    (Inr (), w \<lparr>w_sent := w_sent w @ [(''ws'', ''write'', B_transport (T_ws victim
       (to_string (om_erase ''metadata'' m))))]\<rparr>)"
  using assms parse_map_to_string [of m "x_utf X"]
  by (simp add: managers_handle_def managers_response_def write_ws_def read_message_def value_index_def om_find_Cons)

text \<open>
  Deleting a manager of the caller's profile that is online sends, in this order, the
  url that is no longer trusted to the http provider, a \<open>disconnect\<close> request to the
  manager and the reply to the caller, and the manager is no longer registered; the others
  stay.
\<close>

lemma delete_manager_disconnects:
  assumes "param as_string ''key'' t = Inr key" "key \<noteq> []"
    "um_find ''profile.login'' (tk_storage t) = Some login"
    "sql_exec X ''delete from managers where key = ? and profile_login =  ?;'' [key, login] w = (Inr (), w1)"
    "um_find key (managers_reg (w_priv w)) = Some manager"
    "x_contacts X ''ws'' = Some types" "x_contacts X ''http'' = Some http_types"
  shows "\<exists>w'. managers_handle X ''delete'' (B_task t) w = (Inr (), w')
    \<and> w_sent w' = w_sent w @
        [(''http'', ''remove_trusted_url'', B_string (login @ ''/'' @ key)),
         (''ws'', ''write'', B_transport (T_ws manager (serialize_request (disconnect_request t)))),
         reply_message (tk_transport t) (success (JBool True) (response_to t))]
    \<and> (\<forall>k. um_find k (managers_reg (w_priv w')) = (if k = key then None else um_find k (managers_reg (w_priv w))))"
proof -
  have login: "storage_index ''profile.login'' t = (login, t)" using assms(3) by (simp add: storage_index_def)
  note frame = sql_frame [OF assms(4)]
  have reg: "is_reg_manager key (w_priv w)" "get_manager_transport_id key (w_priv w) = Inr manager"
    using assms(5) by (simp_all add: is_reg_manager_def get_manager_transport_id_def)
  show ?thesis
    using assms(1,2,4,6,7) login frame reg
    by (simp add: managers_handle_def managers_delete_def answer_def caught_def respond_def write_ws_def
        reply_message_def remove_reg_manager_def um_find_erase Let_def)
qed

section \<open>Examples\<close>

definition demo_platform :: "(string list \<Rightarrow> sql_row list, unit) world" where
  "demo_platform = \<lparr>w_db = (\<lambda>_. []), w_priv = (), w_sent = []\<rparr>"

definition demo_managers :: "(string list \<Rightarrow> sql_row list, managers_impl) world" where
  "demo_managers = \<lparr>w_db = (\<lambda>_. []), w_priv = \<lparr>managers_reg = [(''bob.m'', ''mt'')]\<rparr>, w_sent = []\<rparr>"

definition demo_manager_task :: task where
  "demo_manager_task = demo_task [(''manager-key'', JStr ''bob.m'')] (JMap [(''key'', JStr ''bob.m'')])
     [(''profile.login'', ''bob'')]"

definition demo_relayed :: json_map where
  "demo_relayed = [(''id'', JStr ''1''), (''metadata'', JMap [(''transport'', JStr ''t'')]), (''result'', JBool True)]"

lemma demo_manager_facts:
  "metadata_string ''manager-key'' demo_manager_task = Inr ''bob.m''"
  "param as_string ''key'' demo_manager_task = Inr ''bob.m''"
  "um_find ''profile.login'' (tk_storage demo_manager_task) = Some ''bob''"
  "um_find ''bob.m'' (managers_reg (w_priv demo_managers)) = Some ''mt''"
  "tk_transport demo_manager_task = ''t''"
  by (simp_all add: demo_manager_task_def demo_task_def metadata_string_def map_index_def om_find_Cons
      param_def value_index_def um_find_Cons demo_managers_def)

lemma demo_relayed_facts:
  "json_wf (JMap demo_relayed)" "printable (JMap demo_relayed)"
  "om_find ''metadata'' demo_relayed = Some (JMap [(''transport'', JStr ''t'')])"
  by (simp_all add: demo_relayed_def json_wf_JMap om_inv_def om_find_Cons)

lemma demo_platform_contacts:
  "x_contacts demo_ext ''ws'' = Some [''list'']" "x_contacts demo_ext ''http'' = Some [''list'']"
  by code_simp+

lemma platform_dispatcher_sends_one_witness:
  "\<exists>s. platform_dispatched demo_ext ''t'' s
     \<and> w_sent (snd (platform_handle demo_ext ''dispatcher'' (B_transport (T_ws ''t'' ''{}'')) demo_platform))
       = w_sent demo_platform @ [s]"
proof (rule platform_dispatcher_sends_one)
  have "fst (platform_handle demo_ext ''dispatcher'' (B_transport (T_ws ''t'' ''{}'')) demo_platform) = Inr ()"
    by code_simp
  then show "platform_handle demo_ext ''dispatcher'' (B_transport (T_ws ''t'' ''{}'')) demo_platform
      = (Inr (), snd (platform_handle demo_ext ''dispatcher'' (B_transport (T_ws ''t'' ''{}'')) demo_platform))"
    by (simp add: prod_eq_iff)
qed

lemma platform_relay_witness:
  "managers_handle demo_ext ''request'' (B_task demo_manager_task) demo_managers =
      (Inr (), demo_managers \<lparr>w_sent := w_sent demo_managers @ [(''ws'', ''write'', B_transport (T_ws ''mt''
         (serialize_request ((tk_request demo_manager_task) \<lparr>req_metadata :=
            om_set ''transport'' (JStr (tk_transport demo_manager_task)) (req_metadata (tk_request demo_manager_task))\<rparr>))))]\<rparr>)
    \<and> managers_handle demo_ext ''response'' (B_transport (T_ws ''mt'' (to_string demo_relayed))) demo_managers =
      (Inr (), demo_managers \<lparr>w_sent := w_sent demo_managers @ [(''ws'', ''write'',
         B_transport (T_ws (tk_transport demo_manager_task) (to_string (om_erase ''metadata'' demo_relayed))))]\<rparr>)"
  by (rule platform_relay [OF demo_manager_facts(1,4) demo_platform_contacts(1)
        parse_map_to_string [OF demo_relayed_facts(1,2)] demo_relayed_facts(3)])
    (simp add: om_find_Cons demo_manager_facts)

lemma response_sender_unchecked_witness:
  "managers_handle demo_ext ''response'' (B_transport (T_ws ''evil'' (to_string demo_relayed)))
      (demo_managers \<lparr>w_priv := \<lparr>managers_reg = []\<rparr>\<rparr>) =
    (Inr (), (demo_managers \<lparr>w_priv := \<lparr>managers_reg = []\<rparr>\<rparr>)
       \<lparr>w_sent := w_sent (demo_managers \<lparr>w_priv := \<lparr>managers_reg = []\<rparr>\<rparr>)
          @ [(''ws'', ''write'', B_transport (T_ws ''t'' (to_string (om_erase ''metadata'' demo_relayed))))]\<rparr>)"
  by (rule response_sender_unchecked [OF demo_platform_contacts(1) demo_relayed_facts]) simp

lemma delete_manager_disconnects_witness:
  "\<exists>w'. managers_handle demo_ext ''delete'' (B_task demo_manager_task) demo_managers = (Inr (), w')
    \<and> w_sent w' = w_sent demo_managers @
        [(''http'', ''remove_trusted_url'', B_string (''bob'' @ ''/'' @ ''bob.m'')),
         (''ws'', ''write'', B_transport (T_ws ''mt'' (serialize_request (disconnect_request demo_manager_task)))),
         reply_message (tk_transport demo_manager_task) (success (JBool True) (response_to demo_manager_task))]
    \<and> (\<forall>k. um_find k (managers_reg (w_priv w'))
          = (if k = ''bob.m'' then None else um_find k (managers_reg (w_priv demo_managers))))"
  by (rule delete_manager_disconnects [OF demo_manager_facts(2) _ demo_manager_facts(3) _ demo_manager_facts(4)
        demo_platform_contacts])
    (simp_all add: sql_exec_def demo_ext_def demo_managers_def)

end
