(* ===== verification/Device.thy ===== *)
theory Device
  imports Service
begin

text \<open>
  \<open>stream-device/src\<close>: a device. \<open>manager.cpp\<close> is its link to the manager, \<open>control.cpp\<close> the
  switch it controls. \<open>manager_info.cpp\<close> and \<open>settings.cpp\<close>, the two small services that
  answer with the configuration, are here as well.
\<close>

section \<open>The switch\<close>

text \<open>The status is not initialised: reading it before a command is undefined behaviour.\<close>

record control_impl =
  status :: "bool option"

definition control_reply :: "'db ext \<Rightarrow> task \<Rightarrow> response_message \<Rightarrow> ('db, control_impl, unit) act" where
  "control_reply X t r = send X ''manager'' ''write'' (B_transport (T_ws (tk_transport t) (serialize_response r)))"

definition control_notify :: "'db ext \<Rightarrow> task \<Rightarrow> bool \<Rightarrow> ('db, control_impl, unit) act" where
  "control_notify X t v =
     send X ''manager'' ''write''
       (B_transport (T_ws (tk_transport t) (serialize_notify (make_notify ''control.status'' (JBool v)))))"

definition control_on :: "'db ext \<Rightarrow> body \<Rightarrow> ('db, control_impl, unit) act" where
  "control_on X b =
     bindA (lift (body_task b)) (\<lambda>t.
     bindA get_priv (\<lambda>p.
     thenA (put_priv (p \<lparr>status := Some True\<rparr>))
     (thenA (control_reply X t (success (JBool True) (response_to t)))
     (control_notify X t True))))"

definition control_off :: "'db ext \<Rightarrow> body \<Rightarrow> ('db, control_impl, unit) act" where
  "control_off X b =
     bindA (lift (body_task b)) (\<lambda>t.
     bindA get_priv (\<lambda>p.
     thenA (put_priv (p \<lparr>status := Some False\<rparr>))
     (thenA (control_reply X t (success (JBool True) (response_to t)))
     (control_notify X t False))))"

definition control_status :: "'db ext \<Rightarrow> body \<Rightarrow> ('db, control_impl, unit) act" where
  "control_status X b =
     bindA (lift (body_task b)) (\<lambda>t.
     bindA get_priv (\<lambda>p.
     bindA (lift (case status p of Some v \<Rightarrow> Inr v | None \<Rightarrow> Inl Undefined)) (\<lambda>v.
     control_reply X t (success (JBool v) (response_to t)))))"

definition control_startup :: "('db, control_impl, unit) act" where
  "control_startup = put_priv \<lparr>status = None\<rparr>"

definition control_handle :: "'db ext \<Rightarrow> string \<Rightarrow> body \<Rightarrow> ('db, control_impl, unit) act" where
  "control_handle X command b =
     (if command = ''on'' then control_on X b
      else if command = ''off'' then control_off X b
      else if command = ''status'' then control_status X b
      else skipA)"

section \<open>The link to the manager\<close>

record device_impl =
  dev_device_key :: string
  dev_manager_key :: string
  dev_profile_key :: string

definition device_service_list :: "string list" where
  "device_service_list = [''control'']"

definition device_keys :: "device_impl \<Rightarrow> json_map" where
  "device_keys p = make_map [(''manager-key'', JStr (dev_manager_key p)), (''user-key'', JStr (dev_profile_key p))]"

text \<open>
  A request of the manager. The caller is read from the metadata before anything else;
  when the method is not found, the error goes into the frame that came in, and an empty
  frame is what is sent.
\<close>

definition device_dispatch :: "'db ext \<Rightarrow> json_map \<Rightarrow> ('db, device_impl, unit) act" where
  "device_dispatch X message =
     (let (md, message) = map_index ''metadata'' message in
      bindA (lift (value_index ''transport'' md)) (\<lambda>(v, md).
      bindA (lift (as_string v)) (\<lambda>caller.
      let message = om_set ''metadata'' md message in
      bindA (lift (fst (parse_request message))) (\<lambda>request.
      let t = \<lparr>tk_request = request, tk_transport = caller, tk_storage = []\<rparr> in
      if contains (req_metadata request) ''transport'' then
        (let dispatcher = x_split X (req_method request) ''.'' in
         if length dispatcher > 1 then
           (let service_name = dispatcher ! 0; method_name = dispatcher ! 1 in
            if service_name \<in> set device_service_list then
              (case x_contacts X service_name of
                 None \<Rightarrow> lift (Inl Out_of_range)
               | Some message_types \<Rightarrow>
                   if method_name \<in> set message_types then send X service_name method_name (B_task t)
                   else send X ''ws'' ''write'' (B_transport (T_ws caller [])))
            else reply_error X t ''service not found'')
         else skipA)
      else if req_method request = ''disconnect'' then send X ''client'' ''close'' (B_string [])
      else skipA))))"

definition device_closing_request :: "device_impl \<Rightarrow> request_message" where
  "device_closing_request p =
     \<lparr>req_id = JStr ''0'', req_method = ''devices.disconnect'',
      req_params = JMap (make_map [(''key'', JStr (dev_device_key p))]), req_metadata = device_keys p\<rparr>"

definition device_dispatcher :: "'db ext \<Rightarrow> body \<Rightarrow> ('db, device_impl, unit) act" where
  "device_dispatcher X b =
     bindA (lift (body_transport b)) (\<lambda>transport.
     if tr_type transport = Ws then
       bindA (lift (as_ws transport)) (\<lambda>(ident, text).
       bindA (read_message X text) (\<lambda>message.
       if is_request message then device_dispatch X message
       else if contains message ''error'' then send X ''client'' ''close'' (B_string [])
       else if is_response message then
         bindA get_priv (\<lambda>p.
         send X ''client'' ''set_closing_message'' (B_string (serialize_request (device_closing_request p))))
       else skipA))
     else skipA)"

definition connect_request :: "device_impl \<Rightarrow> request_message" where
  "connect_request p =
     \<lparr>req_id = JStr ''0'', req_method = ''devices.connect'',
      req_params = JMap (make_map
        [(''key'', JStr (dev_device_key p)),
         (''actions'', JArr [JStr ''control.on'', JStr ''control.off'']),
         (''variables'', JArr [JStr ''control.status''])]),
      req_metadata = device_keys p\<rparr>"

definition device_handshake :: "'db ext \<Rightarrow> body \<Rightarrow> ('db, device_impl, unit) act" where
  "device_handshake X b =
     bindA (lift (body_transport b)) (\<lambda>transport.
     bindA get_priv (\<lambda>p.
     send X ''client'' ''write'' (B_transport (T_ws (tr_id transport) (serialize_request (connect_request p))))))"

definition device_error :: "'db ext \<Rightarrow> body \<Rightarrow> ('db, device_impl, unit) act" where
  "device_error X b =
     bindA (lift (body_transport b)) (\<lambda>transport.
     if tr_type transport = Ws then
       bindA (lift (as_error transport)) (\<lambda>(ident, code).
       if code = Connection_reset \<or> code = Not_connected \<or> code = Connection_refused \<or> code = Eof
          \<or> code = Ws_closed
       then send X ''client'' ''reconnect'' (B_string [])
       else send X ''client'' ''close'' (B_transport (T_ws ident [])))
     else skipA)"

definition sign_metadata :: "device_impl \<Rightarrow> string \<Rightarrow> json_map \<Rightarrow> json_map" where
  "sign_metadata p ident metadata =
     om_set ''user-key'' (JStr (dev_profile_key p))
       (om_set ''manager-key'' (JStr (dev_manager_key p))
         (om_set ''device-key'' (JStr (dev_device_key p))
           (om_set ''transport'' (JStr ident) metadata)))"

definition device_write :: "'db ext \<Rightarrow> body \<Rightarrow> ('db, device_impl, unit) act" where
  "device_write X b =
     bindA (lift (body_transport b)) (\<lambda>transport.
     if tr_type transport = Ws then
       bindA (lift (as_ws transport)) (\<lambda>(ident, text).
       bindA (read_message X text) (\<lambda>message.
       bindA (lift (if contains message ''metadata'' then as_map (fst (map_index ''metadata'' message)) else Inr []))
         (\<lambda>metadata.
       bindA get_priv (\<lambda>p.
       let message = om_set ''metadata'' (JMap (sign_metadata p ident metadata)) message
       in send X ''client'' ''write'' (B_transport (T_ws ident (to_string message)))))))
     else skipA)"

definition device_startup :: "json_map \<Rightarrow> ('db, device_impl, unit) act" where
  "device_startup config =
     bindA (lift (as_string (fst (map_index ''device-key'' config)))) (\<lambda>device.
     bindA (lift (as_string (fst (map_index ''manager-key'' config)))) (\<lambda>manager.
     bindA (lift (as_string (fst (map_index ''profile-key'' config)))) (\<lambda>profile.
     put_priv \<lparr>dev_device_key = device, dev_manager_key = manager, dev_profile_key = profile\<rparr>)))"

definition device_handle :: "'db ext \<Rightarrow> string \<Rightarrow> body \<Rightarrow> ('db, device_impl, unit) act" where
  "device_handle X command b =
     (if command = ''dispatcher'' then device_dispatcher X b
      else if command = ''handshake'' then device_handshake X b
      else if command = ''error'' then device_error X b
      else if command = ''write'' then device_write X b
      else skipA)"

section \<open>The services that answer with the configuration\<close>

record info_impl =
  info_manager_key :: string

definition info_handler :: "'db ext \<Rightarrow> body \<Rightarrow> ('db, info_impl, unit) act" where
  "info_handler X b =
     bindA (lift (body_task b)) (\<lambda>t.
     bindA get_priv (\<lambda>p.
     respond X t (success (JStr (info_manager_key p)) (response_to t))))"

definition info_handle :: "'db ext \<Rightarrow> string \<Rightarrow> body \<Rightarrow> ('db, info_impl, unit) act" where
  "info_handle X command b = (if command = ''info'' then info_handler X b else skipA)"

definition info_startup :: "json_map \<Rightarrow> ('db, info_impl, unit) act" where
  "info_startup config =
     bindA (lift (if contains config ''manager-key'' then as_string (fst (map_index ''manager-key'' config))
                  else Inr [])) (\<lambda>key.
     put_priv \<lparr>info_manager_key = key\<rparr>)"

record settings_impl =
  settings_config :: json_map

definition settings_handler :: "'db ext \<Rightarrow> body \<Rightarrow> ('db, settings_impl, unit) act" where
  "settings_handler X b =
     bindA (lift (body_transport b)) (\<lambda>transport.
     if tr_type transport = Ws then
       bindA (lift (as_ws transport)) (\<lambda>(ident, text).
       bindA (read_message X text) (\<lambda>message.
       bindA (lift (fst (parse_request message))) (\<lambda>request.
       bindA get_priv (\<lambda>p.
       let response =
         (if req_method request = ''get_settings'' then make_response ''2'' (JMap (settings_config p))
          else (make_response ''2'' (JStr [])) \<lparr>res_error := Some (make_error methodNot_found ''method not found'')\<rparr>)
       in write_ws X ident (serialize_response response)))))
     else skipA)"

section \<open>The services keep their invariants\<close>

text \<open>The keys of the link never change; the switch has no invariant beyond its type.\<close>

interpretation control_svc: service control_handle "\<lambda>_. True"
  by unfold_locales
    (unfold control_handle_def control_on_def control_off_def control_status_def control_reply_def control_notify_def,
     (rule spec_any_rules spec_case_option TrueI | assumption)+)

interpretation device_svc: service device_handle "\<lambda>p. p = p0" for p0
  by unfold_locales
    (unfold device_handle_def device_dispatcher_def device_dispatch_def device_handshake_def device_error_def
      device_write_def read_message_def reply_error_def write_ws_def Let_def split_def,
     (rule spec_any_rules spec_case_option TrueI | assumption)+)

section \<open>The switch remembers the last command\<close>

text \<open>What the switch gives its link to write: a reply with a result, and the notification.\<close>

definition control_answer :: "task \<Rightarrow> bool \<Rightarrow> sent" where
  "control_answer t b = (''manager'', ''write'',
     B_transport (T_ws (tk_transport t) (serialize_response (success (JBool b) (response_to t)))))"

definition control_notification :: "task \<Rightarrow> bool \<Rightarrow> sent" where
  "control_notification t b = (''manager'', ''write'',
     B_transport (T_ws (tk_transport t) (serialize_notify (make_notify ''control.status'' (JBool b)))))"

fun command_messages :: "string \<times> task \<Rightarrow> sent list" where
  "command_messages (c, t) = [control_answer t True, control_notification t (c = ''on'')]"

lemma control_command_run:
  assumes "c \<in> {''on'', ''off''}" "x_contacts X ''manager'' = Some types"
  shows "\<exists>w'. control_handle X c (B_task t) w = (Inr (), w') \<and> status (w_priv w') = Some (c = ''on'')
    \<and> w_sent w' = w_sent w @ command_messages (c, t)"
  using assms
  by (auto simp: control_handle_def control_on_def control_off_def control_reply_def control_notify_def
      control_answer_def control_notification_def)

text \<open>
  C36: whatever sequence of commands the switch gets, its status is the last of them, and a
  query that follows is answered with it. What it gave its link to write meanwhile is exactly,
  for each command in turn, the reply \<open>true\<close> with the id of the command and the notification of
  the new status, both for the connection of the command, and then the answer to the query.
\<close>

theorem status_is_last_command:
  assumes "x_contacts X ''manager'' = Some types" "set (map fst cmds) \<subseteq> {''on'', ''off''}"
    and "last_command \<in> {''on'', ''off''}"
  shows "\<exists>w'. process (control_handle X) (map (\<lambda>(c, t). (c, B_task t)) (cmds @ [(last_command, lt), (''status'', qt)])) w
      = (Inr (), w')
    \<and> status (w_priv w') = Some (last_command = ''on'')
    \<and> w_sent w' = w_sent w @ concat (map command_messages (cmds @ [(last_command, lt)]))
        @ [control_answer qt (last_command = ''on'')]"
  using assms(2)
proof (induction cmds arbitrary: w)
  case Nil
  obtain w1 where w1: "control_handle X last_command (B_task lt) w = (Inr (), w1)"
    "status (w_priv w1) = Some (last_command = ''on'')" "w_sent w1 = w_sent w @ command_messages (last_command, lt)"
    using control_command_run [OF assms(3,1), of lt w] by auto
  have "control_handle X ''status'' (B_task qt) w1 =
      (Inr (), w1 \<lparr>w_sent := w_sent w1 @ [control_answer qt (last_command = ''on'')]\<rparr>)"
    using assms(1) w1(2)
    by (simp add: control_handle_def control_status_def control_reply_def control_answer_def)
  then show ?case using w1 by simp
next
  case (Cons cmd cmds)
  obtain c t where cmd: "cmd = (c, t)" by fastforce
  obtain w1 where w1: "control_handle X c (B_task t) w = (Inr (), w1)" "w_sent w1 = w_sent w @ command_messages (c, t)"
    using control_command_run [OF _ assms(1), of c t w] Cons.prems by (auto simp: cmd)
  from Cons.IH [of w1] Cons.prems show ?case by (auto simp: cmd w1)
qed

definition demo_switch_task :: task where
  "demo_switch_task = demo_task [] JNull []"

definition demo_switch :: "(string list \<Rightarrow> sql_row list, control_impl) world" where
  "demo_switch = \<lparr>w_db = (\<lambda>_. []), w_priv = \<lparr>status = None\<rparr>, w_sent = []\<rparr>"

lemma status_is_last_command_witness:
  "\<exists>w'. process (control_handle demo_ext) (map (\<lambda>(c, t). (c, B_task t))
        ([(''off'', demo_switch_task), (''on'', demo_switch_task)] @
         [(''off'', demo_switch_task), (''status'', demo_switch_task)])) demo_switch
      = (Inr (), w')
    \<and> status (w_priv w') = Some (''off'' = ''on'')
    \<and> w_sent w' = w_sent demo_switch @ concat (map command_messages
          ([(''off'', demo_switch_task), (''on'', demo_switch_task)] @ [(''off'', demo_switch_task)]))
        @ [control_answer demo_switch_task (''off'' = ''on'')]"
proof (rule status_is_last_command)
  show "x_contacts demo_ext ''manager'' = Some [''list'']" by code_simp
qed simp_all

end
