(* ===== verification/Mailbox.thy ===== *)
theory Mailbox
  imports Prelude
begin

text \<open>
  \<open>stream-core/src/messaging\<close>: the mailbox of an actor. \<open>mail_box\<close> is the interface the
  actors use, here a locale; \<open>blocking_mail_queue\<close> is its only implementation, with a list
  for the senders, a list for the reader and a cache. A null \<open>shared_ptr\<close> is \<open>None\<close>.
  Each operation runs under the lock of the queue, or, for the cache, in the thread of the
  reader, so each is one step.
\<close>

section \<open>The interface\<close>

datatype enqueue_result = Enqueued | Unblocked_reader | Queue_closed

text \<open>
  What \<open>mail_box\<close> promises: a first-in first-out queue of the messages that wait, and
  beside it a first-in first-out cache that only the reader uses.
\<close>

locale mail_box =
  fixes put :: "'m \<Rightarrow> 'q \<Rightarrow> enqueue_result \<times> 'q"
    and get :: "'q \<Rightarrow> 'm option \<times> 'q"
    and push :: "'m option \<Rightarrow> 'q \<Rightarrow> bool \<times> 'q"
    and pop :: "'q \<Rightarrow> 'm option \<times> 'q"
    and waiting :: "'q \<Rightarrow> 'm list"
    and stored :: "'q \<Rightarrow> 'm list"
  assumes put_waiting: "waiting (snd (put m q)) = waiting q @ [m]"
    and put_stored: "stored (snd (put m q)) = stored q"
    and get_none: "waiting q = [] \<Longrightarrow> fst (get q) = None \<and> waiting (snd (get q)) = []"
    and get_some: "waiting q = m # ms \<Longrightarrow> fst (get q) = Some m \<and> waiting (snd (get q)) = ms"
    and get_stored: "stored (snd (get q)) = stored q"
    and push_none: "push None q = (False, q)"
    and push_some: "fst (push (Some m) q)" "stored (snd (push (Some m) q)) = stored q @ [m]"
    and push_waiting: "waiting (snd (push r q)) = waiting q"
    and pop_none: "stored q = [] \<Longrightarrow> fst (pop q) = None \<and> stored (snd (pop q)) = []"
    and pop_some: "stored q = m # ms \<Longrightarrow> fst (pop q) = Some m \<and> stored (snd (pop q)) = ms"
    and pop_waiting: "waiting (snd (pop q)) = waiting q"
begin

definition pending :: "'q \<Rightarrow> 'm list" where
  "pending q = stored q @ waiting q"

lemma pending_put: "pending (snd (put m q)) = pending q @ [m]"
  by (simp add: pending_def put_waiting put_stored)

lemma put_all: "waiting (fold (\<lambda>m q. snd (put m q)) ms q) = waiting q @ ms"
  "stored (fold (\<lambda>m q. snd (put m q)) ms q) = stored q"
  by (induction ms arbitrary: q) (simp_all add: put_waiting put_stored)

lemma get_None_iff: "fst (get q) = None \<longleftrightarrow> waiting q = []"
  by (cases "waiting q") (auto dest: get_none get_some)

lemma pop_None_iff: "fst (pop q) = None \<longleftrightarrow> stored q = []"
  by (cases "stored q") (auto dest: pop_none pop_some)

lemma get_SomeD: "get q = (Some m, q') \<Longrightarrow> waiting q = m # waiting q' \<and> stored q' = stored q"
  using get_stored [of q] by (cases "waiting q") (auto dest: get_none get_some)

lemma pop_SomeD: "pop q = (Some m, q') \<Longrightarrow> stored q = m # stored q' \<and> waiting q' = waiting q"
  using pop_waiting [of q] by (cases "stored q") (auto dest: pop_none pop_some)

lemma get_NoneD: "get q = (None, q') \<Longrightarrow> waiting q = [] \<and> waiting q' = [] \<and> stored q' = stored q"
  using get_stored [of q] by (cases "waiting q") (auto dest: get_none get_some)

lemma pop_NoneD: "pop q = (None, q') \<Longrightarrow> stored q = [] \<and> stored q' = [] \<and> waiting q' = waiting q"
  using pop_waiting [of q] by (cases "stored q") (auto dest: pop_none pop_some)

text \<open>What was put is got in the same order, when the queue was empty.\<close>

lemma put_get_fifo:
  "waiting q = [] \<Longrightarrow> fst (get (fold (\<lambda>m q. snd (put m q)) (m # ms) q)) = Some m"
  using get_some [of "fold (\<lambda>m q. snd (put m q)) (m # ms) q" m ms] put_all(1) [of "m # ms" q] by simp

end

section \<open>blocking\_mail\_queue\<close>

record 'm blocking_mail_queue =
  mail_queue :: "'m list"
  local_queue :: "'m list"
  cache :: "'m list"

definition empty_mail_queue :: "'m blocking_mail_queue" where
  "empty_mail_queue = \<lparr>mail_queue = [], local_queue = [], cache = []\<rparr>"

definition mq_put :: "'m \<Rightarrow> 'm blocking_mail_queue \<Rightarrow> enqueue_result \<times> 'm blocking_mail_queue" where
  "mq_put m q = (Enqueued, q \<lparr>mail_queue := mail_queue q @ [m]\<rparr>)"

text \<open>\<open>splice\<close> moves the whole list in front of the local one, which is empty here.\<close>

definition mq_sync :: "'m blocking_mail_queue \<Rightarrow> 'm blocking_mail_queue" where
  "mq_sync q = q \<lparr>local_queue := mail_queue q @ local_queue q, mail_queue := []\<rparr>"

definition mq_get :: "'m blocking_mail_queue \<Rightarrow> 'm option \<times> 'm blocking_mail_queue" where
  "mq_get q =
     (let q = (if local_queue q = [] then mq_sync q else q) in
      case local_queue q of
        m # ms \<Rightarrow> (Some m, q \<lparr>local_queue := ms\<rparr>)
      | [] \<Rightarrow> (None, q))"

definition mq_push_to_cache :: "'m option \<Rightarrow> 'm blocking_mail_queue \<Rightarrow> bool \<times> 'm blocking_mail_queue" where
  "mq_push_to_cache r q =
     (case r of Some m \<Rightarrow> (True, q \<lparr>cache := cache q @ [m]\<rparr>) | None \<Rightarrow> (False, q))"

definition mq_pop_to_cache :: "'m blocking_mail_queue \<Rightarrow> 'm option \<times> 'm blocking_mail_queue" where
  "mq_pop_to_cache q =
     (case cache q of m # ms \<Rightarrow> (Some m, q \<lparr>cache := ms\<rparr>) | [] \<Rightarrow> (None, q))"

text \<open>The messages that wait, oldest first: the reader's list, then the senders' list.\<close>

definition mq_waiting :: "'m blocking_mail_queue \<Rightarrow> 'm list" where
  "mq_waiting q = local_queue q @ mail_queue q"

interpretation mq: mail_box mq_put mq_get mq_push_to_cache mq_pop_to_cache mq_waiting cache
  by unfold_locales
    (auto simp: mq_put_def mq_get_def mq_sync_def mq_push_to_cache_def mq_pop_to_cache_def mq_waiting_def Let_def
      split: list.splits option.splits)

lemma mq_pending: "mq.pending q = cache q @ local_queue q @ mail_queue q"
  by (simp add: mq.pending_def mq_waiting_def)

definition mq_put_all :: "'m list \<Rightarrow> 'm blocking_mail_queue \<Rightarrow> 'm blocking_mail_queue" where
  "mq_put_all ms q = fold (\<lambda>m q. snd (mq_put m q)) ms q"

section \<open>Any interleaving of the operations\<close>

datatype 'm mail_op = Put_mail 'm | Get_mail | Push_cache 'm | Pop_cache

fun mq_step :: "'m mail_op \<Rightarrow> 'm blocking_mail_queue \<Rightarrow> 'm option \<times> 'm blocking_mail_queue" where
  "mq_step (Put_mail m) q = (None, snd (mq_put m q))"
| "mq_step Get_mail q = mq_get q"
| "mq_step (Push_cache m) q = (None, snd (mq_push_to_cache (Some m) q))"
| "mq_step Pop_cache q = mq_pop_to_cache q"

text \<open>The specification: two plain queues, one for the messages that wait and one for the cache.\<close>

fun fifo_step :: "'m mail_op \<Rightarrow> 'm list \<times> 'm list \<Rightarrow> 'm option \<times> 'm list \<times> 'm list" where
  "fifo_step (Put_mail m) (ws, cs) = (None, ws @ [m], cs)"
| "fifo_step Get_mail (ws, cs) = (case ws of [] \<Rightarrow> (None, [], cs) | w # ws \<Rightarrow> (Some w, ws, cs))"
| "fifo_step (Push_cache m) (ws, cs) = (None, ws, cs @ [m])"
| "fifo_step Pop_cache (ws, cs) = (case cs of [] \<Rightarrow> (None, ws, []) | c # cs \<Rightarrow> (Some c, ws, cs))"

text \<open>What the operations of a list return, one after the other, and what is left.\<close>

fun run_ops :: "('m mail_op \<Rightarrow> 'q \<Rightarrow> 'm option \<times> 'q) \<Rightarrow> 'm mail_op list \<Rightarrow> 'q \<Rightarrow> 'm option list \<times> 'q" where
  "run_ops step [] q = ([], q)"
| "run_ops step (x # xs) q = (let (r, q) = step x q; (rs, q) = run_ops step xs q in (r # rs, q))"

definition both_queues :: "'m blocking_mail_queue \<Rightarrow> 'm list \<times> 'm list" where
  "both_queues q = (mq_waiting q, cache q)"

lemma step_refines: "fifo_step x (both_queues q) = (fst (mq_step x q), both_queues (snd (mq_step x q)))"
proof (cases x)
  case (Put_mail m)
  then show ?thesis by (simp add: both_queues_def mq.put_waiting mq.put_stored)
next
  case Get_mail
  then show ?thesis
    using mq.get_none [of q] mq.get_some [of q] mq.get_stored [of q]
    by (cases "mq_waiting q") (auto simp: both_queues_def)
next
  case (Push_cache m)
  then show ?thesis by (simp add: both_queues_def mq.push_some mq.push_waiting)
next
  case Pop_cache
  then show ?thesis
    using mq.pop_none [of q] mq.pop_some [of q] mq.pop_waiting [of q]
    by (cases "cache q") (auto simp: both_queues_def)
qed

lemma run_refines:
  "run_ops fifo_step xs (both_queues q) = (fst (run_ops mq_step xs q), both_queues (snd (run_ops mq_step xs q)))"
  by (induction xs arbitrary: q) (simp_all add: step_refines split_def Let_def)

text \<open>What was put, and what the reads of a run returned.\<close>

fun puts_of :: "'m mail_op list \<Rightarrow> 'm list" where
  "puts_of [] = []"
| "puts_of (Put_mail m # xs) = m # puts_of xs"
| "puts_of (x # xs) = puts_of xs"

fun gets_of :: "'m mail_op list \<Rightarrow> 'm option list \<Rightarrow> 'm list" where
  "gets_of (Get_mail # xs) (r # rs) = case_option [] (\<lambda>m. [m]) r @ gets_of xs rs"
| "gets_of (x # xs) (r # rs) = gets_of xs rs"
| "gets_of _ _ = []"

lemma fifo_conserves:
  "gets_of xs (fst (run_ops fifo_step xs (ws, cs))) @ fst (snd (run_ops fifo_step xs (ws, cs))) = ws @ puts_of xs"
proof (induction xs arbitrary: ws cs)
  case (Cons x xs)
  show ?case
  proof (cases x)
    case Get_mail
    with Cons.IH [of "[]" cs] Cons.IH [of "tl ws" cs] show ?thesis by (cases ws) (simp_all add: split_def Let_def)
  next
    case Pop_cache
    with Cons.IH [of ws "[]"] Cons.IH [of ws "tl cs"] show ?thesis by (cases cs) (simp_all add: split_def Let_def)
  qed (use Cons.IH in \<open>simp_all add: split_def Let_def\<close>)
qed simp

text \<open>
  C37: the mailbox is first-in first-out across its two lists however the operations are
  interleaved: for any sequence of puts and reads of the queue and of the cache, from the new
  mailbox, every operation returns what it returns on two plain queues, one for the mail and
  one for the cache, and the same is left in both; so what the reads returned, followed by what
  still waits, is what was put, in that order and each message once.
\<close>

theorem mailbox_fifo:
  "let (results, q) = run_ops mq_step xs empty_mail_queue in
     run_ops fifo_step xs ([], []) = (results, mq_waiting q, cache q)
     \<and> gets_of xs results @ mq_waiting q = puts_of xs"
proof -
  have new: "both_queues (empty_mail_queue :: 'a blocking_mail_queue) = ([], [])"
    by (simp add: both_queues_def mq_waiting_def empty_mail_queue_def)
  obtain results q where run: "run_ops mq_step xs empty_mail_queue = (results, q)" by fastforce
  have "run_ops fifo_step xs ([], []) = (results, mq_waiting q, cache q)"
    using run_refines [of xs empty_mail_queue] unfolding new run by (simp add: both_queues_def)
  with fifo_conserves [of xs "[]" "[]"] run show ?thesis by simp
qed

end
