(* ===== verification/Actor.thy ===== *)
theory Actor
  imports Mailbox
begin

text \<open>
  \<open>stream-core/src/actor\<close>, \<open>behavior\<close> and \<open>standard_handlers\<close>: commands compared by hash,
  the table of handlers, the three handlers every actor has, its contacts, and the loop
  that processes the mailbox.
\<close>

section \<open>Commands\<close>

type_synonym u64 = "64 word"

text \<open>\<open>H\<close> is \<open>std::hash<std::string>\<close>: any function, not assumed to be injective.\<close>

record type_action =
  ta_body :: string
  ta_hash :: u64

definition make_type_action :: "(string \<Rightarrow> u64) \<Rightarrow> string \<Rightarrow> type_action" where
  "make_type_action H s = \<lparr>ta_body = s, ta_hash = H s\<rparr>"

text \<open>\<open>operator==\<close> compares the hashes only.\<close>

definition ta_eq :: "type_action \<Rightarrow> type_action \<Rightarrow> bool" where
  "ta_eq a b \<longleftrightarrow> ta_hash a = ta_hash b"

section \<open>The table of handlers\<close>

type_synonym 'h reactions = "(type_action \<times> 'h) list"

definition reactions_find :: "type_action \<Rightarrow> 'h reactions \<Rightarrow> 'h option" where
  "reactions_find c rs = map_option snd (find (\<lambda>p. ta_eq (fst p) c) rs)"

text \<open>\<open>add\<close>: a name that is in the table keeps its handler.\<close>

definition reactions_add :: "type_action \<Rightarrow> 'h \<Rightarrow> 'h reactions \<Rightarrow> bool \<times> 'h reactions" where
  "reactions_add a h rs =
     (case reactions_find a rs of None \<Rightarrow> (True, rs @ [(a, h)]) | Some _ \<Rightarrow> (False, rs))"

definition reactions_execute :: "(string \<Rightarrow> u64) \<Rightarrow> type_action \<Rightarrow> 'h reactions \<Rightarrow> 'h result" where
  "reactions_execute H c rs =
     (case reactions_find c rs of
        Some h \<Rightarrow> Inr h
      | None \<Rightarrow>
          (case reactions_find (make_type_action H ''skip'') rs of
             Some h \<Rightarrow> Inr h
           | None \<Rightarrow> Inl Out_of_range))"

definition attach_handler :: "(string \<Rightarrow> u64) \<Rightarrow> string \<Rightarrow> 'h \<Rightarrow> 'h reactions \<Rightarrow> 'h reactions" where
  "attach_handler H name h rs = snd (reactions_add (make_type_action H name) h rs)"

definition attach_all :: "(string \<Rightarrow> u64) \<Rightarrow> (string \<times> 'h) list \<Rightarrow> 'h reactions \<Rightarrow> 'h reactions" where
  "attach_all H hs rs = fold (\<lambda>(name, h). attach_handler H name h) hs rs"

text \<open>\<open>local_actor::initialize\<close>, given the three standard handlers.\<close>

definition initialize_reactions :: "(string \<Rightarrow> u64) \<Rightarrow> 'h \<Rightarrow> 'h \<Rightarrow> 'h \<Rightarrow> 'h reactions" where
  "initialize_reactions H sync skip channel =
     attach_all H [(''sync_contacts'', sync), (''skip'', skip), (''add_channel'', channel)] []"

definition message_types :: "'h reactions \<Rightarrow> string list" where
  "message_types rs = sort (remdups (map (ta_body \<circ> fst) rs))"

section \<open>Addresses, messages and the standard handlers\<close>

record address =
  addr_id :: nat
  addr_name :: string

text \<open>The body is a \<open>messaging::any\<close>: reading it as another type is undefined behaviour.\<close>

datatype 'b payload =
    P_address "address option"
  | P_channel "(nat \<times> string) option"
  | P_command string
  | P_data 'b

record 'b message =
  msg_sender :: address
  msg_command :: type_action
  msg_body :: "'b payload"

definition make_message :: "(string \<Rightarrow> u64) \<Rightarrow> address \<Rightarrow> string \<Rightarrow> 'b payload \<Rightarrow> 'b message" where
  "make_message H sender name b = \<lparr>msg_sender = sender, msg_command = make_type_action H name, msg_body = b\<rparr>"

record local_actor =
  contacts :: "(string \<times> address) list"
  channels :: "(string \<times> nat) list"

definition la_addresses :: "address \<Rightarrow> local_actor \<Rightarrow> local_actor" where
  "la_addresses a la = la \<lparr>contacts := um_emplace (addr_name a) a (contacts la)\<rparr>"

definition la_channel :: "nat \<times> string \<Rightarrow> local_actor \<Rightarrow> local_actor" where
  "la_channel c la = la \<lparr>channels := um_emplace (snd c) (fst c) (channels la)\<rparr>"

definition la_address :: "string \<Rightarrow> local_actor \<Rightarrow> address result" where
  "la_address name la = (case um_find name (contacts la) of Some a \<Rightarrow> Inr a | None \<Rightarrow> Inl Out_of_range)"

text \<open>With a null address or channel, the branch for the error dereferences it.\<close>

definition sync_contacts :: "'b message \<Rightarrow> local_actor \<Rightarrow> local_actor result" where
  "sync_contacts m la =
     (case msg_body m of
        P_address (Some a) \<Rightarrow> Inr (la_addresses a la)
      | _ \<Rightarrow> Inl Undefined)"

definition add_channel :: "'b message \<Rightarrow> local_actor \<Rightarrow> local_actor result" where
  "add_channel m la =
     (case msg_body m of
        P_channel (Some c) \<Rightarrow> Inr (la_channel c la)
      | _ \<Rightarrow> Inl Undefined)"

text \<open>The sender is told the command that was not understood when it handles \<open>error\<close>.\<close>

definition skip_handler ::
    "(string \<Rightarrow> u64) \<Rightarrow> (address \<Rightarrow> string list) \<Rightarrow> address \<Rightarrow> 'b message \<Rightarrow> (address \<times> 'b message) list" where
  "skip_handler H types self m =
     (if ''error'' \<in> set (types (msg_sender m))
      then [(msg_sender m, make_message H self ''error'' (P_command (ta_body (msg_command m))))]
      else [])"

section \<open>Dispatch by name\<close>

lemma reactions_find_Nil [simp]: "reactions_find c [] = None"
  by (simp add: reactions_find_def)

lemma find_append: "find P (xs @ ys) = (case find P xs of Some x \<Rightarrow> Some x | None \<Rightarrow> find P ys)"
  by (induction xs) auto

lemma reactions_find_add:
  "reactions_find c (snd (reactions_add a h rs)) =
     (case reactions_find c rs of
        Some g \<Rightarrow> Some g
      | None \<Rightarrow> if ta_eq a c then Some h else None)"
  by (auto simp: reactions_add_def reactions_find_def find_append ta_eq_def split: option.splits)

lemma reactions_find_attach:
  "reactions_find c (attach_handler H name h rs) =
     (case reactions_find c rs of
        Some g \<Rightarrow> Some g
      | None \<Rightarrow> if H name = ta_hash c then Some h else None)"
  by (simp add: attach_handler_def reactions_find_add ta_eq_def make_type_action_def)

lemma reactions_find_attach_all:
  "reactions_find c (attach_all H hs rs) =
     (case reactions_find c rs of
        Some g \<Rightarrow> Some g
      | None \<Rightarrow> map_option snd (find (\<lambda>p. H (fst p) = ta_hash c) hs))"
proof (induction hs arbitrary: rs)
  case Nil
  then show ?case by (simp add: attach_all_def split: option.splits)
next
  case (Cons p hs)
  have "attach_all H (p # hs) rs = attach_all H hs (attach_handler H (fst p) (snd p) rs)"
    by (simp add: attach_all_def split_def)
  with Cons.IH [of "attach_handler H (fst p) (snd p) rs"] show ?case
    by (simp add: reactions_find_attach split: option.splits)
qed

lemma find_by_hash:
  assumes "inj_on H (insert c (fst ` set hs))"
  shows "map_option snd (find (\<lambda>p. H (fst p) = H c) hs) = map_of hs c"
  using assms
proof (induction hs)
  case Nil
  then show ?case by simp
next
  case (Cons p hs)
  have "inj_on H (insert c (fst ` set hs))"
    using Cons.prems by (rule inj_on_subset) auto
  moreover have "H (fst p) = H c \<longleftrightarrow> fst p = c"
    using inj_onD [OF Cons.prems, of "fst p" c] by auto
  ultimately show ?case using Cons.IH by simp
qed

text \<open>
  C38: dispatch. When the hash tells the names of the handlers and of the command apart, a
  message is handled by the handler that was attached first under its command, the three
  standard ones before those of the service, and by \<open>skip\<close> when there is none: the
  dispatch of an actor never raises.
\<close>

theorem dispatch_by_name:
  assumes "inj_on H (insert c ({''sync_contacts'', ''skip'', ''add_channel''} \<union> fst ` set hs))"
  shows "reactions_execute H (make_type_action H c)
      (attach_all H hs (initialize_reactions H sync skip channel)) =
    Inr (case map_of ([(''sync_contacts'', sync), (''skip'', skip), (''add_channel'', channel)] @ hs) c of
           Some h \<Rightarrow> h | None \<Rightarrow> skip)"
proof -
  let ?all = "[(''sync_contacts'', sync), (''skip'', skip), (''add_channel'', channel)] @ hs"
  have table: "attach_all H hs (initialize_reactions H sync skip channel) = attach_all H ?all []"
    by (simp add: initialize_reactions_def attach_all_def)
  have look: "reactions_find (make_type_action H d) (attach_all H ?all []) = map_of ?all d"
    if "d \<in> {c, ''skip''}" for d
  proof -
    have "inj_on H (insert d (fst ` set ?all))"
      using assms by (rule inj_on_subset) (use that in auto)
    from find_by_hash [OF this] show ?thesis
      by (simp only: reactions_find_attach_all make_type_action_def reactions_find_Nil option.case type_action.simps)
  qed
  show ?thesis
    unfolding table reactions_execute_def using look [of c] look [of "''skip''"]
    by (simp split: option.splits)
qed

definition demo_hash :: "string \<Rightarrow> u64" where
  "demo_hash s = foldr (\<lambda>c h. of_char c + 257 * h) s 0"

lemma dispatch_by_name_witness:
  "reactions_execute demo_hash (make_type_action demo_hash ''add'')
      (attach_all demo_hash [(''add'', 3), (''skip'', 4)] (initialize_reactions demo_hash (0 :: nat) 1 2)) = Inr 3"
proof -
  have "inj_on demo_hash (insert ''add'' ({''sync_contacts'', ''skip'', ''add_channel''} \<union> fst ` set [(''add'', 3 :: nat), (''skip'', 4)]))"
    by (simp add: inj_on_def demo_hash_def of_char_def)
  from dispatch_by_name [OF this, of 0 1 2] show ?thesis by simp
qed

text \<open>
  Commands are the same when their hashes are: a command whose name is attached nowhere,
  with the hash of a name that is attached, runs the handler of that name.
\<close>

lemma collision_runs_other_handler:
  assumes "H c = H name"
  shows "reactions_execute H (make_type_action H c) (attach_all H ((name, h) # hs) []) = Inr h"
proof -
  have "reactions_find (make_type_action H c) (attach_all H ((name, h) # hs) []) = Some h"
    using assms by (simp add: reactions_find_attach_all make_type_action_def)
  then show ?thesis by (simp add: reactions_execute_def)
qed

end
