(* ===== verification/Actor_Run.thy ===== *)
theory Actor_Run
  imports Actor
begin

text \<open>
  \<open>async_actor::run\<close> and \<open>blocking_actor::run\<close>: how an actor works through its mailbox.
  Handling a message is \<open>exec\<close>: it changes the state of the actor, may put messages into
  the actor's own mailbox, and may raise, which ends the process. \<open>consume\<close> is the
  abstract specification: a plain queue of messages.
\<close>

section \<open>The loop of async\_actor\<close>

datatype executable_result = Resume | Awaiting | Job_done | Shutdown

type_synonym ('m, 's) exec = "'m \<Rightarrow> 's \<Rightarrow> ('s \<times> 'm list) result"

text \<open>The handler that \<open>reactions_.execute\<close> finds for the command of the message.\<close>

definition execute_message ::
    "(string \<Rightarrow> u64) \<Rightarrow> ('b message, 's) exec reactions \<Rightarrow> ('b message, 's) exec" where
  "execute_message H rs m s = bindE (reactions_execute H (msg_command m) rs) (\<lambda>h. h m s)"

text \<open>
  The bounded loop: the cache first, then the mailbox. The result tells whether it stopped
  because there was nothing left, in which case the actor awaits.
\<close>

fun run_loop :: "('m, 's) exec \<Rightarrow> nat \<Rightarrow> 's \<Rightarrow> 'm blocking_mail_queue \<Rightarrow> (bool \<times> 's \<times> 'm blocking_mail_queue) result" where
  "run_loop exec 0 s q = Inr (False, s, q)"
| "run_loop exec (Suc n) s q =
     (case mq_pop_to_cache q of
        (Some m, q) \<Rightarrow> bindE (exec m s) (\<lambda>(s, out). run_loop exec n s (mq_put_all out q))
      | (None, q) \<Rightarrow>
          (case mq_get q of
             (Some m, q) \<Rightarrow> bindE (exec m s) (\<lambda>(s, out). run_loop exec n s (mq_put_all out q))
           | (None, q) \<Rightarrow> Inr (True, s, q)))"

lemma mq_get_shrinks: "(Some m, q') = mq_get q \<Longrightarrow> length (mq_waiting q') < length (mq_waiting q)"
  using mq.get_SomeD [of q m q'] by simp

text \<open>What was not handled moves to the cache.\<close>

function drain :: "'m blocking_mail_queue \<Rightarrow> 'm blocking_mail_queue" where
  "drain q =
     (case mq_get q of
        (Some m, q') \<Rightarrow> drain (snd (mq_push_to_cache (Some m) q'))
      | (None, q') \<Rightarrow> q')"
  by pat_completeness auto

termination
  by (relation "measure (\<lambda>q. length (mq_waiting q))") (simp_all add: mq.push_waiting mq_get_shrinks)

declare drain.simps [simp del]

definition has_next_message :: "'m blocking_mail_queue \<Rightarrow> bool \<times> 'm blocking_mail_queue" where
  "has_next_message q = (let (r, q) = mq_get q in mq_push_to_cache r q)"

definition async_run ::
    "('m, 's) exec \<Rightarrow> nat \<Rightarrow> 's \<Rightarrow> 'm blocking_mail_queue \<Rightarrow> (executable_result \<times> 's \<times> 'm blocking_mail_queue) result" where
  "async_run exec max_throughput s q =
     bindE (run_loop exec max_throughput s q) (\<lambda>(awaiting, s, q).
     if awaiting then Inr (Awaiting, s, q)
     else (let (more, q) = has_next_message (drain q)
           in Inr (if more then Awaiting else Resume, s, q)))"

text \<open>
  A worker runs the actor again as long as it resumes; the first argument bounds the runs.
\<close>

fun run_rounds ::
    "nat \<Rightarrow> ('m, 's) exec \<Rightarrow> nat \<Rightarrow> 's \<Rightarrow> 'm blocking_mail_queue \<Rightarrow> (executable_result \<times> 's \<times> 'm blocking_mail_queue) result" where
  "run_rounds 0 exec max_throughput s q = Inr (Resume, s, q)"
| "run_rounds (Suc k) exec max_throughput s q =
     bindE (async_run exec max_throughput s q) (\<lambda>(r, s, q).
     if r = Resume then run_rounds k exec max_throughput s q else Inr (r, s, q))"

section \<open>The loop of blocking\_actor\<close>

text \<open>It runs until the mailbox is empty, which handlers may prevent for ever.\<close>

partial_function (option) blocking_run ::
    "('m, 's) exec \<Rightarrow> 's \<Rightarrow> 'm blocking_mail_queue \<Rightarrow> (executable_result \<times> 's \<times> 'm blocking_mail_queue) result option" where
  "blocking_run exec s q =
     (case mq_get q of
        (None, q) \<Rightarrow> Some (Inr (Job_done, s, q))
      | (Some m, q) \<Rightarrow>
          (case exec m s of
             Inl e \<Rightarrow> Some (Inl e)
           | Inr (s, out) \<Rightarrow> blocking_run exec s (mq_put_all out q)))"

section \<open>The specification\<close>

fun consume :: "('m, 's) exec \<Rightarrow> nat \<Rightarrow> 's \<Rightarrow> 'm list \<Rightarrow> ('s \<times> 'm list) result" where
  "consume exec 0 s ms = Inr (s, ms)"
| "consume exec (Suc n) s [] = Inr (s, [])"
| "consume exec (Suc n) s (m # ms) = bindE (exec m s) (\<lambda>(s, out). consume exec n s (ms @ out))"

lemma consume_Nil [simp]: "consume exec n s [] = Inr (s, [])"
  by (cases n) simp_all

lemma consume_add:
  "consume exec (n + k) s ms = bindE (consume exec n s ms) (\<lambda>(s, ms). consume exec k s ms)"
  by (induction exec n s ms rule: consume.induct) (auto simp: bindE_def split: sum.splits)

lemma pending_put_all: "mq.pending (mq_put_all ms q) = mq.pending q @ ms"
  by (simp add: mq_put_all_def mq.pending_def mq.put_all)

text \<open>Whether the plain queue is empty before the bound is reached.\<close>

fun runs_dry :: "('m, 's) exec \<Rightarrow> nat \<Rightarrow> 's \<Rightarrow> 'm list \<Rightarrow> bool" where
  "runs_dry exec 0 s ms = False"
| "runs_dry exec (Suc n) s [] = True"
| "runs_dry exec (Suc n) s (m # ms) =
     (case exec m s of Inl e \<Rightarrow> False | Inr (s, out) \<Rightarrow> runs_dry exec n s (ms @ out))"

lemma runs_dry_consume: "runs_dry exec n s ms \<longleftrightarrow> (\<exists>k < n. \<exists>s'. consume exec k s ms = Inr (s', []))"
proof (induction exec n s ms rule: runs_dry.induct)
  case (3 exec n s m ms)
  have "(\<exists>k < Suc n. \<exists>s'. consume exec k s (m # ms) = Inr (s', []))
      \<longleftrightarrow> (\<exists>k < n. \<exists>s'. consume exec (Suc k) s (m # ms) = Inr (s', []))"
    by (auto simp: less_Suc_eq_0_disj)
  with 3 show ?case by (cases "exec m s") (auto split: prod.splits)
qed auto

definition loop_agrees ::
    "('m, 's) exec \<Rightarrow> nat \<Rightarrow> 's \<Rightarrow> 'm list \<Rightarrow> (bool \<times> 's \<times> 'm blocking_mail_queue) result \<Rightarrow> bool" where
  "loop_agrees exec n s ms res =
     (case res of
        Inl e \<Rightarrow> consume exec n s ms = Inl e
      | Inr (awaiting, s', q') \<Rightarrow> consume exec n s ms = Inr (s', mq.pending q') \<and> (awaiting \<longrightarrow> mq.pending q' = [])
          \<and> awaiting = runs_dry exec n s ms)"

lemma loop_agrees_Cons:
  assumes "\<And>s1 out. exec m s = Inr (s1, out) \<Longrightarrow> loop_agrees exec n s1 (ms @ out) (f s1 out)"
  shows "loop_agrees exec (Suc n) s (m # ms) (bindE (exec m s) (\<lambda>(s, out). f s out))"
proof (cases "exec m s")
  case (Inl e)
  then show ?thesis by (simp add: loop_agrees_def)
next
  case (Inr x)
  then show ?thesis using assms [of "fst x" "snd x"] by (cases x) (auto simp: loop_agrees_def split: sum.splits prod.splits)
qed

lemma run_loop_consume: "loop_agrees exec n s (mq.pending q) (run_loop exec n s q)"
proof (induction n arbitrary: s q)
  case 0
  then show ?case by (simp add: loop_agrees_def)
next
  case (Suc n)
  have handled: "loop_agrees exec (Suc n) s (m # mq.pending q1)
      (bindE (exec m s) (\<lambda>(s, out). run_loop exec n s (mq_put_all out q1)))" for m q1
    using Suc.IH [of _ "mq_put_all _ q1"] by (intro loop_agrees_Cons) (simp add: pending_put_all)
  obtain r q1 where pop: "mq_pop_to_cache q = (r, q1)" by fastforce
  show ?case
  proof (cases r)
    case (Some m)
    have "mq.pending q = m # mq.pending q1"
      using mq.pop_SomeD [of q m q1] pop Some by (simp add: mq.pending_def)
    with handled [of m q1] pop Some show ?thesis by simp
  next
    case None
    obtain r' q2 where get: "mq_get q1 = (r', q2)" by fastforce
    show ?thesis
    proof (cases r')
      case (Some m)
      have "mq.pending q = m # mq.pending q2"
        using mq.pop_NoneD [of q q1] mq.get_SomeD [of q1 m q2] pop None get Some by (simp add: mq.pending_def)
      with handled [of m q2] pop None get Some show ?thesis by simp
    next
      case N: None
      have "mq.pending q = [] \<and> mq.pending q2 = []"
        using mq.pop_NoneD [of q q1] mq.get_NoneD [of q1 q2] pop None get N by (simp add: mq.pending_def)
      with pop None get N show ?thesis by (simp add: loop_agrees_def)
    qed
  qed
qed

lemma run_loop_idle:
  assumes "mq.pending q = []" "n > 0"
  shows "\<exists>q'. run_loop exec n s q = Inr (True, s, q')"
proof -
  obtain k where k: "n = Suc k" using assms(2) gr0_implies_Suc by blast
  obtain r q1 where pop: "mq_pop_to_cache q = (r, q1)" by fastforce
  with assms(1) mq.pop_None_iff [of q] have "r = None" by (simp add: mq.pending_def)
  moreover obtain r' q2 where get: "mq_get q1 = (r', q2)" by fastforce
  ultimately have "r' = None"
    using mq.pop_NoneD [of q q1] mq.get_None_iff [of q1] assms(1) pop by (simp add: mq.pending_def)
  with pop get \<open>r = None\<close> show ?thesis by (simp add: k)
qed

lemma drain_all: "cache (drain q) = mq.pending q \<and> mq_waiting (drain q) = []"
proof (induction q rule: drain.induct)
  case (1 q)
  obtain r q1 where get: "mq_get q = (r, q1)" by fastforce
  show ?case
  proof (cases r)
    case None
    with get mq.get_NoneD [of q q1] show ?thesis
      by (simp add: drain.simps [of q] mq.pending_def)
  next
    case (Some m)
    from Some get mq.get_SomeD [of q m q1] "1.IH" [of r q1 m] show ?thesis
      by (simp add: drain.simps [of q] mq.pending_def mq.push_some mq.push_waiting get)
  qed
qed

lemma has_next_message_empty:
  "mq_waiting q = [] \<Longrightarrow> \<exists>q'. has_next_message q = (False, q') \<and> cache q' = cache q \<and> mq_waiting q' = []"
  using mq.get_NoneD [of q "snd (mq_get q)"] mq.get_None_iff [of q]
  by (cases "mq_get q") (auto simp: has_next_message_def mq.push_none)

lemma async_run_spec:
  "case async_run exec max_throughput s q of
     Inl e \<Rightarrow> consume exec max_throughput s (mq.pending q) = Inl e
   | Inr (r, s', q') \<Rightarrow> consume exec max_throughput s (mq.pending q) = Inr (s', mq.pending q')
       \<and> mq_waiting q' = [] \<and> (if r = Awaiting then cache q' = [] else r = Resume)"
proof (cases "run_loop exec max_throughput s q")
  case (Inl e)
  with run_loop_consume [of exec max_throughput s q] show ?thesis by (simp add: async_run_def loop_agrees_def)
next
  case (Inr x)
  obtain awaiting s' q' where x: "x = (awaiting, s', q')" by (cases x) auto
  from run_loop_consume [of exec max_throughput s q] Inr x
  have loop: "consume exec max_throughput s (mq.pending q) = Inr (s', mq.pending q')"
    "awaiting \<longrightarrow> mq.pending q' = []" by (simp_all add: loop_agrees_def)
  obtain q2 where "has_next_message (drain q') = (False, q2)" "cache q2 = mq.pending q'" "mq_waiting q2 = []"
    using has_next_message_empty [of "drain q'"] drain_all [of q'] by auto
  with loop Inr x show ?thesis by (auto simp: async_run_def mq.pending_def)
qed

lemma run_rounds_spec:
  "case run_rounds k exec n s q of
     Inl e \<Rightarrow> consume exec (k * n) s (mq.pending q) = Inl e
   | Inr (r, s', q') \<Rightarrow> consume exec (k * n) s (mq.pending q) = Inr (s', mq.pending q')
       \<and> (r \<noteq> Resume \<longrightarrow> mq.pending q' = [])"
proof (induction k arbitrary: s q)
  case 0
  then show ?case by simp
next
  case (Suc k)
  from async_run_spec [of exec n s q] show ?case
  proof (cases "async_run exec n s q")
    case (Inl e)
    with async_run_spec [of exec n s q] show ?thesis by (simp add: consume_add)
  next
    case (Inr x)
    obtain r s1 q1 where x: "x = (r, s1, q1)" by (cases x) auto
    from async_run_spec [of exec n s q] Inr x
    have one: "consume exec n s (mq.pending q) = Inr (s1, mq.pending q1)"
      "r = Awaiting \<or> r = Resume" "r = Awaiting \<Longrightarrow> mq.pending q1 = []"
      by (auto simp: mq.pending_def split: if_splits)
    show ?thesis
    proof (cases "r = Resume")
      case True
      with Suc.IH [of s1 q1] Inr x one show ?thesis by (auto simp: consume_add split: sum.splits prod.splits)
    next
      case False
      with Inr x one show ?thesis by (simp add: consume_add)
    qed
  qed
qed

lemma async_run_awaits:
  assumes "async_run exec max_throughput s q = Inr (r, s', q')"
  shows "r = Awaiting \<longleftrightarrow> (\<exists>k < max_throughput. \<exists>s''. consume exec k s (mq.pending q) = Inr (s'', []))"
proof -
  obtain awaiting s1 q1 where loop: "run_loop exec max_throughput s q = Inr (awaiting, s1, q1)"
    using assms by (auto simp: async_run_def bindE_Inr_iff)
  then have "awaiting \<longleftrightarrow> runs_dry exec max_throughput s (mq.pending q)"
    using run_loop_consume [of exec max_throughput s q] by (simp add: loop_agrees_def)
  moreover obtain q2 where "has_next_message (drain q1) = (False, q2)"
    using has_next_message_empty [of "drain q1"] drain_all [of q1] by auto
  then have "r = Awaiting \<longleftrightarrow> awaiting" using assms loop by (cases awaiting) (simp_all add: async_run_def)
  ultimately show ?thesis by (simp add: runs_dry_consume)
qed

text \<open>
  C9: \<open>run\<close> implements the queue. An actor that is run alone handles the first
  \<open>max_throughput\<close> messages that are pending, in the order they were put, those its
  handlers put meanwhile last, each once; what is left is pending in the same order.
  It awaits exactly when the queue ran dry before the bound was reached, and then nothing is
  left; otherwise it resumes, with everything that is left in the cache. An exception ends it
  exactly when it ends the queue.
\<close>

theorem async_run_consumes:
  "case async_run exec max_throughput s q of
     Inl e \<Rightarrow> consume exec max_throughput s (mq.pending q) = Inl e
   | Inr (r, s', q') \<Rightarrow> consume exec max_throughput s (mq.pending q) = Inr (s', mq.pending q')
       \<and> mq_waiting q' = [] \<and> (if r = Awaiting then cache q' = [] else r = Resume)
       \<and> (r = Awaiting \<longleftrightarrow> (\<exists>k < max_throughput. \<exists>s''. consume exec k s (mq.pending q) = Inr (s'', [])))"
  using async_run_spec [of exec max_throughput s q] async_run_awaits [of exec max_throughput s q]
  by (auto split: sum.splits prod.splits)

lemma consume_stable: "consume exec n s ms = Inr (s', []) \<Longrightarrow> n \<le> k \<Longrightarrow> consume exec k s ms = Inr (s', [])"
  using consume_add [of exec n "k - n" s ms] by simp

text \<open>
  The bound on the messages of a run does not matter: however many messages a worker
  lets the actor handle before it takes the next job, once the actor awaits it is in the
  same state, and it has no message left.
\<close>

lemma throughput_irrelevant:
  assumes "run_rounds k exec n s q = Inr (Awaiting, s1, q1)" "run_rounds j exec n' s q = Inr (Awaiting, s2, q2)"
  shows "s1 = s2 \<and> mq.pending q1 = [] \<and> mq.pending q2 = []"
proof -
  have one: "consume exec (k * n) s (mq.pending q) = Inr (s1, [])" "mq.pending q1 = []"
    using run_rounds_spec [of exec k n s q] assms(1) by simp_all
  have two: "consume exec (j * n') s (mq.pending q) = Inr (s2, [])" "mq.pending q2 = []"
    using run_rounds_spec [of exec j n' s q] assms(2) by simp_all
  show ?thesis
    using consume_stable [OF one(1), of "k * n + j * n'"] consume_stable [OF two(1), of "k * n + j * n'"] one two
    by simp
qed

text \<open>An actor that keeps a log and sends itself a last message when it gets a 1.\<close>

definition demo_exec :: "(nat, nat list) exec" where
  "demo_exec m s = Inr (s @ [m], if m = 1 then [7] else [])"

lemmas mailbox_code = mq_get_def mq_sync_def mq_put_all_def mq_put_def empty_mail_queue_def
  mq_pop_to_cache_def mq_push_to_cache_def

lemma throughput_irrelevant_witness:
  "\<exists>s1 q1 s2 q2.
     run_rounds 5 demo_exec 1 [] (mq_put_all [1, 2, 3] empty_mail_queue) = Inr (Awaiting, s1, q1)
   \<and> run_rounds 1 demo_exec 8 [] (mq_put_all [1, 2, 3] empty_mail_queue) = Inr (Awaiting, s2, q2)
   \<and> s1 = s2 \<and> mq.pending q1 = [] \<and> mq.pending q2 = []"
proof -
  let ?q = "mq_put_all [1, 2, 3] empty_mail_queue"
  have 1: "run_rounds 5 demo_exec 1 [] ?q = Inr (Awaiting, [1, 2, 3, 7], empty_mail_queue)" by code_simp
  have 2: "run_rounds 1 demo_exec 8 [] ?q = Inr (Awaiting, [1, 2, 3, 7], empty_mail_queue)" by code_simp
  from throughput_irrelevant [OF 1 2] 1 2 show ?thesis by blast
qed

text \<open>
  C39: nothing is lost or starved: when the handlers return and put nothing into the
  actor's own mailbox, the runs of the actor come to an end, one message a run being
  enough, and every pending message was handled, in order.
\<close>

theorem run_rounds_finish:
  assumes put: "\<And>m s. exec m s = Inr (f m s, [])" and "n > 0" "length (mq.pending q) < k"
  shows "\<exists>q'. run_rounds k exec n s q = Inr (Awaiting, fold f (mq.pending q) s, q')"
  using assms(3)
proof (induction k arbitrary: s q)
  case 0
  then show ?case by simp
next
  case (Suc k)
  have spec: "consume exec i s ms = Inr (fold f (take i ms) s, drop i ms)" for i s ms
  proof (induction i arbitrary: s ms)
    case (Suc i)
    then show ?case by (cases ms) (simp_all add: put)
  qed simp
  obtain r s' q' where run: "async_run exec n s q = Inr (r, s', q')"
    and s': "s' = fold f (take n (mq.pending q)) s" and q': "mq.pending q' = drop n (mq.pending q)"
    and r: "r = Awaiting \<or> r = Resume" "r = Awaiting \<longrightarrow> mq.pending q' = []"
    using async_run_spec [of exec n s q] spec [of n s "mq.pending q"]
    by (cases "async_run exec n s q") (auto simp: mq.pending_def split: if_splits)
  show ?case
  proof (cases "r = Awaiting")
    case True
    with r q' have "take n (mq.pending q) = mq.pending q" by simp
    with run s' True show ?thesis by simp
  next
    case False
    with r have resume: "r = Resume" by simp
    show ?thesis
    proof (cases "mq.pending q")
      case Nil
      from run_loop_idle [OF Nil assms(2), of exec s] run resume show ?thesis
        by (auto simp: async_run_def)
    next
      case (Cons m ms)
      then have "length (mq.pending q') < k" using q' Suc.prems assms(2) by simp
      from Suc.IH [OF this, of s'] obtain q2 where
        "run_rounds k exec n s' q' = Inr (Awaiting, fold f (mq.pending q') s', q2)" by blast
      moreover have "fold f (mq.pending q') s' = fold f (mq.pending q) s"
        unfolding s' q' by (metis append_take_drop_id fold_append comp_apply)
      ultimately show ?thesis using run resume by simp
    qed
  qed
qed

lemma run_rounds_finish_witness:
  "\<exists>q'. run_rounds 4 (\<lambda>m s. Inr (s @ [m], [])) 1 [] (mq_put_all [1, 2, 3 :: nat] empty_mail_queue)
      = Inr (Awaiting, fold (\<lambda>m s. s @ [m]) (mq.pending (mq_put_all [1, 2, 3] empty_mail_queue)) [], q')"
  by (rule run_rounds_finish) (simp_all add: mailbox_code mq_pending)

end
