(* ===== verification/Executor.thy ===== *)
theory Executor
  imports Actor_Run
begin

text \<open>
  \<open>stream-core/src/executor\<close>: the shared queue of jobs (\<open>policy/work_sharing.hpp\<close>), the
  workers that take jobs from it (\<open>worker.hpp\<close>) and \<open>async_actor::send\<close> and \<open>run\<close> as they
  interleave. One label is one step between two points where another thread can come in:
  an operation of a mailbox, of the queue of jobs, or the handling of a message.
\<close>

section \<open>The queue of jobs\<close>

type_synonym jobs = "nat list"

definition ws_enqueue :: "nat \<Rightarrow> jobs \<Rightarrow> jobs" where
  "ws_enqueue job js = js @ [job]"

text \<open>\<open>dequeue\<close> waits until there is a job; \<open>None\<close> is a worker that still waits.\<close>

definition ws_dequeue :: "jobs \<Rightarrow> (nat \<times> jobs) option" where
  "ws_dequeue js = (case js of [] \<Rightarrow> None | job # rest \<Rightarrow> Some (job, rest))"

section \<open>A worker\<close>

text \<open>
  Where a worker is: between jobs; in the loop of \<open>run\<close>, with the number of messages it
  has handled, before it looks into the cache, before it looks into the mailbox, or in a
  handler; in the loop that fills the cache, before a read or with a message in hand;
  before and after the last look into the mailbox; back from \<open>run\<close> with its result; or
  out of its loop, which only the result \<open>shutdown\<close> ends.
\<close>

datatype 'm phase =
    Idle
  | Looping nat nat
  | Reading nat nat
  | Handling nat nat 'm
  | Draining nat
  | Stashing nat 'm
  | Checking nat
  | Parking nat 'm
  | Ending nat executable_result
  | Stopped

type_synonym 'm boxes = "nat \<Rightarrow> 'm blocking_mail_queue"

fun worker_step :: "nat \<Rightarrow> jobs \<Rightarrow> 'm boxes \<Rightarrow> 'm phase \<Rightarrow> (jobs \<times> 'm boxes \<times> 'm phase) option" where
  "worker_step limit js bs Idle =
     (case ws_dequeue js of None \<Rightarrow> None | Some (a, js) \<Rightarrow> Some (js, bs, Looping a 0))"
| "worker_step limit js bs (Looping a k) =
     (if k < limit then
        (case mq_pop_to_cache (bs a) of
           (Some m, q) \<Rightarrow> Some (js, bs(a := q), Handling a k m)
         | (None, q) \<Rightarrow> Some (js, bs(a := q), Reading a k))
      else Some (js, bs, Draining a))"
| "worker_step limit js bs (Reading a k) =
     (case mq_get (bs a) of
        (Some m, q) \<Rightarrow> Some (js, bs(a := q), Handling a k m)
      | (None, q) \<Rightarrow> Some (js, bs(a := q), Ending a Awaiting))"
| "worker_step limit js bs (Handling a k m) = Some (js, bs, Looping a (Suc k))"
| "worker_step limit js bs (Draining a) =
     (case mq_get (bs a) of
        (Some m, q) \<Rightarrow> Some (js, bs(a := q), Stashing a m)
      | (None, q) \<Rightarrow> Some (js, bs(a := q), Checking a))"
| "worker_step limit js bs (Stashing a m) =
     Some (js, bs(a := snd (mq_push_to_cache (Some m) (bs a))), Draining a)"
| "worker_step limit js bs (Checking a) =
     (case mq_get (bs a) of
        (Some m, q) \<Rightarrow> Some (js, bs(a := q), Parking a m)
      | (None, q) \<Rightarrow> Some (js, bs(a := q), Ending a Resume))"
| "worker_step limit js bs (Parking a m) =
     Some (js, bs(a := snd (mq_push_to_cache (Some m) (bs a))), Ending a Awaiting)"
| "worker_step limit js bs (Ending a r) =
     Some (if r = Resume then ws_enqueue a js else js, bs, if r = Shutdown then Stopped else Idle)"
| "worker_step limit js bs Stopped = None"

section \<open>The pool\<close>

text \<open>
  \<open>unsent\<close>: the actors for which a sender has put a message and not yet submitted the
  actor, the second half of \<open>async_actor::send\<close>.
\<close>

record 'm pool =
  jobs :: jobs
  boxes :: "'m boxes"
  workers :: "'m phase list"
  unsent :: "nat list"

datatype 'm label = Put nat 'm | Submit nat | Work nat

fun pool_step :: "nat \<Rightarrow> 'm label \<Rightarrow> 'm pool \<Rightarrow> 'm pool option" where
  "pool_step limit (Put a m) p =
     Some (p \<lparr>boxes := (boxes p)(a := snd (mq_put m (boxes p a))), unsent := unsent p @ [a]\<rparr>)"
| "pool_step limit (Submit a) p =
     (if a \<in> set (unsent p)
      then Some (p \<lparr>jobs := ws_enqueue a (jobs p), unsent := remove1 a (unsent p)\<rparr>)
      else None)"
| "pool_step limit (Work i) p =
     (if i < length (workers p) then
        (case worker_step limit (jobs p) (boxes p) (workers p ! i) of
           None \<Rightarrow> None
         | Some (js, bs, ph) \<Rightarrow> Some (p \<lparr>jobs := js, boxes := bs, workers := (workers p)[i := ph]\<rparr>))
      else None)"

definition start_pool :: "nat \<Rightarrow> 'm pool" where
  "start_pool num_workers =
     \<lparr>jobs = [], boxes = (\<lambda>_. empty_mail_queue), workers = replicate num_workers Idle, unsent = []\<rparr>"

inductive reachable :: "nat \<Rightarrow> nat \<Rightarrow> 'm pool \<Rightarrow> bool" for limit num_workers where
  start: "reachable limit num_workers (start_pool num_workers)"
| step: "reachable limit num_workers p \<Longrightarrow> pool_step limit l p = Some p' \<Longrightarrow> reachable limit num_workers p'"

inductive_cases reachable_cases: "reachable limit num_workers p"

fun run_labels :: "nat \<Rightarrow> 'm label list \<Rightarrow> 'm pool \<Rightarrow> 'm pool option" where
  "run_labels limit [] p = Some p"
| "run_labels limit (l # ls) p = (case pool_step limit l p of None \<Rightarrow> None | Some p' \<Rightarrow> run_labels limit ls p')"

lemma reachable_run:
  "reachable limit n p \<Longrightarrow> run_labels limit ls p = Some p' \<Longrightarrow> reachable limit n p'"
  by (induction ls arbitrary: p) (auto split: option.splits intro: reachable.step)

section \<open>One worker: no message is stranded\<close>

definition covered :: "'m pool \<Rightarrow> nat \<Rightarrow> bool" where
  "covered p a \<longleftrightarrow> a \<in> set (jobs p) \<or> a \<in> set (unsent p)"

text \<open>The phases in which the worker will still look for messages of its actor.\<close>

fun busy :: "'m phase \<Rightarrow> nat \<Rightarrow> bool" where
  "busy Idle b = False"
| "busy (Looping a k) b = (b = a)"
| "busy (Reading a k) b = (b = a)"
| "busy (Handling a k m) b = (b = a)"
| "busy (Draining a) b = (b = a)"
| "busy (Stashing a m) b = (b = a)"
| "busy (Checking a) b = (b = a)"
| "busy (Parking a m) b = False"
| "busy (Ending a r) b = (r = Resume \<and> b = a)"
| "busy Stopped b = False"

text \<open>What a worker that runs alone knows of the mailbox of its actor.\<close>

fun phase_inv :: "'m pool \<Rightarrow> 'm phase \<Rightarrow> bool" where
  "phase_inv p (Reading a k) = (cache (boxes p a) = [])"
| "phase_inv p (Checking a) = (mq_waiting (boxes p a) = [] \<or> covered p a)"
| "phase_inv p (Parking a m) = covered p a"
| "phase_inv p ph = True"

definition pool_inv :: "'m pool \<Rightarrow> bool" where
  "pool_inv p \<longleftrightarrow>
     (\<exists>ph. workers p = [ph] \<and> phase_inv p ph \<and>
       (\<forall>a. mq.pending (boxes p a) \<noteq> [] \<longrightarrow> covered p a \<or> busy ph a))"

lemma pool_inv_start: "pool_inv (start_pool (Suc 0))"
  by (simp add: pool_inv_def start_pool_def mq_pending empty_mail_queue_def)

lemma pool_inv_put:
  assumes "pool_inv p" "pool_step limit (Put a m) p = Some p'"
  shows "pool_inv p'"
proof -
  from assms(1) obtain ph where ph: "workers p = [ph]" "phase_inv p ph"
    "\<And>a. mq.pending (boxes p a) \<noteq> [] \<Longrightarrow> covered p a \<or> busy ph a"
    by (auto simp: pool_inv_def)
  have p': "p' = p \<lparr>boxes := (boxes p)(a := snd (mq_put m (boxes p a))), unsent := unsent p @ [a]\<rparr>"
    using assms(2) by simp
  have "phase_inv p' ph"
    using ph(2) by (cases ph) (auto simp: p' covered_def mq.put_stored mq.put_waiting)
  then show ?thesis
    unfolding pool_inv_def by (intro exI [of _ ph]) (use ph in \<open>auto simp: p' covered_def\<close>)
qed

lemma pool_inv_submit:
  assumes "pool_inv p" "pool_step limit (Submit a) p = Some p'"
  shows "pool_inv p'"
proof -
  from assms(1) obtain ph where ph: "workers p = [ph]" "phase_inv p ph"
    "\<And>a. mq.pending (boxes p a) \<noteq> [] \<Longrightarrow> covered p a \<or> busy ph a"
    by (auto simp: pool_inv_def)
  have p': "p' = p \<lparr>jobs := ws_enqueue a (jobs p), unsent := remove1 a (unsent p)\<rparr>"
    using assms(2) by (simp split: if_splits)
  have cov: "covered p' b = covered p b" for b
    using assms(2) by (auto simp: p' covered_def ws_enqueue_def in_set_remove1 split: if_splits dest: set_remove1_subset [THEN subsetD])
  have "phase_inv p' ph"
    using ph(2) by (cases ph) (auto simp: cov, simp_all add: p')
  with ph cov show ?thesis by (auto simp: pool_inv_def p')
qed

text \<open>One worker step, phase by phase: the new phase knows what it has to know.\<close>

definition step_ok :: "jobs \<Rightarrow> 'm boxes \<Rightarrow> nat list \<Rightarrow> 'm phase \<Rightarrow> bool" where
  "step_ok js bs us ph \<longleftrightarrow>
     (let p = \<lparr>jobs = js, boxes = bs, workers = [ph], unsent = us\<rparr> in
      phase_inv p ph \<and> (\<forall>a. mq.pending (bs a) \<noteq> [] \<longrightarrow> covered p a \<or> busy ph a))"

lemma step_okI:
  assumes "phase_inv \<lparr>jobs = js, boxes = bs, workers = [ph], unsent = us\<rparr> ph"
    and "\<And>a. mq.pending (bs a) \<noteq> [] \<Longrightarrow> a \<in> set js \<union> set us \<or> busy ph a"
  shows "step_ok js bs us ph"
  using assms by (auto simp: step_ok_def covered_def)

lemma step_ok_pool_inv:
  "workers p = [ph] \<Longrightarrow> pool_inv p \<longleftrightarrow> step_ok (jobs p) (boxes p) (unsent p) ph"
  by (cases p) (auto simp: pool_inv_def step_ok_def Let_def)

lemma step_ok_facts:
  assumes "step_ok js bs us ph"
  shows "\<forall>b. mq.pending (bs b) \<noteq> [] \<longrightarrow> b \<in> set js \<union> set us \<or> busy ph b"
    "ph = Reading a k \<Longrightarrow> cache (bs a) = []"
    "ph = Checking a \<Longrightarrow> mq_waiting (bs a) = [] \<or> a \<in> set js \<union> set us"
    "ph = Parking a m \<Longrightarrow> a \<in> set js \<union> set us"
  using assms by (auto simp: step_ok_def covered_def Let_def)

lemmas mq_facts = mq.pop_SomeD mq.pop_NoneD mq.get_SomeD mq.get_NoneD

lemma worker_step_ok:
  assumes ok: "step_ok js bs us ph" and st: "worker_step limit js bs ph = Some (js', bs', ph')"
  shows "step_ok js' bs' us ph'"
proof (cases ph)
  case Idle
  with st obtain a where "js = a # js'" "bs' = bs" "ph' = Looping a 0"
    by (auto simp: ws_dequeue_def split: list.splits)
  with step_ok_facts(1) [OF ok] Idle show ?thesis by (intro step_okI) auto
next
  case (Looping a k)
  show ?thesis
  proof (cases "k < limit")
    case True
    obtain r q where pop: "mq_pop_to_cache (bs a) = (r, q)" by fastforce
    with True Looping st have new: "js' = js" "bs' = bs(a := q)"
      "ph' = (case r of Some m \<Rightarrow> Handling a k m | None \<Rightarrow> Reading a k)"
      by (auto split: option.splits)
    moreover have "\<forall>b. mq.pending (bs b) \<noteq> [] \<longrightarrow> b \<in> set js \<union> set us \<or> b = a"
      using step_ok_facts(1) [OF ok] Looping by auto
    ultimately show ?thesis
      using pop mq.pop_NoneD [of "bs a" q] by (cases r) (auto intro!: step_okI)
  next
    case False
    with Looping st have "js' = js" "bs' = bs" "ph' = Draining a" by auto
    with step_ok_facts(1) [OF ok] Looping show ?thesis by (intro step_okI) auto
  qed
next
  case (Reading a k)
  obtain r q where get: "mq_get (bs a) = (r, q)" by fastforce
  with Reading st have new: "js' = js" "bs' = bs(a := q)"
    "ph' = (case r of Some m \<Rightarrow> Handling a k m | None \<Rightarrow> Ending a Awaiting)"
    by (auto split: option.splits)
  show ?thesis
  proof (cases r)
    case None
    with get mq.get_NoneD [of "bs a" q] step_ok_facts(2) [OF ok Reading] have "mq.pending q = []"
      by (simp add: mq.pending_def)
    with None new step_ok_facts(1) [OF ok] Reading show ?thesis by (auto intro!: step_okI split: if_splits)
  next
    case (Some m)
    with new step_ok_facts(1) [OF ok] Reading show ?thesis by (auto intro!: step_okI)
  qed
next
  case (Handling a k m)
  with st have "js' = js" "bs' = bs" "ph' = Looping a (Suc k)" by auto
  with step_ok_facts(1) [OF ok] Handling show ?thesis by (intro step_okI) auto
next
  case (Draining a)
  obtain r q where get: "mq_get (bs a) = (r, q)" by fastforce
  with Draining st have new: "js' = js" "bs' = bs(a := q)"
    "ph' = (case r of Some m \<Rightarrow> Stashing a m | None \<Rightarrow> Checking a)"
    by (auto split: option.splits)
  with get mq.get_NoneD [of "bs a" q] step_ok_facts(1) [OF ok] Draining show ?thesis
    by (cases r) (auto intro!: step_okI)
next
  case (Stashing a m)
  with st have "js' = js" "bs' = bs(a := snd (mq_push_to_cache (Some m) (bs a)))" "ph' = Draining a" by auto
  with step_ok_facts(1) [OF ok] Stashing show ?thesis by (intro step_okI) (auto split: if_splits)
next
  case (Checking a)
  obtain r q where get: "mq_get (bs a) = (r, q)" by fastforce
  with Checking st have new: "js' = js" "bs' = bs(a := q)"
    "ph' = (case r of Some m \<Rightarrow> Parking a m | None \<Rightarrow> Ending a Resume)"
    by (auto split: option.splits)
  show ?thesis
  proof (cases r)
    case None
    with new step_ok_facts(1) [OF ok] Checking show ?thesis by (auto intro!: step_okI)
  next
    case (Some m)
    with get mq.get_SomeD [of "bs a" m q] step_ok_facts(3) [OF ok Checking] have "a \<in> set js \<union> set us"
      by simp
    with Some new step_ok_facts(1) [OF ok] Checking show ?thesis
      by (auto intro!: step_okI simp: covered_def split: if_splits)
  qed
next
  case (Parking a m)
  with st have "js' = js" "bs' = bs(a := snd (mq_push_to_cache (Some m) (bs a)))" "ph' = Ending a Awaiting" by auto
  with step_ok_facts(1) [OF ok] step_ok_facts(4) [OF ok Parking] Parking show ?thesis
    by (intro step_okI) (auto split: if_splits)
next
  case (Ending a r)
  with st have "js' = (if r = Resume then ws_enqueue a js else js)" "bs' = bs" "ph' = (if r = Shutdown then Stopped else Idle)" by auto
  with step_ok_facts(1) [OF ok] Ending show ?thesis by (intro step_okI) (auto simp: ws_enqueue_def)
next
  case Stopped
  with st show ?thesis by simp
qed

lemma pool_inv_work:
  assumes "pool_inv p" "pool_step limit (Work i) p = Some p'"
  shows "pool_inv p'"
proof -
  from assms(1) obtain ph where ph: "workers p = [ph]" by (auto simp: pool_inv_def)
  from assms(2) ph obtain js bs ph' where st: "worker_step limit (jobs p) (boxes p) ph = Some (js, bs, ph')"
    and p': "p' = p \<lparr>jobs := js, boxes := bs, workers := [ph']\<rparr>"
    by (auto split: if_splits option.splits)
  have "step_ok js bs (unsent p) ph'"
    using worker_step_ok [OF _ st] assms(1) step_ok_pool_inv [OF ph] by simp
  then show ?thesis using step_ok_pool_inv [of p' ph'] by (simp add: p')
qed

lemma reachable_pool_inv: "reachable limit (Suc 0) p \<Longrightarrow> pool_inv p"
proof (induction rule: reachable.induct)
  case start
  show ?case by (rule pool_inv_start)
next
  case (step p l p')
  then show ?case
    by (cases l) (blast intro: pool_inv_put pool_inv_submit pool_inv_work)+
qed

text \<open>The actor of a worker between two jobs is none.\<close>

fun phase_actor :: "'m phase \<Rightarrow> nat option" where
  "phase_actor Idle = None"
| "phase_actor (Looping a k) = Some a"
| "phase_actor (Reading a k) = Some a"
| "phase_actor (Handling a k m) = Some a"
| "phase_actor (Draining a) = Some a"
| "phase_actor (Stashing a m) = Some a"
| "phase_actor (Checking a) = Some a"
| "phase_actor (Parking a m) = Some a"
| "phase_actor (Ending a r) = Some a"
| "phase_actor Stopped = None"

lemma busy_actor: "busy ph a \<Longrightarrow> phase_actor ph = Some a"
  by (cases ph) auto

text \<open>
  C10: with one worker no message is stranded: whatever the interleaving of the senders with
  the worker and whatever the bound on the messages of a run, an actor that has a message,
  in its mailbox or in its cache, is in the queue of jobs, is about to be submitted, or is
  being run. So when nothing is queued, under way or running, every mailbox is empty.
\<close>

theorem no_message_stranded:
  assumes "reachable limit 1 p" "mq.pending (boxes p a) \<noteq> []"
  shows "a \<in> set (jobs p) \<or> a \<in> set (unsent p) \<or> (\<exists>ph. workers p = [ph] \<and> phase_actor ph = Some a)"
proof -
  from reachable_pool_inv assms(1) have "pool_inv p" by simp
  with assms(2) show ?thesis by (fastforce simp: pool_inv_def covered_def dest: busy_actor)
qed

definition demo_labels :: "nat label list" where
  "demo_labels = [Put 0 10, Submit 0, Work 0, Work 0, Put 0 11]"

lemma no_message_stranded_witness:
  "\<exists>p. run_labels 1 demo_labels (start_pool 1) = Some p \<and> mq.pending (boxes p 0) \<noteq> []
    \<and> (0 \<in> set (jobs p) \<or> 0 \<in> set (unsent p) \<or> (\<exists>ph. workers p = [ph] \<and> phase_actor ph = Some 0))"
proof -
  obtain p where p: "run_labels 1 demo_labels (start_pool 1) = Some p" "mq.pending (boxes p 0) \<noteq> []"
    by (simp add: demo_labels_def start_pool_def mq_put_def mq_pop_to_cache_def mq_get_def mq_sync_def mq_pending
        ws_enqueue_def ws_dequeue_def empty_mail_queue_def)
  with no_message_stranded [OF reachable_run [OF reachable.start p(1)] p(2)] show ?thesis by blast
qed

section \<open>Two workers: a message can be stranded\<close>

definition quiescent :: "'m pool \<Rightarrow> bool" where
  "quiescent p \<longleftrightarrow> jobs p = [] \<and> unsent p = [] \<and> list_all (\<lambda>ph. phase_actor ph = None) (workers p)"

definition meeting :: "nat label list" where
  "meeting =
     [Put 0 10, Submit 0, Work 0, Work 0, Work 0, Work 0, Work 0, Work 0, Put 0 11, Submit 0, Work 1]"

definition stranding :: "nat label list" where
  "stranding = [Work 1, Work 0, Work 1, Work 1, Work 0, Work 0]"

lemmas pool_code = start_pool_def mq_put_def mq_pop_to_cache_def mq_get_def mq_sync_def mq_push_to_cache_def mq_waiting_def
  ws_enqueue_def ws_dequeue_def empty_mail_queue_def eval_nat_numeral

lemma quiescent_stuck:
  assumes "quiescent p"
  shows "pool_step limit (Submit a) p = None" "pool_step limit (Work i) p = None"
proof -
  show "pool_step limit (Submit a) p = None" using assms by (simp add: quiescent_def)
  have "worker_step limit [] (boxes p) ph = None" if "phase_actor ph = None" for ph
    using that by (cases ph) (simp_all add: ws_dequeue_def)
  then show "pool_step limit (Work i) p = None"
    using assms by (auto simp: quiescent_def list_all_length)
qed

text \<open>
  C34: with two workers and a bound of one message a run the same actor can be run by both at
  once, and after that a message can end in its cache, with its mailbox empty and nothing
  queued, under way or running; then neither a worker nor a sender that is under way can take
  a step, so the message stays there until another one is put.
\<close>

theorem two_workers_strand_message:
  "\<exists>p1 p2 :: nat pool. reachable 1 2 p1 \<and> map phase_actor (workers p1) = [Some 0, Some 0]
     \<and> run_labels 1 stranding p1 = Some p2 \<and> quiescent p2
     \<and> cache (boxes p2 0) = [11] \<and> mq_waiting (boxes p2 0) = []
     \<and> (\<forall>i. pool_step 1 (Work i) p2 = None) \<and> (\<forall>a. pool_step 1 (Submit a) p2 = None)"
proof -
  obtain p1 where p1: "run_labels 1 meeting (start_pool 2) = Some p1" "map phase_actor (workers p1) = [Some 0, Some 0]"
    "run_labels 1 stranding p1 = run_labels 1 (meeting @ stranding) (start_pool 2)"
    by (simp add: meeting_def stranding_def pool_code)
  obtain p2 where p2: "run_labels 1 (meeting @ stranding) (start_pool 2) = Some p2" "quiescent p2"
    "cache (boxes p2 0) = [11]" "mq_waiting (boxes p2 0) = []"
    by (simp add: meeting_def stranding_def pool_code quiescent_def)
  from reachable_run [OF reachable.start p1(1)] p1(2,3) p2 quiescent_stuck [OF p2(2)]
  show ?thesis by (intro exI [of _ p1] exI [of _ p2]) simp
qed

text \<open>
  What the other actors do in the meantime does not help: as long as nothing is put for an
  actor that is not queued, not under way and not run, its mailbox stays as it is.
\<close>

definition idle_actor :: "'m pool \<Rightarrow> nat \<Rightarrow> bool" where
  "idle_actor p a \<longleftrightarrow> a \<notin> set (jobs p) \<and> a \<notin> set (unsent p) \<and> (\<forall>ph \<in> set (workers p). phase_actor ph \<noteq> Some a)"

lemma worker_step_other:
  assumes "worker_step limit js bs ph = Some (js', bs', ph')" "a \<notin> set js" "phase_actor ph \<noteq> Some a"
  shows "a \<notin> set js' \<and> phase_actor ph' \<noteq> Some a \<and> bs' a = bs a"
  using assms
  by (cases ph) (auto simp: ws_dequeue_def ws_enqueue_def split: list.splits option.splits prod.splits if_splits)

lemma idle_actor_step:
  assumes "pool_step limit l p = Some p'" "idle_actor p a" "\<forall>m. Put a m \<noteq> l"
  shows "idle_actor p' a \<and> boxes p' a = boxes p a"
proof (cases l)
  case (Put b m)
  then have "b \<noteq> a" using assms(3) by auto
  with Put assms(1,2) show ?thesis by (auto simp: idle_actor_def)
next
  case (Submit b)
  with assms show ?thesis
    by (auto simp: idle_actor_def ws_enqueue_def split: if_splits dest: in_set_remove1 set_mp [OF set_remove1_subset])
next
  case (Work i)
  with assms(1) obtain js bs ph where
    w: "i < length (workers p)" "worker_step limit (jobs p) (boxes p) (workers p ! i) = Some (js, bs, ph)"
    and p': "p' = p \<lparr>jobs := js, boxes := bs, workers := (workers p)[i := ph]\<rparr>"
    by (auto split: if_splits option.splits)
  have "a \<notin> set (jobs p)" "phase_actor (workers p ! i) \<noteq> Some a"
    using assms(2) w(1) by (auto simp: idle_actor_def)
  from worker_step_other [OF w(2) this] show ?thesis
    using assms(2) set_update_subset_insert [of "workers p" i ph] by (auto simp: idle_actor_def p')
qed

lemma stranded_stays:
  "run_labels limit ls p = Some p' \<Longrightarrow> idle_actor p a \<Longrightarrow> \<forall>m. Put a m \<notin> set ls \<Longrightarrow> boxes p' a = boxes p a"
proof (induction ls arbitrary: p)
  case (Cons l ls)
  then obtain q where q: "pool_step limit l p = Some q" "run_labels limit ls q = Some p'"
    by (auto split: option.splits)
  with idle_actor_step [OF q(1) Cons.prems(2)] Cons.IH [OF q(2)] Cons.prems(3) show ?case by auto
qed simp

end
