(* ===== verification/Work_Sharing.thy ===== *)
theory Work_Sharing
  imports Executor
begin

text \<open>
  The lock and the condition variable behind the queue of jobs
  (\<open>stream-core/src/executor/policy/work_sharing.hpp\<close>), at the grain at which threads
  interleave: taking the lock, testing the predicate of \<open>wait\<close>, falling asleep, being
  notified or waking up for no reason, taking the lock again. \<open>Executor\<close> takes \<open>enqueue\<close>
  and \<open>dequeue\<close> as single steps; the lemma \<open>step_queue\<close> shows that this is sound.
\<close>

section \<open>The monitor\<close>

text \<open>
  Where a thread is in \<open>enqueue\<close> or \<open>dequeue\<close>. \<open>Enq_enter\<close> has built its list of one job
  and is before the lock; \<open>Deq_awake\<close> was woken and has to take the lock before it tests
  the predicate again; the places between hold the lock.
\<close>

datatype place =
    Away
  | Enq_enter nat
  | Enq_splice nat
  | Enq_notify
  | Enq_leave
  | Deq_enter
  | Deq_test
  | Deq_asleep
  | Deq_awake
  | Deq_front
  | Deq_leave nat

record monitor =
  mon_queue :: jobs
  mon_owner :: "nat option"
  mon_places :: "place list"

definition go :: "nat \<Rightarrow> place \<Rightarrow> monitor \<Rightarrow> monitor" where
  "go i pl m = m \<lparr>mon_places := (mon_places m)[i := pl]\<rparr>"

definition acquire :: "nat \<Rightarrow> place \<Rightarrow> monitor \<Rightarrow> monitor result option" where
  "acquire i pl m =
     (if mon_owner m = None then Some (Inr (go i pl m \<lparr>mon_owner := Some i\<rparr>)) else None)"

definition release :: "nat \<Rightarrow> place \<Rightarrow> monitor \<Rightarrow> monitor result option" where
  "release i pl m = Some (Inr (go i pl m \<lparr>mon_owner := None\<rparr>))"

text \<open>
  The next step of a thread. \<open>None\<close>: it cannot move, because the lock is taken, because it
  sleeps or because it is not in the monitor; \<open>notify_one\<close> is a label of its own. Taking the
  front of an empty list is undefined.
\<close>

fun place_step :: "nat \<Rightarrow> place \<Rightarrow> monitor \<Rightarrow> monitor result option" where
  "place_step i Away m = None"
| "place_step i (Enq_enter job) m = acquire i (Enq_splice job) m"
| "place_step i (Enq_splice job) m =
     Some (Inr (go i Enq_notify m \<lparr>mon_queue := ws_enqueue job (mon_queue m)\<rparr>))"
| "place_step i Enq_notify m = None"
| "place_step i Enq_leave m = release i Away m"
| "place_step i Deq_enter m = acquire i Deq_test m"
| "place_step i Deq_test m =
     (if mon_queue m \<noteq> [] then Some (Inr (go i Deq_front m)) else release i Deq_asleep m)"
| "place_step i Deq_asleep m = None"
| "place_step i Deq_awake m = acquire i Deq_test m"
| "place_step i Deq_front m =
     (case ws_dequeue (mon_queue m) of
        None \<Rightarrow> Some (Inl Undefined)
      | Some (job, js) \<Rightarrow> Some (Inr (go i (Deq_leave job) m \<lparr>mon_queue := js\<rparr>)))"
| "place_step i (Deq_leave job) m = release i Away m"

text \<open>
  The labels: a call of one of the two functions, a step of a thread, \<open>notify_one\<close> with the
  thread it wakes, if one sleeps, and a wake-up without a notification.
\<close>

datatype mon_label =
    Call_enqueue nat nat
  | Call_dequeue nat
  | Move nat
  | Notify nat "nat option"
  | Spurious nat

definition place_of :: "monitor \<Rightarrow> nat \<Rightarrow> place" where
  "place_of m i = (if i < length (mon_places m) then mon_places m ! i else Away)"

fun monitor_step :: "mon_label \<Rightarrow> monitor \<Rightarrow> monitor result option" where
  "monitor_step (Call_enqueue i job) m =
     (if i < length (mon_places m) \<and> place_of m i = Away then Some (Inr (go i (Enq_enter job) m)) else None)"
| "monitor_step (Call_dequeue i) m =
     (if i < length (mon_places m) \<and> place_of m i = Away then Some (Inr (go i Deq_enter m)) else None)"
| "monitor_step (Move i) m = place_step i (place_of m i) m"
| "monitor_step (Notify i None) m =
     (if place_of m i = Enq_notify \<and> Deq_asleep \<notin> set (mon_places m)
      then Some (Inr (go i Enq_leave m)) else None)"
| "monitor_step (Notify i (Some j)) m =
     (if place_of m i = Enq_notify \<and> place_of m j = Deq_asleep
      then Some (Inr (go j Deq_awake (go i Enq_leave m))) else None)"
| "monitor_step (Spurious i) m =
     (if place_of m i = Deq_asleep then Some (Inr (go i Deq_awake m)) else None)"

definition new_monitor :: "nat \<Rightarrow> monitor" where
  "new_monitor threads = \<lparr>mon_queue = [], mon_owner = None, mon_places = replicate threads Away\<rparr>"

inductive mon_reachable :: "nat \<Rightarrow> monitor \<Rightarrow> bool" for threads where
  new: "mon_reachable threads (new_monitor threads)"
| move: "mon_reachable threads m \<Longrightarrow> monitor_step l m = Some (Inr m') \<Longrightarrow> mon_reachable threads m'"

fun mon_exec :: "mon_label list \<Rightarrow> monitor \<Rightarrow> monitor option" where
  "mon_exec [] m = Some m"
| "mon_exec (l # ls) m =
     (case monitor_step l m of Some (Inr m') \<Rightarrow> mon_exec ls m' | _ \<Rightarrow> None)"

lemma mon_reachable_exec: "mon_reachable n m \<Longrightarrow> mon_exec ls m = Some m' \<Longrightarrow> mon_reachable n m'"
  by (induction ls arbitrary: m) (auto split: option.splits sum.splits intro: mon_reachable.move)

text \<open>\<open>foreach_central_resumable\<close> takes the jobs one after the other under the lock.\<close>

fun foreach_central_resumable :: "(nat \<Rightarrow> 's \<Rightarrow> 's) \<Rightarrow> jobs \<Rightarrow> 's \<Rightarrow> 's \<times> jobs" where
  "foreach_central_resumable f [] s = (s, [])"
| "foreach_central_resumable f (job # js) s = foreach_central_resumable f js (f job s)"

lemma foreach_central_resumable_fold: "foreach_central_resumable f js s = (fold f js s, [])"
  by (induction js arbitrary: s) simp_all

section \<open>The lock\<close>

fun holds_lock :: "place \<Rightarrow> bool" where
  "holds_lock (Enq_splice _) = True"
| "holds_lock Enq_notify = True"
| "holds_lock Enq_leave = True"
| "holds_lock Deq_test = True"
| "holds_lock Deq_front = True"
| "holds_lock (Deq_leave _) = True"
| "holds_lock _ = False"

text \<open>The threads that have been woken or test the predicate: they will take a job if there is one.\<close>

fun heading :: "place \<Rightarrow> bool" where
  "heading Deq_awake = True"
| "heading Deq_test = True"
| "heading Deq_front = True"
| "heading _ = False"

definition tally :: "(place \<Rightarrow> bool) \<Rightarrow> monitor \<Rightarrow> nat" where
  "tally P m = length (filter P (mon_places m))"

definition lock_inv :: "monitor \<Rightarrow> bool" where
  "lock_inv m \<longleftrightarrow> (\<forall>i. holds_lock (place_of m i) \<longleftrightarrow> mon_owner m = Some i)"

definition front_inv :: "monitor \<Rightarrow> bool" where
  "front_inv m \<longleftrightarrow> (\<forall>i. place_of m i = Deq_front \<longrightarrow> mon_queue m \<noteq> [])"

text \<open>
  While a thread sleeps there are at least as many threads on their way to a job as there
  are jobs; the one that is about to notify counts.
\<close>

definition wake_inv :: "monitor \<Rightarrow> bool" where
  "wake_inv m \<longleftrightarrow>
     (Deq_asleep \<in> set (mon_places m) \<longrightarrow>
      length (mon_queue m) \<le> tally heading m + tally (\<lambda>pl. pl = Enq_notify) m)"

definition mon_inv :: "monitor \<Rightarrow> bool" where
  "mon_inv m \<longleftrightarrow> lock_inv m \<and> front_inv m \<and> wake_inv m"

lemma go_simps [simp]:
  "mon_queue (go i pl m) = mon_queue m" "mon_owner (go i pl m) = mon_owner m"
  "length (mon_places (go i pl m)) = length (mon_places m)"
  by (simp_all add: go_def)

lemma place_of_updates [simp]:
  "place_of (m\<lparr>mon_queue := q\<rparr>) i = place_of m i" "place_of (m\<lparr>mon_owner := w\<rparr>) i = place_of m i"
  "tally P (m\<lparr>mon_queue := q\<rparr>) = tally P m" "tally P (m\<lparr>mon_owner := w\<rparr>) = tally P m"
  by (simp_all add: place_of_def tally_def)

lemma place_of_go: "i < length (mon_places m) \<Longrightarrow> place_of (go i pl m) j = (if j = i then pl else place_of m j)"
  by (simp add: place_of_def go_def)

lemma place_inside: "place_of m i \<noteq> Away \<Longrightarrow> i < length (mon_places m)"
  by (simp add: place_of_def split: if_splits)

lemma asleep_iff: "Deq_asleep \<in> set (mon_places m) \<longleftrightarrow> (\<exists>i. place_of m i = Deq_asleep)"
  by (auto simp: place_of_def in_set_conv_nth split: if_splits)

lemma filter_update:
  "i < length xs \<Longrightarrow>
   length (filter P (xs[i := x])) + of_bool (P (xs ! i)) = length (filter P xs) + of_bool (P x)"
proof (induction xs arbitrary: i)
  case (Cons y ys)
  then show ?case by (cases i) simp_all
qed simp

lemma tally_go:
  "i < length (mon_places m) \<Longrightarrow>
   tally P (go i pl m) + of_bool (P (place_of m i)) = tally P m + of_bool (P pl)"
  using filter_update [of i "mon_places m" P pl] by (simp add: tally_def go_def place_of_def)

lemma tally_pos: "P (place_of m i) \<Longrightarrow> \<not> P Away \<Longrightarrow> 0 < tally P m"
proof -
  assume P: "P (place_of m i)" "\<not> P Away"
  then have "i < length (mon_places m)" by (metis place_inside)
  with P(1) have "mon_places m ! i \<in> set (filter P (mon_places m))" by (simp add: place_of_def)
  then show ?thesis unfolding tally_def by (rule length_pos_if_in_set)
qed

section \<open>Each step keeps the invariant\<close>

lemma lock_acquire:
  "lock_inv m \<Longrightarrow> mon_owner m = None \<Longrightarrow> holds_lock pl \<Longrightarrow> i < length (mon_places m)
     \<Longrightarrow> lock_inv (go i pl m \<lparr>mon_owner := Some i\<rparr>)"
  by (auto simp: lock_inv_def place_of_go)

lemma lock_release:
  assumes "lock_inv m" "holds_lock (place_of m i)" "\<not> holds_lock pl" "i < length (mon_places m)"
  shows "lock_inv (go i pl m \<lparr>mon_owner := None\<rparr>)"
proof -
  have "mon_owner m = Some i" using assms(1,2) by (simp add: lock_inv_def)
  then show ?thesis using assms by (auto simp: lock_inv_def place_of_go)
qed

lemma lock_same:
  "lock_inv m \<Longrightarrow> holds_lock pl \<longleftrightarrow> holds_lock (place_of m i) \<Longrightarrow> i < length (mon_places m)
     \<Longrightarrow> lock_inv (go i pl m)"
  by (simp add: lock_inv_def place_of_go)

lemma lock_queue [simp]: "lock_inv (m\<lparr>mon_queue := q\<rparr>) = lock_inv m"
  by (simp add: lock_inv_def)

lemma one_holder: "lock_inv m \<Longrightarrow> holds_lock (place_of m i) \<Longrightarrow> holds_lock (place_of m j) \<Longrightarrow> i = j"
  by (simp add: lock_inv_def)

lemma front_go:
  assumes "front_inv m" "pl = Deq_front \<longrightarrow> mon_queue m \<noteq> []" "i < length (mon_places m)"
  shows "front_inv (go i pl m)"
  using assms by (auto simp: front_inv_def place_of_go)

lemma front_owner [simp]: "front_inv (m\<lparr>mon_owner := w\<rparr>) = front_inv m"
  by (simp add: front_inv_def)

lemma front_queue:
  assumes "lock_inv m" "holds_lock (place_of m i)" "pl \<noteq> Deq_front" "i < length (mon_places m)"
  shows "front_inv (go i pl m \<lparr>mon_queue := q\<rparr>)"
proof -
  have "place_of (go i pl m) j \<noteq> Deq_front" for j
  proof (cases "j = i")
    case False
    then have "\<not> holds_lock (place_of m j)" using one_holder [OF assms(1,2)] by blast
    then have "place_of m j \<noteq> Deq_front" by (metis holds_lock.simps(5))
    then show ?thesis using False assms(4) by (simp add: place_of_go)
  qed (use assms(3,4) in \<open>simp add: place_of_go\<close>)
  then show ?thesis by (simp add: front_inv_def)
qed

definition weight :: "place \<Rightarrow> nat" where
  "weight pl = of_bool (heading pl) + of_bool (pl = Enq_notify)"

definition load :: "monitor \<Rightarrow> nat" where
  "load m = tally heading m + tally (\<lambda>pl. pl = Enq_notify) m"

lemma load_go: "i < length (mon_places m) \<Longrightarrow> load (go i pl m) + weight (place_of m i) = load m + weight pl"
  using tally_go [of i m heading pl] tally_go [of i m "\<lambda>pl. pl = Enq_notify" pl]
  unfolding load_def weight_def by linarith

lemma wake_inv_load: "wake_inv m \<longleftrightarrow> ((\<exists>i. place_of m i = Deq_asleep) \<longrightarrow> length (mon_queue m) \<le> load m)"
  by (simp only: wake_inv_def load_def asleep_iff)

lemma wake_owner [simp]: "wake_inv (m\<lparr>mon_owner := w\<rparr>) = wake_inv m"
  by (simp add: wake_inv_load load_def)

lemma wake_empty: "mon_queue m = [] \<Longrightarrow> wake_inv m"
  by (simp add: wake_inv_load)

lemma wake_go_queue:
  assumes "wake_inv m" "i < length (mon_places m)" "pl \<noteq> Deq_asleep"
    "length q + weight (place_of m i) \<le> length (mon_queue m) + weight pl"
  shows "wake_inv (go i pl m \<lparr>mon_queue := q\<rparr>)"
proof -
  have "length q \<le> load (go i pl m)" if "place_of (go i pl m) j = Deq_asleep" for j
  proof -
    have "place_of m j = Deq_asleep" using that assms(2,3) by (simp add: place_of_go split: if_splits)
    then have "length (mon_queue m) \<le> load m" using assms(1) by (auto simp: wake_inv_load)
    with load_go [OF assms(2), of pl] assms(4) show ?thesis by linarith
  qed
  then show ?thesis by (auto simp: wake_inv_load load_def)
qed

lemma wake_go:
  assumes "wake_inv m" "i < length (mon_places m)" "pl \<noteq> Deq_asleep" "weight (place_of m i) \<le> weight pl"
  shows "wake_inv (go i pl m)"
  using wake_go_queue [OF assms(1-3), of "mon_queue m"] assms(4) by (simp add: go_def)

text \<open>A thread that falls asleep does so with the queue empty, under the lock.\<close>

lemma place_step_kept:
  assumes m: "lock_inv m" "front_inv m" "wake_inv m"
    and i: "i < length (mon_places m)"
    and step: "place_step i (place_of m i) m = Some (Inr m')"
  shows "lock_inv m'" "front_inv m'" "wake_inv m'"
proof -
  note steps = acquire_def release_def ws_enqueue_def ws_dequeue_def
  show "lock_inv m'"
    using step by (cases "place_of m i")
      (auto simp: steps split: if_splits list.splits intro!: lock_acquire lock_release lock_same m i)
  show "front_inv m'"
    using step by (cases "place_of m i")
      (auto simp: steps split: if_splits list.splits intro!: front_go front_queue m i)
  show "wake_inv m'"
  proof (cases "place_of m i = Deq_test \<and> mon_queue m = []")
    case True
    then have "mon_queue m' = []" using step by (auto simp: release_def)
    then show ?thesis by (rule wake_empty)
  next
    case False
    then show ?thesis
      using step by (cases "place_of m i")
        (auto simp: steps weight_def split: if_splits list.splits intro!: wake_go wake_go_queue m i)
  qed
qed

lemma place_step_inv:
  assumes "mon_inv m" "place_step i (place_of m i) m = Some (Inr m')"
  shows "mon_inv m'"
proof -
  have "i < length (mon_places m)"
    using assms(2) by (intro place_inside notI) simp
  with assms place_step_kept [of m i m'] show ?thesis by (simp add: mon_inv_def)
qed

lemma monitor_step_inv:
  assumes inv: "mon_inv m" and step: "monitor_step l m = Some (Inr m')"
  shows "mon_inv m'"
proof (cases l)
  case (Call_enqueue i job)
  then show ?thesis
    using inv step by (auto simp: mon_inv_def weight_def split: if_splits intro!: lock_same front_go wake_go)
next
  case (Call_dequeue i)
  then show ?thesis
    using inv step by (auto simp: mon_inv_def weight_def split: if_splits intro!: lock_same front_go wake_go)
next
  case (Move i)
  then show ?thesis using place_step_inv [OF inv] step by simp
next
  case (Spurious i)
  then show ?thesis
    using inv step place_inside [of m i]
    by (auto simp: mon_inv_def weight_def split: if_splits intro!: lock_same front_go wake_go)
next
  case (Notify i w)
  have m: "lock_inv m" "front_inv m" "wake_inv m" using inv by (simp_all add: mon_inv_def)
  show ?thesis
  proof (cases w)
    case None
    with Notify step have notify: "place_of m i = Enq_notify" "Deq_asleep \<notin> set (mon_places m)" "m' = go i Enq_leave m"
      by (simp_all split: if_splits)
    then have i: "i < length (mon_places m)" by (intro place_inside) simp
    have "wake_inv m'"
      using notify(2) i by (auto simp: asleep_iff wake_inv_load notify(3) place_of_go split: if_splits)
    with m i notify show ?thesis by (auto simp: mon_inv_def intro!: lock_same front_go)
  next
    case (Some j)
    with Notify step have notify: "place_of m i = Enq_notify" "place_of m j = Deq_asleep"
      "m' = go j Deq_awake (go i Enq_leave m)"
      by (simp_all split: if_splits)
    have i: "i < length (mon_places m)" and j: "j < length (mon_places m)"
      using notify(1,2) by (auto intro: place_inside)
    have ij: "j \<noteq> i" using notify by auto
    have "load m' = load m"
      using load_go [OF i, of Enq_leave] load_go [of j "go i Enq_leave m" Deq_awake] i j ij notify
      by (simp add: weight_def place_of_go)
    moreover have "place_of m k = Deq_asleep" if "place_of m' k = Deq_asleep" for k
      using that i j by (auto simp: notify(3) place_of_go split: if_splits)
    ultimately have "wake_inv m'"
      using m(3) by (auto simp: wake_inv_load notify(3))
    with m i j ij notify show ?thesis
      by (auto simp: mon_inv_def place_of_go intro!: lock_same front_go)
  qed
qed

lemma mon_inv_new: "mon_inv (new_monitor n)"
  by (auto simp: mon_inv_def lock_inv_def front_inv_def wake_inv_load new_monitor_def place_of_def)

lemma mon_inv_reachable: "mon_reachable n m \<Longrightarrow> mon_inv m"
  by (induction rule: mon_reachable.induct) (auto simp: mon_inv_new intro: monitor_step_inv)

section \<open>What the executor relies on\<close>

text \<open>
  A step leaves the queue alone, or is one \<open>enqueue\<close>, or one \<open>dequeue\<close> of \<open>Executor\<close>, and
  never takes the front of an empty list: the two functions can be taken as atomic.
\<close>

lemma step_queue:
  assumes "mon_reachable n m" "monitor_step l m = Some r"
  shows "\<exists>m'. r = Inr m' \<and>
    (mon_queue m' = mon_queue m \<or>
     (\<exists>i job. l = Move i \<and> place_of m i = Enq_splice job \<and> mon_queue m' = ws_enqueue job (mon_queue m)) \<or>
     (\<exists>i job. l = Move i \<and> place_of m i = Deq_front \<and> place_of m' i = Deq_leave job \<and>
        ws_dequeue (mon_queue m) = Some (job, mon_queue m')))"
proof -
  have front: "mon_queue m \<noteq> []" if "place_of m i = Deq_front" for i
    using mon_inv_reachable [OF assms(1)] that by (auto simp: mon_inv_def front_inv_def)
  show ?thesis
  proof (cases l)
    case (Move i)
    with assms(2) have step: "place_step i (place_of m i) m = Some r" by simp
    then have i: "i < length (mon_places m)" by (intro place_inside notI) simp
    show ?thesis
      using step front [of i] i Move
      by (cases "place_of m i")
        (auto simp: acquire_def release_def ws_dequeue_def place_of_go split: if_splits list.splits)
  next
    case (Notify i w)
    with assms(2) show ?thesis by (cases w) (auto split: if_splits)
  qed (use assms(2) in \<open>auto split: if_splits\<close>)
qed

text \<open>
  The steps of the monitor itself: calls come from outside, and a wake-up for no reason
  cannot be counted on. At rest no such step is possible.
\<close>

fun own_step :: "mon_label \<Rightarrow> bool" where
  "own_step (Move i) = True"
| "own_step (Notify i w) = True"
| "own_step _ = False"

definition at_rest :: "monitor \<Rightarrow> bool" where
  "at_rest m \<longleftrightarrow> (\<forall>l. own_step l \<longrightarrow> monitor_step l m = None)"

text \<open>How many steps a thread has before it, the one it wakes up included.\<close>

fun steps_left :: "place \<Rightarrow> nat" where
  "steps_left Away = 0"
| "steps_left Deq_asleep = 0"
| "steps_left (Deq_leave _) = 1"
| "steps_left Deq_front = 2"
| "steps_left Deq_test = 3"
| "steps_left Deq_awake = 4"
| "steps_left Deq_enter = 4"
| "steps_left Enq_leave = 1"
| "steps_left Enq_notify = 6"
| "steps_left (Enq_splice _) = 7"
| "steps_left (Enq_enter _) = 8"

definition effort :: "monitor \<Rightarrow> nat" where
  "effort m = sum_list (map steps_left (mon_places m))"

lemma effort_updates [simp]:
  "effort (m\<lparr>mon_queue := q\<rparr>) = effort m" "effort (m\<lparr>mon_owner := w\<rparr>) = effort m"
  by (simp_all add: effort_def)

lemma effort_go:
  assumes "i < length (mon_places m)"
  shows "effort (go i pl m) + steps_left (place_of m i) = effort m + steps_left pl"
proof -
  have "sum_list (map steps_left (xs[i := pl])) + steps_left (xs ! i) = sum_list (map steps_left xs) + steps_left pl"
    if "i < length xs" for xs
    using that
  proof (induction xs arbitrary: i)
    case (Cons y ys)
    then show ?case by (cases i) simp_all
  qed simp
  from this [OF assms] show ?thesis using assms by (simp add: effort_def go_def place_of_def)
qed

lemma effort_less:
  "i < length (mon_places m) \<Longrightarrow> steps_left pl < steps_left (place_of m i) \<Longrightarrow> effort (go i pl m) < effort m"
  using effort_go [of i m pl] by simp

lemma own_step_effort:
  assumes "own_step l" "monitor_step l m = Some (Inr m')"
  shows "effort m' < effort m"
proof (cases l)
  case (Move i)
  with assms(2) have step: "place_step i (place_of m i) m = Some (Inr m')" by simp
  then have i: "i < length (mon_places m)" by (intro place_inside notI) simp
  show ?thesis
    using step
    by (cases "place_of m i")
      (auto simp: acquire_def release_def ws_dequeue_def split: if_splits list.splits intro!: effort_less i)
next
  case (Notify i w)
  show ?thesis
  proof (cases w)
    case None
    with Notify assms(2) have "place_of m i = Enq_notify" "m' = go i Enq_leave m" by (simp_all split: if_splits)
    with effort_go [of i m Enq_leave] place_inside [of m i] show ?thesis by simp
  next
    case (Some j)
    with Notify assms(2) have notify: "place_of m i = Enq_notify" "place_of m j = Deq_asleep"
      "m' = go j Deq_awake (go i Enq_leave m)"
      by (simp_all split: if_splits)
    then have "i < length (mon_places m)" "j < length (mon_places m)" "j \<noteq> i" by (auto intro: place_inside)
    with notify effort_go [of i m Enq_leave] effort_go [of j "go i Enq_leave m" Deq_awake] show ?thesis
      by (simp add: place_of_go)
  qed
qed (use assms(1) in simp_all)

lemma own_run_effort:
  "list_all own_step ls \<Longrightarrow> mon_exec ls m = Some m' \<Longrightarrow> length ls + effort m' \<le> effort m"
proof (induction ls arbitrary: m)
  case (Cons l ls)
  then obtain m1 where "monitor_step l m = Some (Inr m1)" "mon_exec ls m1 = Some m'"
    by (auto split: option.splits sum.splits)
  with Cons own_step_effort [of l m m1] show ?case by fastforce
qed simp

lemma holder_moves:
  assumes "holds_lock (place_of m i)"
  shows "\<not> at_rest m"
proof (cases "place_of m i = Enq_notify")
  case True
  show ?thesis
  proof (cases "Deq_asleep \<in> set (mon_places m)")
    case False
    with True have "monitor_step (Notify i None) m \<noteq> None" by simp
    then show ?thesis unfolding at_rest_def by (metis own_step.simps(2))
  next
    case asleep: True
    then obtain j where "place_of m j = Deq_asleep" by (auto simp: asleep_iff)
    with True have "monitor_step (Notify i (Some j)) m \<noteq> None" by simp
    then show ?thesis unfolding at_rest_def by (metis own_step.simps(2))
  qed
next
  case False
  then have "monitor_step (Move i) m \<noteq> None"
    using assms by (cases "place_of m i") (auto simp: release_def split: option.splits)
  then show ?thesis unfolding at_rest_def by (metis own_step.simps(1))
qed

lemma rest_places:
  assumes "mon_inv m" "at_rest m"
  shows "place_of m i \<in> {Away, Deq_asleep}"
proof -
  have free: "mon_owner m = None"
    using assms holder_moves by (cases "mon_owner m") (auto simp: mon_inv_def lock_inv_def)
  have "monitor_step (Move i) m = None"
    using assms(2) unfolding at_rest_def by (metis own_step.simps(1))
  moreover have "\<not> holds_lock (place_of m i)" using assms(2) holder_moves by blast
  ultimately show ?thesis using free by (cases "place_of m i") (auto simp: acquire_def)
qed

lemma rest_queue:
  assumes "mon_inv m" "at_rest m" "place_of m i = Deq_asleep"
  shows "mon_queue m = []"
proof -
  have places: "pl \<in> {Away, Deq_asleep}" if pl: "pl \<in> set (mon_places m)" for pl
  proof -
    from pl obtain j where "j < length (mon_places m)" "mon_places m ! j = pl" by (auto simp: in_set_conv_nth)
    then have "place_of m j = pl" by (simp add: place_of_def)
    with rest_places [OF assms(1,2), of j] show ?thesis by simp
  qed
  have "tally heading m = 0" "tally (\<lambda>pl. pl = Enq_notify) m = 0"
    using places by (force simp: tally_def filter_empty_conv)+
  then have "load m = 0" by (simp add: load_def)
  moreover have "wake_inv m" using assms(1) by (simp add: mon_inv_def)
  ultimately show ?thesis using assms(3) by (auto simp: wake_inv_load)
qed

text \<open>
  C11: no lost wake-up. However the threads interleave, with wake-ups for no reason and
  calls at any time: the steps the threads take by themselves come to an end after at most
  \<open>effort\<close> of them, and then every thread has left the two functions or sleeps in \<open>dequeue\<close>,
  which it does only when no job is left.
\<close>

theorem no_lost_wakeup:
  assumes "mon_reachable threads m" "list_all own_step ls" "mon_exec ls m = Some m'"
  shows "length ls \<le> effort m \<and>
    (at_rest m' \<longrightarrow> (\<forall>i. place_of m' i = Away \<or> place_of m' i = Deq_asleep \<and> mon_queue m' = []))"
proof -
  have "mon_inv m'" by (rule mon_inv_reachable [OF mon_reachable_exec [OF assms(1,3)]])
  with rest_places rest_queue own_run_effort [OF assms(2,3)] show ?thesis by fastforce
qed

text \<open>
  A worker that sleeps, a job that comes in, and the steps up to the worker that has it.
\<close>

definition sleeper :: "mon_label list" where
  "sleeper = [Call_dequeue 0, Move 0, Move 0, Call_enqueue 1 7]"

definition handover :: "mon_label list" where
  "handover = [Move 1, Move 1, Notify 1 (Some 0), Move 1, Move 0, Move 0, Move 0, Move 0]"

lemma sleeper_run:
  "mon_exec sleeper (new_monitor 2) =
     Some \<lparr>mon_queue = [], mon_owner = None, mon_places = [Deq_asleep, Enq_enter 7]\<rparr>"
  by code_simp

lemma handover_run:
  "mon_exec handover \<lparr>mon_queue = [], mon_owner = None, mon_places = [Deq_asleep, Enq_enter 7]\<rparr> =
     Some \<lparr>mon_queue = [], mon_owner = None, mon_places = [Away, Away]\<rparr>"
  by code_simp

lemma no_lost_wakeup_witness:
  "length handover \<le> effort \<lparr>mon_queue = [], mon_owner = None, mon_places = [Deq_asleep, Enq_enter 7]\<rparr>"
proof -
  have "mon_reachable 2 \<lparr>mon_queue = [], mon_owner = None, mon_places = [Deq_asleep, Enq_enter 7]\<rparr>"
    by (rule mon_reachable_exec [OF mon_reachable.new sleeper_run])
  moreover have "list_all own_step handover" by (simp add: handover_def)
  ultimately show ?thesis using no_lost_wakeup handover_run by blast
qed

end
