(* ===== verification/Cooperation.thy ===== *)
theory Cooperation
  imports Actor
begin

text \<open>
  \<open>stream-core/src/environment\<close>: the graph of the actors (\<open>adjacency_list.hpp\<close>), the storage
  that numbers them (\<open>storage_space.cpp\<close>), the groups that tell actors of each other and
  spread messages over their members (\<open>abstract_group.cpp\<close>), and the cooperation that
  holds the groups of a program (\<open>cooperation.cpp\<close>).
\<close>

section \<open>Binary search\<close>

text \<open>
  What the standard promises of \<open>upper_bound\<close>, \<open>lower_bound\<close> and \<open>binary_search\<close> on a
  sorted range: the first position whose key is above, or not below, the one looked for.
\<close>

definition upper_bound :: "('a \<Rightarrow> nat) \<Rightarrow> nat \<Rightarrow> 'a list \<Rightarrow> nat" where
  "upper_bound key k xs = length (takeWhile (\<lambda>x. key x \<le> k) xs)"

definition lower_bound :: "('a \<Rightarrow> nat) \<Rightarrow> nat \<Rightarrow> 'a list \<Rightarrow> nat" where
  "lower_bound key k xs = length (takeWhile (\<lambda>x. key x < k) xs)"

definition binary_search :: "('a \<Rightarrow> nat) \<Rightarrow> nat \<Rightarrow> 'a list \<Rightarrow> bool" where
  "binary_search key k xs \<longleftrightarrow>
     (let i = lower_bound key k xs in i < length xs \<and> key (xs ! i) \<le> k)"

definition insert_at :: "nat \<Rightarrow> 'a \<Rightarrow> 'a list \<Rightarrow> 'a list" where
  "insert_at i x xs = take i xs @ [x] @ drop i xs"

section \<open>Vertices and edges\<close>

record node =
  node_id :: nat
  list_vertex :: "nat list"

definition node_add :: "nat \<Rightarrow> node \<Rightarrow> node" where
  "node_add k n =
     (if binary_search id k (list_vertex n) then n
      else n \<lparr>list_vertex := insert_at (upper_bound id k (list_vertex n)) k (list_vertex n)\<rparr>)"

type_synonym registry = "node list"

definition add_vertex :: "nat \<Rightarrow> registry \<Rightarrow> registry" where
  "add_vertex k g =
     (if binary_search node_id k g then g
      else insert_at (upper_bound node_id k g) \<lparr>node_id = k, list_vertex = []\<rparr> g)"

text \<open>\<open>lookup\<close> takes the number of the vertex as its position.\<close>

definition lookup_node :: "nat \<Rightarrow> registry \<Rightarrow> node result" where
  "lookup_node k g = (if k < length g then Inr (g ! k) else Inl Out_of_range)"

definition add_edge :: "nat \<Rightarrow> nat \<Rightarrow> registry \<Rightarrow> registry" where
  "add_edge i j g =
     (let g1 =
        (if binary_search node_id i g then
           (let at = lower_bound node_id i g in
            if at < length g then g[at := node_add j (g ! at)] else g)
         else insert_at (upper_bound node_id i g) (node_add j \<lparr>node_id = i, list_vertex = []\<rparr>) g)
      in if binary_search node_id j g1 then g1
         else insert_at (upper_bound node_id j g1) \<lparr>node_id = j, list_vertex = []\<rparr> g1)"

definition finding_adjacency :: "nat \<Rightarrow> registry \<Rightarrow> nat list result" where
  "finding_adjacency k g = bindE (lookup_node k g) (\<lambda>n. Inr (list_vertex n))"

section \<open>The storage\<close>

record storage_space =
  sp_counter :: nat
  sp_body :: "(nat \<times> address) list"
  sp_registry :: registry

definition empty_space :: storage_space where
  "empty_space = \<lparr>sp_counter = 0, sp_body = [], sp_registry = []\<rparr>"

definition space_add :: "address \<Rightarrow> storage_space \<Rightarrow> nat \<times> storage_space" where
  "space_add a sp =
     (let i = sp_counter sp in
      (i, sp \<lparr>sp_counter := i + 1, sp_body := um_emplace i a (sp_body sp),
              sp_registry := add_vertex i (sp_registry sp)\<rparr>))"

definition create_link :: "nat \<Rightarrow> nat \<Rightarrow> storage_space \<Rightarrow> storage_space" where
  "create_link i j sp = sp \<lparr>sp_registry := add_edge i j (sp_registry sp)\<rparr>"

definition space_get :: "nat \<Rightarrow> storage_space \<Rightarrow> address result" where
  "space_get i sp = (case um_find i (sp_body sp) of Some a \<Rightarrow> Inr a | None \<Rightarrow> Inl Out_of_range)"

fun get_actors :: "nat list \<Rightarrow> storage_space \<Rightarrow> address list result" where
  "get_actors [] sp = Inr []"
| "get_actors (i # is) sp = bindE (space_get i sp) (\<lambda>a. bindE (get_actors is sp) (\<lambda>as. Inr (a # as)))"

definition current_layer :: "nat \<Rightarrow> storage_space \<Rightarrow> address list result" where
  "current_layer i sp = bindE (finding_adjacency i (sp_registry sp)) (\<lambda>is. get_actors is sp)"

section \<open>The graph stays sorted\<close>

lemma sorted_search:
  assumes "sorted (map key xs)"
  shows "binary_search key k xs \<longleftrightarrow> k \<in> key ` set xs"
  using assms
proof (induction xs)
  case Nil
  then show ?case by (simp add: binary_search_def)
next
  case (Cons x xs)
  then show ?case
    by (cases "key x" k rule: linorder_cases) (auto simp: binary_search_def lower_bound_def Let_def)
qed

lemma sorted_insert_upper:
  assumes "sorted (map key xs)" "k \<notin> key ` set xs" "key x = k"
  shows "sorted (map key (insert_at (upper_bound key k xs) x xs))"
  using assms
proof (induction xs)
  case Nil
  then show ?case by (simp add: insert_at_def)
next
  case (Cons y xs)
  then show ?case
    by (cases "key y \<le> k") (auto simp: insert_at_def upper_bound_def dest: set_takeWhileD in_set_takeD in_set_dropD)
qed

lemma set_insert_at: "set (insert_at i x xs) = insert x (set xs)"
  by (simp add: insert_at_def) (metis append_take_drop_id set_append)

lemma distinct_insert_at: "distinct (map f (insert_at i x xs)) \<longleftrightarrow> distinct (map f xs) \<and> f x \<notin> f ` set xs"
proof -
  have "distinct (map f (ys @ [x] @ zs)) \<longleftrightarrow> distinct (map f (ys @ zs)) \<and> f x \<notin> f ` set (ys @ zs)" for ys zs
    by auto
  from this [of "take i xs" "drop i xs"] show ?thesis by (simp add: insert_at_def)
qed

definition node_ok :: "node \<Rightarrow> bool" where
  "node_ok n \<longleftrightarrow> sorted (list_vertex n) \<and> distinct (list_vertex n)"

lemma node_add_ok: "node_ok n \<Longrightarrow> node_ok (node_add j n)"
  using sorted_insert_upper [of id "list_vertex n" j j] sorted_search [of id "list_vertex n" j]
    distinct_insert_at [of id _ j "list_vertex n"]
  by (auto simp: node_ok_def node_add_def)

lemma node_add_set: "node_ok n \<Longrightarrow> set (list_vertex (node_add j n)) = insert j (set (list_vertex n))"
  using sorted_search [of id "list_vertex n" j] by (auto simp: node_ok_def node_add_def set_insert_at)

lemma node_add_id [simp]: "node_id (node_add j n) = node_id n"
  by (simp add: node_add_def)

text \<open>The vertices are numbered by their positions, and every edge leads to a vertex.\<close>

definition registry_ok :: "registry \<Rightarrow> bool" where
  "registry_ok g \<longleftrightarrow> map node_id g = [0..<length g] \<and> (\<forall>n \<in> set g. node_ok n \<and> set (list_vertex n) \<subseteq> {..<length g})"

definition linked :: "registry \<Rightarrow> nat \<Rightarrow> nat \<Rightarrow> bool" where
  "linked g i j \<longleftrightarrow> i < length g \<and> j \<in> set (list_vertex (g ! i))"

lemma registry_ids:
  assumes "registry_ok g"
  shows "node_id ` set g = {..<length g}" "i < length g \<Longrightarrow> node_id (g ! i) = i"
proof -
  have "set (map node_id g) = set [0..<length g]" using assms by (simp add: registry_ok_def)
  then show "node_id ` set g = {..<length g}" by (simp add: atLeast0LessThan)
  assume "i < length g"
  then have "map node_id g ! i = [0..<length g] ! i" using assms by (simp add: registry_ok_def)
  with \<open>i < length g\<close> show "node_id (g ! i) = i" by simp
qed

lemma add_vertex_next:
  assumes "registry_ok g"
  shows "add_vertex (length g) g = g @ [\<lparr>node_id = length g, list_vertex = []\<rparr>]"
proof -
  have "sorted (map node_id g)" using assms by (simp add: registry_ok_def)
  then have "\<not> binary_search node_id (length g) g"
    by (simp add: sorted_search registry_ids(1) [OF assms])
  moreover have "node_id n \<le> length g" if "n \<in> set g" for n
    using that registry_ids(1) [OF assms] by (metis image_eqI lessThan_iff less_imp_le)
  then have "takeWhile (\<lambda>x. node_id x \<le> length g) g = g"
    by (simp add: takeWhile_eq_all_conv)
  then have "upper_bound node_id (length g) g = length g" by (simp only: upper_bound_def)
  ultimately show ?thesis by (simp add: add_vertex_def insert_at_def)
qed

lemma add_edge_update:
  assumes "registry_ok g" "i < length g" "j < length g"
  shows "add_edge i j g = g[i := node_add j (g ! i)]"
proof -
  have s: "sorted (map node_id g)" using assms(1) by (simp add: registry_ok_def)
  have i: "binary_search node_id i g" using assms s by (simp add: sorted_search registry_ids(1))
  have "lower_bound node_id i g = i"
  proof -
    have "takeWhile (\<lambda>n. node_id n < i) g = take i g"
      using assms registry_ids(2) [OF assms(1)]
      by (intro takeWhile_eq_take_P_nth) auto
    then show ?thesis using assms(2) by (simp add: lower_bound_def)
  qed
  moreover have "map node_id (g[i := node_add j (g ! i)]) = map node_id g"
    by (metis list_update_id map_update node_add_id)
  then have "binary_search node_id j (g[i := node_add j (g ! i)])"
    using sorted_search [of node_id "g[i := node_add j (g ! i)]" j] s assms registry_ids(1) [OF assms(1)]
    by (metis image_set lessThan_iff)
  ultimately show ?thesis using i assms(2) by (simp add: add_edge_def)
qed

lemma registry_ok_add_vertex:
  assumes "registry_ok g"
  shows "registry_ok (add_vertex (length g) g)" "length (add_vertex (length g) g) = Suc (length g)"
    "linked (add_vertex (length g) g) i j \<longleftrightarrow> linked g i j"
proof -
  have "set (list_vertex n) \<subseteq> {..<Suc (length g)}" if "n \<in> set g" for n
    using assms that by (force simp: registry_ok_def)
  then show "registry_ok (add_vertex (length g) g)"
    using assms by (auto simp: add_vertex_next registry_ok_def node_ok_def)
qed (auto simp: add_vertex_next [OF assms] linked_def nth_append less_Suc_eq)

lemma registry_ok_add_edge:
  assumes "registry_ok g" "i < length g" "j < length g"
  shows "registry_ok (add_edge i j g)" "length (add_edge i j g) = length g"
    "linked (add_edge i j g) a b \<longleftrightarrow> linked g a b \<or> (a = i \<and> b = j)"
proof -
  have ok: "node_ok (g ! i)" "set (list_vertex (g ! i)) \<subseteq> {..<length g}"
    using assms(1,2) by (simp_all add: registry_ok_def)
  have ids: "map node_id (g[i := node_add j (g ! i)]) = map node_id g"
    by (metis list_update_id map_update node_add_id)
  show "length (add_edge i j g) = length g" by (simp add: add_edge_update [OF assms])
  show "registry_ok (add_edge i j g)"
    using assms subsetD [OF ok(2)] node_add_ok [OF ok(1), of j] node_add_set [OF ok(1), of j]
    by (auto simp: add_edge_update [OF assms] registry_ok_def ids dest!: set_update_subset_insert [THEN subsetD])
  show "linked (add_edge i j g) a b \<longleftrightarrow> linked g a b \<or> (a = i \<and> b = j)"
    using assms(2) node_add_set [OF ok(1), of j]
    by (auto simp: add_edge_update [OF assms] linked_def nth_list_update)
qed

section \<open>The storage is a set of links\<close>

datatype space_op = Add_actor address | Link nat nat

fun space_step :: "space_op \<Rightarrow> storage_space \<Rightarrow> storage_space" where
  "space_step (Add_actor a) sp = snd (space_add a sp)"
| "space_step (Link i j) sp = create_link i j sp"

text \<open>The code links only numbers that \<open>add\<close> has returned.\<close>

fun links_known :: "nat \<Rightarrow> space_op list \<Rightarrow> bool" where
  "links_known n [] = True"
| "links_known n (Add_actor a # ops) = links_known (Suc n) ops"
| "links_known n (Link i j # ops) = (i < n \<and> j < n \<and> links_known n ops)"

fun added :: "space_op list \<Rightarrow> address list" where
  "added [] = []"
| "added (Add_actor a # ops) = a # added ops"
| "added (Link i j # ops) = added ops"

definition space_inv :: "address list \<Rightarrow> (nat \<times> nat) set \<Rightarrow> storage_space \<Rightarrow> bool" where
  "space_inv as links sp \<longleftrightarrow>
     sp_counter sp = length as \<and> length (sp_registry sp) = length as \<and> registry_ok (sp_registry sp)
     \<and> (\<forall>i. um_find i (sp_body sp) = (if i < length as then Some (as ! i) else None))
     \<and> (\<forall>i j. linked (sp_registry sp) i j \<longleftrightarrow> (i, j) \<in> links)"

lemma space_inv_empty: "space_inv [] {} empty_space"
  by (simp add: space_inv_def empty_space_def registry_ok_def linked_def)

lemma space_inv_add:
  assumes "space_inv as links sp"
  shows "space_inv (as @ [a]) links (space_step (Add_actor a) sp)"
  using assms registry_ok_add_vertex [of "sp_registry sp"]
  by (auto simp: space_inv_def space_add_def Let_def um_find_emplace nth_append less_Suc_eq)

lemma space_inv_link:
  assumes "space_inv as links sp" "i < length as" "j < length as"
  shows "space_inv as (insert (i, j) links) (space_step (Link i j) sp)"
  using assms registry_ok_add_edge [of "sp_registry sp" i j]
  by (auto simp: space_inv_def create_link_def)

lemma space_inv_run:
  assumes "space_inv as links sp" "links_known (length as) ops"
  shows "space_inv (as @ added ops) (links \<union> {(i, j). Link i j \<in> set ops}) (fold space_step ops sp)"
  using assms
proof (induction ops arbitrary: as links sp)
  case Nil
  then show ?case by simp
next
  case (Cons x ops)
  show ?case
  proof (cases x)
    case (Add_actor a)
    with Cons.IH [OF space_inv_add [OF Cons.prems(1), of a]] Cons.prems(2) show ?thesis by simp
  next
    case (Link i j)
    with Cons.IH [OF space_inv_link [OF Cons.prems(1), of i j]] Cons.prems(2)
    have "space_inv (as @ added ops) (insert (i, j) links \<union> {(i, j). Link i j \<in> set ops})
        (fold space_step ops (space_step x sp))" by simp
    moreover have "insert (i, j) links \<union> {(i, j). Link i j \<in> set ops} = links \<union> {(i, j). Link i j \<in> set (x # ops)}"
      using Link by auto
    ultimately show ?thesis using Link by (simp del: space_step.simps)
  qed
qed

lemma get_actors_known: "space_inv as links sp \<Longrightarrow> set is \<subseteq> {..<length as} \<Longrightarrow> get_actors is sp = Inr (map ((!) as) is)"
  by (induction "is") (auto simp: space_inv_def space_get_def)

lemma current_layer_known:
  assumes inv: "space_inv as links sp" and "i < length as"
  shows "current_layer i sp = Inr (map ((!) as) (sorted_list_of_set {j. (i, j) \<in> links}))"
proof -
  let ?n = "sp_registry sp ! i"
  have n: "node_ok ?n" "set (list_vertex ?n) \<subseteq> {..<length as}" "set (list_vertex ?n) = {j. (i, j) \<in> links}"
  proof -
    have mem: "?n \<in> set (sp_registry sp)" and len: "length (sp_registry sp) = length as"
      using inv assms(2) by (simp_all add: space_inv_def)
    have reg: "\<forall>n \<in> set (sp_registry sp). node_ok n \<and> set (list_vertex n) \<subseteq> {..<length as}"
    proof -
      have "registry_ok (sp_registry sp)" using inv by (simp add: space_inv_def)
      then have "\<forall>n \<in> set (sp_registry sp). node_ok n \<and> set (list_vertex n) \<subseteq> {..<length (sp_registry sp)}"
        unfolding registry_ok_def by (rule conjunct2)
      then show ?thesis by (simp only: len)
    qed
    show "node_ok ?n" using bspec [OF reg mem] by (rule conjunct1)
    show "set (list_vertex ?n) \<subseteq> {..<length as}" using bspec [OF reg mem] by (rule conjunct2)
    have "\<forall>j. linked (sp_registry sp) i j \<longleftrightarrow> (i, j) \<in> links" using inv by (simp add: space_inv_def)
    then show "set (list_vertex ?n) = {j. (i, j) \<in> links}" using assms(2) len by (auto simp: linked_def)
  qed
  then have "list_vertex ?n = sorted_list_of_set {j. (i, j) \<in> links}"
    by (metis node_ok_def sorted_list_of_set.idem_if_sorted_distinct)
  with n inv assms(2) get_actors_known [OF inv, of "list_vertex ?n"] show ?thesis
    by (simp add: current_layer_def finding_adjacency_def lookup_node_def space_inv_def)
qed

text \<open>
  C22: the storage implements a list of actors and a set of links: after any sequence of
  additions and of links between actors that were added, \<open>get\<close> returns the actor by its
  number, and the layer of an actor is exactly the actors linked from it, each once, in
  the order of their numbers; no look-up of a known number raises.
\<close>

theorem layer_is_linked_set:
  assumes "links_known 0 ops" "i < length (added ops)"
  shows "space_get i (fold space_step ops empty_space) = Inr (added ops ! i)
    \<and> current_layer i (fold space_step ops empty_space)
      = Inr (map ((!) (added ops)) (sorted_list_of_set {j. Link i j \<in> set ops}))"
proof -
  have "space_inv (added ops) {(i, j). Link i j \<in> set ops} (fold space_step ops empty_space)"
    using space_inv_run [OF space_inv_empty, of ops] assms(1) by simp
  from current_layer_known [OF this assms(2)] this assms(2) show ?thesis
    by (simp add: space_inv_def space_get_def)
qed

definition demo_ops :: "space_op list" where
  "demo_ops = [Add_actor \<lparr>addr_id = 5, addr_name = ''a''\<rparr>, Add_actor \<lparr>addr_id = 6, addr_name = ''b''\<rparr>,
     Link 0 1, Link 0 0, Link 0 1]"

lemma layer_is_linked_set_witness:
  "space_get 0 (fold space_step demo_ops empty_space) = Inr (added demo_ops ! 0)
    \<and> current_layer 0 (fold space_step demo_ops empty_space)
      = Inr (map ((!) (added demo_ops)) (sorted_list_of_set {j. Link 0 j \<in> set demo_ops}))"
  by (rule layer_is_linked_set) (simp_all add: demo_ops_def)

end
