(* ===== verification/Wiring.thy ===== *)
theory Wiring
  imports Cooperation Device Router Platform
begin

text \<open>
  The groups of the actors (\<open>abstract_group.cpp\<close>), the cooperation that holds them
  (\<open>cooperation.cpp\<close>), and \<open>init_service\<close> of the three programs, which tells the services
  of each other: what the contacts of every service are once its mailbox is processed.
\<close>

section \<open>Groups\<close>

text \<open>A message posted to an actor: receiver, sender, command and body.\<close>

type_synonym posted = "address \<times> address \<times> string \<times> unit payload"

record abstract_group =
  gr_cursor :: nat
  gr_entry :: nat
  gr_shared :: "nat list"

definition tell :: "address \<Rightarrow> address \<Rightarrow> address \<Rightarrow> posted" where
  "tell receiver sender a = (receiver, sender, ''sync_contacts'', P_address (Some a))"

text \<open>
  The constructor: the actor is told its channel, whose name is never set, and is numbered.
  The group itself is identified by the number of its entry point.
\<close>

definition group_new :: "address \<Rightarrow> storage_space \<Rightarrow> posted list \<times> abstract_group \<times> storage_space" where
  "group_new t sp =
     (let (i, sp) = space_add t sp
      in ([(t, t, ''add_channel'', P_channel (Some (i, [])))],
          \<lparr>gr_cursor = 0, gr_entry = i, gr_shared = []\<rparr>, sp))"

definition entry_point :: "abstract_group \<Rightarrow> storage_space \<Rightarrow> address result" where
  "entry_point g sp = space_get (gr_entry g) sp"

definition group_add ::
    "address \<Rightarrow> abstract_group \<Rightarrow> storage_space \<Rightarrow> (posted list \<times> abstract_group \<times> storage_space) result" where
  "group_add t g sp =
     bindE (get_actors (gr_shared g) sp) (\<lambda>shared.
     let (i, sp) = space_add t sp
     in Inr (map (tell t t) shared, g, create_link (gr_entry g) i sp))"

definition group_add_shared ::
    "address \<Rightarrow> abstract_group \<Rightarrow> storage_space \<Rightarrow> (posted list \<times> abstract_group \<times> storage_space) result" where
  "group_add_shared t g sp =
     (let (i, sp) = space_add t sp; g = g \<lparr>gr_shared := gr_shared g @ [i]\<rparr> in
      bindE (entry_point g sp) (\<lambda>e.
      bindE (current_layer (gr_entry g) sp) (\<lambda>members.
      Inr (map (\<lambda>a. tell a t t) (e # members), g, sp))))"

definition group_join :: "abstract_group \<Rightarrow> abstract_group \<Rightarrow> storage_space \<Rightarrow> posted list result" where
  "group_join g other sp =
     bindE (entry_point g sp) (\<lambda>e.
     bindE (entry_point other sp) (\<lambda>o_entry.
     bindE (current_layer (gr_entry g) sp) (\<lambda>members.
     Inr (map (\<lambda>a. tell a o_entry o_entry) (e # members)))))"

text \<open>
  \<open>send\<close> gives a message to the next member in turn: the result is the member it goes to,
  if there is one. \<open>tmp_address[cursor]\<close> is not checked.
\<close>

definition group_send :: "abstract_group \<Rightarrow> storage_space \<Rightarrow> (address option \<times> abstract_group) result" where
  "group_send g sp =
     bindE (current_layer (gr_entry g) sp) (\<lambda>members.
     if members = [] then Inr (None, g)
     else if gr_cursor g < length members then
       (let next = gr_cursor g + 1
        in Inr (Some (members ! gr_cursor g), g \<lparr>gr_cursor := if next \<ge> length members then 0 else next\<rparr>))
     else Inl Undefined)"

definition group_broadcast :: "abstract_group \<Rightarrow> storage_space \<Rightarrow> address list result" where
  "group_broadcast g sp = current_layer (gr_entry g) sp"

fun group_send_all :: "nat \<Rightarrow> abstract_group \<Rightarrow> storage_space \<Rightarrow> (address option list \<times> abstract_group) result" where
  "group_send_all 0 g sp = Inr ([], g)"
| "group_send_all (Suc n) g sp =
     bindE (group_send g sp) (\<lambda>(t, g).
     bindE (group_send_all n g sp) (\<lambda>(ts, g). Inr (t # ts, g)))"

lemma group_send_all_turn:
  assumes "current_layer (gr_entry g) sp = Inr members" "gr_cursor g < length members"
  shows "\<exists>g'. group_send_all n g sp = Inr (map (\<lambda>i. Some (members ! ((gr_cursor g + i) mod length members))) [0..<n], g')
     \<and> gr_entry g' = gr_entry g \<and> gr_cursor g' = (gr_cursor g + n) mod length members"
  using assms
proof (induction n arbitrary: g)
  case 0
  then show ?case by simp
next
  case (Suc n)
  let ?l = "length members" and ?c = "gr_cursor g"
  define g1 where "g1 = g \<lparr>gr_cursor := (?c + 1) mod ?l\<rparr>"
  have turn: "(if ?c + 1 \<ge> ?l then 0 else ?c + 1) = (?c + 1) mod ?l"
    using Suc.prems(2) by (cases "?c + 1 = ?l") auto
  have send: "group_send g sp = Inr (Some (members ! ?c), g1)"
    using Suc.prems turn by (auto simp: group_send_def g1_def Let_def)
  have "0 < ?l" using Suc.prems(2) by linarith
  then have "gr_cursor g1 < ?l" by (simp add: g1_def)
  with Suc.IH [of g1] Suc.prems(1) obtain g' where
    "group_send_all n g1 sp = Inr (map (\<lambda>i. Some (members ! ((gr_cursor g1 + i) mod ?l))) [0..<n], g')"
    "gr_entry g' = gr_entry g1" "gr_cursor g' = (gr_cursor g1 + n) mod ?l"
    by (auto simp: g1_def)
  moreover have "(gr_cursor g1 + i) mod ?l = (?c + Suc i) mod ?l" for i
    by (simp add: g1_def mod_add_left_eq)
  moreover have "map (\<lambda>i. Some (members ! ((?c + i) mod ?l))) [0..<Suc n]
      = Some (members ! ?c) # map (\<lambda>i. Some (members ! ((?c + Suc i) mod ?l))) [0..<n]"
    using Suc.prems(2) by (simp add: map_upt_Suc del: upt_Suc)
  ultimately show ?case using send by (simp add: g1_def)
qed

text \<open>
  A channel spreads its messages over the members of its group in turn: of any number
  of messages in a row, message \<open>i\<close> goes to the member \<open>i\<close> places after the cursor, around
  the group; every message goes to a member, and the cursor never leaves the group.
\<close>

lemma channel_round_robin:
  assumes "current_layer (gr_entry g) sp = Inr members" "gr_cursor g < length members"
  shows "\<exists>g'. group_send_all n g sp
      = Inr (map (\<lambda>i. Some (members ! ((gr_cursor g + i) mod length members))) [0..<n], g')
     \<and> gr_cursor g' < length members"
proof -
  have "length members > 0" using assms(2) by linarith
  then have "m mod length members < length members" for m by simp
  with group_send_all_turn [OF assms, of n] show ?thesis by fastforce
qed

definition actor_of :: "string \<Rightarrow> address" where
  "actor_of name = \<lparr>addr_id = 0, addr_name = name\<rparr>"

definition demo_group_ops :: "space_op list" where
  "demo_group_ops = map (Add_actor \<circ> actor_of) [''e'', ''a'', ''b''] @ [Link 0 1, Link 0 2]"

lemma channel_round_robin_witness:
  "\<exists>g'. group_send_all 5 \<lparr>gr_cursor = 1, gr_entry = 0, gr_shared = []\<rparr> (fold space_step demo_group_ops empty_space)
      = Inr (map (\<lambda>i. Some ([actor_of ''a'', actor_of ''b''] !
          ((gr_cursor \<lparr>gr_cursor = 1, gr_entry = 0, gr_shared = []\<rparr> + i) mod length [actor_of ''a'', actor_of ''b''])))
          [0..<5], g')
     \<and> gr_cursor g' < length [actor_of ''a'', actor_of ''b'']"
proof (rule channel_round_robin)
  show "current_layer (gr_entry \<lparr>gr_cursor = 1, gr_entry = 0, gr_shared = []\<rparr>) (fold space_step demo_group_ops empty_space)
      = Inr [actor_of ''a'', actor_of ''b'']" by code_simp
qed simp

section \<open>The cooperation\<close>

record cooperation =
  cp_groups :: "(string \<times> abstract_group) list"
  cp_space :: storage_space
  cp_input :: "nat list"
  cp_output :: "nat list"
  cp_posts :: "posted list"

definition empty_cooperation :: cooperation where
  "empty_cooperation = \<lparr>cp_groups = [], cp_space = empty_space, cp_input = [], cp_output = [], cp_posts = []\<rparr>"

text \<open>
  \<open>emplace\<close> builds the group before it looks for the name: with a name that is taken, the
  actor is numbered and told a channel, and the old group is returned.
\<close>

definition created_group :: "address \<Rightarrow> cooperation \<Rightarrow> abstract_group \<times> cooperation" where
  "created_group t c =
     (let (posts, g, sp) = group_new t (cp_space c);
          groups = um_emplace (addr_name t) g (cp_groups c);
          g = (case um_find (addr_name t) groups of Some g' \<Rightarrow> g' | None \<Rightarrow> g)
      in (g, c \<lparr>cp_groups := groups, cp_space := sp, cp_posts := cp_posts c @ posts\<rparr>))"

definition created_entry_group :: "address \<Rightarrow> cooperation \<Rightarrow> abstract_group \<times> cooperation" where
  "created_entry_group t c =
     (let (g, c) = created_group t c in (g, c \<lparr>cp_input := cp_input c @ [gr_entry g]\<rparr>))"

definition created_end_group :: "address \<Rightarrow> cooperation \<Rightarrow> abstract_group \<times> cooperation" where
  "created_end_group t c =
     (let (g, c) = created_group t c in (g, c \<lparr>cp_output := cp_output c @ [gr_entry g]\<rparr>))"

definition link_groups :: "abstract_group \<Rightarrow> abstract_group \<Rightarrow> storage_space \<Rightarrow> posted list result" where
  "link_groups g1 g2 sp =
     bindE (group_join g1 g2 sp) (\<lambda>p1. bindE (group_join g2 g1 sp) (\<lambda>p2. Inr (p1 @ p2)))"

section \<open>The programs\<close>

text \<open>
  The calls of \<open>init_service\<close>: \<open>env.add_service\<close>, \<open>add_shared\<close> of a data provider and
  \<open>join\<close>, on the groups named after their services.
\<close>

datatype wiring = Add_service string | Add_shared string string | Join string string

definition group_at :: "string \<Rightarrow> cooperation \<Rightarrow> abstract_group result" where
  "group_at name c = (case um_find name (cp_groups c) of Some g \<Rightarrow> Inr g | None \<Rightarrow> Inl Undefined)"

fun wire :: "wiring \<Rightarrow> cooperation \<Rightarrow> cooperation result" where
  "wire (Add_service s) c = Inr (snd (created_group (actor_of s) c))"
| "wire (Add_shared s provider) c =
     bindE (group_at s c) (\<lambda>g.
     bindE (group_add_shared (actor_of provider) g (cp_space c)) (\<lambda>(posts, g, sp).
     Inr (c \<lparr>cp_groups := um_set s g (cp_groups c), cp_space := sp, cp_posts := cp_posts c @ posts\<rparr>)))"
| "wire (Join s other) c =
     bindE (group_at s c) (\<lambda>g.
     bindE (group_at other c) (\<lambda>h.
     bindE (group_join g h (cp_space c)) (\<lambda>posts.
     Inr (c \<lparr>cp_posts := cp_posts c @ posts\<rparr>))))"

fun wire_all :: "wiring list \<Rightarrow> cooperation \<Rightarrow> cooperation result" where
  "wire_all [] c = Inr c"
| "wire_all (x # xs) c = bindE (wire x c) (wire_all xs)"

text \<open>The actor processes what was posted to it: the contacts it ends with.\<close>

fun process_posts :: "string \<Rightarrow> posted list \<Rightarrow> local_actor \<Rightarrow> local_actor result" where
  "process_posts name [] la = Inr la"
| "process_posts name ((receiver, sender, command, b) # posts) la =
     (if addr_name receiver = name then
        bindE ((if command = ''sync_contacts'' then sync_contacts else add_channel)
                 (make_message (\<lambda>_. 0) sender command b) la) (process_posts name posts)
      else process_posts name posts la)"

definition wired_contacts :: "wiring list \<Rightarrow> string \<Rightarrow> string list result" where
  "wired_contacts program name =
     bindE (wire_all program empty_cooperation) (\<lambda>c.
     bindE (process_posts name (cp_posts c) \<lparr>contacts = [], channels = []\<rparr>) (\<lambda>la.
     Inr (map fst (contacts la))))"

definition joins :: "string \<Rightarrow> string list \<Rightarrow> wiring list" where
  "joins s others = map (Join s) others"

definition manager_program :: "wiring list" where
  "manager_program =
     map Add_service [''router'', ''users'', ''groups'', ''subscriptions'', ''connections'', ''devices'',
       ''platform'', ''manager''] @
     [Add_shared ''users'' ''ws'', Add_shared ''users'' ''client''] @
     joins ''users'' [''router'', ''groups'', ''subscriptions'', ''connections'', ''devices''] @
     [Add_shared ''groups'' ''ws'', Add_shared ''groups'' ''client''] @
     joins ''groups'' [''router'', ''users'', ''subscriptions'', ''connections'', ''devices''] @
     [Add_shared ''subscriptions'' ''ws'', Add_shared ''subscriptions'' ''client''] @
     joins ''subscriptions'' [''router'', ''users'', ''groups'', ''connections'', ''devices''] @
     [Add_shared ''connections'' ''ws'', Add_shared ''connections'' ''client''] @
     joins ''connections'' [''router'', ''users'', ''groups'', ''subscriptions'', ''devices''] @
     [Add_shared ''devices'' ''ws'', Add_shared ''devices'' ''client''] @
     joins ''devices'' [''router'', ''users'', ''groups'', ''subscriptions'', ''connections''] @
     [Add_shared ''platform'' ''ws'', Add_shared ''platform'' ''client''] @
     joins ''platform'' [''router'', ''users'', ''groups'', ''subscriptions'', ''connections''] @
     [Add_shared ''router'' ''http'', Add_shared ''router'' ''ws'', Add_shared ''router'' ''client''] @
     joins ''router'' [''users'', ''groups'', ''subscriptions'', ''connections'', ''devices'', ''manager''] @
     [Add_shared ''manager'' ''ws'', Join ''manager'' ''router'']"

definition platform_program :: "wiring list" where
  "platform_program =
     map Add_service [''router'', ''profile'', ''managers'', ''manager''] @
     [Add_shared ''profile'' ''ws'', Join ''profile'' ''router'',
      Add_shared ''managers'' ''ws'', Add_shared ''managers'' ''http'', Join ''managers'' ''router'',
      Add_shared ''router'' ''http'', Add_shared ''router'' ''ws''] @
     joins ''router'' [''profile'', ''managers'', ''manager''] @
     [Add_shared ''manager'' ''ws'', Join ''manager'' ''router'']"

definition device_program :: "wiring list" where
  "device_program =
     map Add_service [''manager'', ''control''] @
     [Add_shared ''control'' ''client'', Join ''control'' ''manager'',
      Add_shared ''manager'' ''client'', Join ''manager'' ''control'']"

text \<open>
  The contacts that the handlers of a service address by name, and for the routers those
  they reach through the lists of their services.
\<close>

definition manager_addressed :: "(string \<times> string list) list" where
  "manager_addressed =
     [(''router'', [''ws'', ''users'', ''devices'', ''manager''] @ get_service_list),
      (''users'', [''ws'', ''router'']), (''groups'', [''ws'']),
      (''connections'', [''ws'', ''subscriptions'']),
      (''subscriptions'', [''ws'', ''connections'', ''devices'']),
      (''devices'', [''ws'', ''connections'', ''subscriptions'']),
      (''platform'', [''client'', ''router'']), (''manager'', [''ws''])]"

definition platform_addressed :: "(string \<times> string list) list" where
  "platform_addressed =
     [(''router'', [''ws'', ''managers'', ''profile''] @ platform_service_list),
      (''profile'', [''ws'', ''router'']), (''managers'', [''ws'', ''http'']), (''manager'', [''ws''])]"

definition device_addressed :: "(string \<times> string list) list" where
  "device_addressed = [(''manager'', [''client'', ''ws''] @ device_service_list), (''control'', [''manager''])]"

definition knows_contacts :: "wiring list \<Rightarrow> string \<times> string list \<Rightarrow> bool" where
  "knows_contacts program need =
     (case wired_contacts program (fst need) of
        Inl e \<Rightarrow> False
      | Inr cs \<Rightarrow> list_all (\<lambda>n. n \<in> set cs) (snd need))"

text \<open>The contacts a service addresses and is not told of.\<close>

definition missing_contacts :: "wiring list \<Rightarrow> string \<times> string list \<Rightarrow> string list result" where
  "missing_contacts program need =
     bindE (wired_contacts program (fst need)) (\<lambda>cs. Inr (filter (\<lambda>n. n \<notin> set cs) (snd need)))"

section \<open>What the wiring tells a service\<close>

text \<open>
  A program is in order when it names a service only after it has added it. No group of
  these programs has members, so each call tells one entry point of one actor.
\<close>

fun program_ok :: "string list \<Rightarrow> wiring list \<Rightarrow> bool" where
  "program_ok known [] = True"
| "program_ok known (Add_service s # xs) = program_ok (s # known) xs"
| "program_ok known (Add_shared s provider # xs) = (s \<in> set known \<and> program_ok known xs)"
| "program_ok known (Join s other # xs) = (s \<in> set known \<and> other \<in> set known \<and> program_ok known xs)"

fun told :: "string \<Rightarrow> wiring list \<Rightarrow> string list" where
  "told name [] = []"
| "told name (Add_service s # xs) = told name xs"
| "told name (Add_shared s provider # xs) = (if s = name then provider # told name xs else told name xs)"
| "told name (Join s other # xs) = (if s = name then other # told name xs else told name xs)"

definition wiring_inv :: "address list \<Rightarrow> string list \<Rightarrow> cooperation \<Rightarrow> bool" where
  "wiring_inv as known c \<longleftrightarrow> space_inv as {} (cp_space c)
     \<and> (\<forall>s \<in> set known. \<exists>g. um_find s (cp_groups c) = Some g)
     \<and> (\<forall>s g. um_find s (cp_groups c) = Some g \<longrightarrow> gr_entry g < length as \<and> as ! gr_entry g = actor_of s)"

lemma wiring_inv_empty: "wiring_inv [] [] empty_cooperation"
  by (simp add: wiring_inv_def empty_cooperation_def space_inv_empty)

lemma wiring_inv_group:
  assumes "wiring_inv as known c" "s \<in> set known"
  shows "\<exists>g. um_find s (cp_groups c) = Some g \<and> gr_entry g < length as \<and> entry_point g (cp_space c) = Inr (actor_of s)
    \<and> current_layer (gr_entry g) (cp_space c) = Inr []"
proof -
  obtain g where g: "um_find s (cp_groups c) = Some g" "gr_entry g < length as" "as ! gr_entry g = actor_of s"
    using assms unfolding wiring_inv_def by blast
  have inv: "space_inv as {} (cp_space c)" using assms(1) by (simp add: wiring_inv_def)
  from current_layer_known [OF inv g(2)] g inv show ?thesis
    by (auto simp: entry_point_def space_get_def space_inv_def)
qed

lemma space_inv_add_actor:
  "space_inv as links sp \<Longrightarrow> fst (space_add a sp) = length as
     \<and> space_inv (as @ [a]) links (snd (space_add a sp))"
  using space_inv_add [of as links sp a] by (simp add: space_inv_def space_add_def Let_def)

lemma wire_add_service:
  assumes "wiring_inv as known c"
  shows "\<exists>c' a. wire (Add_service s) c = Inr c' \<and> wiring_inv (as @ [actor_of s]) (s # known) c'
    \<and> cp_posts c' = cp_posts c @ [(actor_of s, actor_of s, ''add_channel'', P_channel (Some (a, [])))]"
proof -
  obtain i sp where add: "space_add (actor_of s) (cp_space c) = (i, sp)" by fastforce
  with assms space_inv_add_actor [of as "{}" "cp_space c" "actor_of s"]
  have "i = length as" "space_inv (as @ [actor_of s]) {} sp" by (auto simp: wiring_inv_def)
  with assms add show ?thesis
    by (auto simp: wiring_inv_def created_group_def group_new_def um_find_emplace nth_append actor_of_def
        intro: less_SucI split: option.splits)
qed

lemma wire_add_shared:
  assumes inv: "wiring_inv as known c" and s: "s \<in> set known"
  shows "\<exists>c'. wire (Add_shared s provider) c = Inr c' \<and> wiring_inv (as @ [actor_of provider]) known c'
    \<and> cp_posts c' = cp_posts c @ [tell (actor_of s) (actor_of provider) (actor_of provider)]"
proof -
  obtain i sp where add: "space_add (actor_of provider) (cp_space c) = (i, sp)" by fastforce
  with inv space_inv_add_actor [of as "{}" "cp_space c" "actor_of provider"]
  have i: "i = length as" and sp: "space_inv (as @ [actor_of provider]) {} sp" by (auto simp: wiring_inv_def)
  let ?c = "c \<lparr>cp_space := sp\<rparr>"
  have "wiring_inv (as @ [actor_of provider]) known ?c"
    using inv sp by (fastforce simp: wiring_inv_def nth_append)
  from wiring_inv_group [OF this s] obtain g where g: "um_find s (cp_groups c) = Some g"
    "entry_point g sp = Inr (actor_of s)" "current_layer (gr_entry g) sp = Inr []" by auto
  from g add inv sp s show ?thesis
    by (auto simp: group_at_def group_add_shared_def entry_point_def wiring_inv_def um_find_set nth_append
        intro: less_SucI)
qed

lemma wire_join:
  assumes inv: "wiring_inv as known c" and "s \<in> set known" "t \<in> set known"
  shows "\<exists>c'. wire (Join s t) c = Inr c' \<and> wiring_inv as known c'
    \<and> cp_posts c' = cp_posts c @ [tell (actor_of s) (actor_of t) (actor_of t)]"
  using wiring_inv_group [OF inv assms(2)] wiring_inv_group [OF inv assms(3)] inv
  by (auto simp: group_at_def group_join_def wiring_inv_def)

text \<open>What the posts of a program say to one service, in the order they are processed.\<close>

definition heard :: "string \<Rightarrow> posted list \<Rightarrow> string list \<Rightarrow> bool" where
  "heard name posts names \<longleftrightarrow>
     (\<forall>la. \<exists>la'. process_posts name posts la = Inr la'
        \<and> set (map fst (contacts la')) = set (map fst (contacts la)) \<union> set names)"

lemma process_posts_append:
  "process_posts name (ps @ qs) la = bindE (process_posts name ps la) (process_posts name qs)"
  proof (induction ps arbitrary: la)
  case Nil
  then show ?case by simp
next
  case (Cons p ps)
  obtain r s c b where "p = (r, s, c, b)" by (cases p) auto
  with Cons.IH show ?case
    by (cases "(if c = ''sync_contacts'' then sync_contacts else add_channel) (make_message (\<lambda>_. 0) s c b) la")
      (auto simp del: make_message_def)
qed

lemma heard_Nil: "heard name [] []"
  by (simp add: heard_def)

lemma heard_append:
  assumes "heard name ps ms" "heard name qs ns"
  shows "heard name (ps @ qs) (ms @ ns)"
proof -
  have "\<exists>la'. process_posts name (ps @ qs) la = Inr la'
      \<and> set (map fst (contacts la')) = set (map fst (contacts la)) \<union> set (ms @ ns)" for la
  proof -
    obtain l1 where 1: "process_posts name ps la = Inr l1"
      "set (map fst (contacts l1)) = set (map fst (contacts la)) \<union> set ms"
      using assms(1) unfolding heard_def by blast
    obtain l2 where "process_posts name qs l1 = Inr l2"
      "set (map fst (contacts l2)) = set (map fst (contacts l1)) \<union> set ns"
      using assms(2) unfolding heard_def by blast
    with 1 show ?thesis by (auto simp: process_posts_append)
  qed
  then show ?thesis by (simp add: heard_def)
qed

lemma heard_channel:
  "heard name [(actor_of s, actor_of s, ''add_channel'', P_channel (Some ch))] []"
  by (simp add: heard_def add_channel_def make_message_def la_channel_def)

lemma um_emplace_fst: "fst ` set (um_emplace k v m) = insert k (fst ` set m)"
  by (cases "um_find k m") (auto simp: um_emplace_def um_find_def dest: map_of_SomeD intro: rev_image_eqI)

lemma heard_tell:
  "heard name [tell (actor_of s) sender (actor_of t)] (if s = name then [t] else [])"
  by (simp add: heard_def tell_def sync_contacts_def make_message_def la_addresses_def actor_of_def
      um_emplace_fst)

lemma wire_all_heard:
  assumes "wiring_inv as known c" "program_ok known program" "heard name (cp_posts c) ns"
  shows "\<exists>c'. wire_all program c = Inr c' \<and> heard name (cp_posts c') (ns @ told name program)"
  using assms
proof (induction program arbitrary: as known c ns)
  case Nil
  then show ?case by simp
next
  case (Cons x program)
  show ?case
  proof (cases x)
    case (Add_service s)
    obtain c1 a where c1: "wire x c = Inr c1" "wiring_inv (as @ [actor_of s]) (s # known) c1"
      "cp_posts c1 = cp_posts c @ [(actor_of s, actor_of s, ''add_channel'', P_channel (Some (a, [])))]"
      using wire_add_service [OF Cons.prems(1), of s] Add_service by blast
    have "heard name (cp_posts c1) (ns @ [])"
      unfolding c1(3) by (rule heard_append [OF Cons.prems(3) heard_channel])
    with Cons.IH [OF c1(2), of ns] Cons.prems(2) c1(1) Add_service show ?thesis by simp
  next
    case (Add_shared s t)
    obtain c1 where c1: "wire x c = Inr c1" "wiring_inv (as @ [actor_of t]) known c1"
      "cp_posts c1 = cp_posts c @ [tell (actor_of s) (actor_of t) (actor_of t)]"
      using wire_add_shared [OF Cons.prems(1), of s t] Cons.prems(2) Add_shared by auto
    have "heard name (cp_posts c1) (ns @ (if s = name then [t] else []))"
      unfolding c1(3) by (rule heard_append [OF Cons.prems(3) heard_tell])
    with Cons.IH [OF c1(2)] Cons.prems(2) c1(1) Add_shared show ?thesis by (fastforce split: if_splits)
  next
    case (Join s t)
    obtain c1 where c1: "wire x c = Inr c1" "wiring_inv as known c1"
      "cp_posts c1 = cp_posts c @ [tell (actor_of s) (actor_of t) (actor_of t)]"
      using wire_join [OF Cons.prems(1), of s t] Cons.prems(2) Join by auto
    have "heard name (cp_posts c1) (ns @ (if s = name then [t] else []))"
      unfolding c1(3) by (rule heard_append [OF Cons.prems(3) heard_tell])
    with Cons.IH [OF c1(2)] Cons.prems(2) c1(1) Join show ?thesis by (fastforce split: if_splits)
  qed
qed

lemma wired_contacts_told:
  assumes "program_ok [] program"
  shows "\<exists>cs. wired_contacts program name = Inr cs \<and> set cs = set (told name program)"
proof -
  have "heard name (cp_posts empty_cooperation) []" by (simp add: empty_cooperation_def heard_Nil)
  from wire_all_heard [OF wiring_inv_empty assms this] obtain c where
    c: "wire_all program empty_cooperation = Inr c" "heard name (cp_posts c) (told name program)" by auto
  from c(2) obtain la where "process_posts name (cp_posts c) \<lparr>contacts = [], channels = []\<rparr> = Inr la"
    "set (map fst (contacts la)) = set (told name program)"
    by (force simp: heard_def)
  with c(1) show ?thesis by (simp add: wired_contacts_def)
qed

lemma knows_contacts_told:
  assumes "program_ok [] program"
  shows "knows_contacts program need \<longleftrightarrow> set (snd need) \<subseteq> set (told (fst need) program)"
proof -
  obtain cs where "wired_contacts program (fst need) = Inr cs" "set cs = set (told (fst need) program)"
    using wired_contacts_told [OF assms] by blast
  then show ?thesis by (simp add: knows_contacts_def list_all_iff subset_eq)
qed

lemma programs_ok:
  "program_ok [] manager_program" "program_ok [] platform_program" "program_ok [] device_program"
  by (simp_all add: manager_program_def platform_program_def device_program_def joins_def)

lemma manager_told: "list_all (\<lambda>(s, needs). set needs \<subseteq> set (told s manager_program)) manager_addressed"
  unfolding manager_program_def manager_addressed_def joins_def get_service_list_def by simp

lemma platform_told: "list_all (\<lambda>(s, needs). set needs \<subseteq> set (told s platform_program)) platform_addressed"
  unfolding platform_program_def platform_addressed_def joins_def platform_service_list_def by simp

lemma missing_contacts_told:
  assumes "program_ok [] program"
  shows "missing_contacts program need = Inr (filter (\<lambda>n. n \<notin> set (told (fst need) program)) (snd need))"
proof -
  obtain cs where "wired_contacts program (fst need) = Inr cs" "set cs = set (told (fst need) program)"
    using wired_contacts_told [OF assms] by blast
  then show ?thesis by (simp add: missing_contacts_def)
qed

lemma device_missing:
  "filter (\<lambda>n. n \<notin> set (told ''manager'' device_program)) ([''client'', ''ws''] @ device_service_list) = [''ws'']"
  "filter (\<lambda>n. n \<notin> set (told ''control'' device_program)) [''manager''] = []"
  unfolding device_program_def joins_def device_service_list_def by simp_all

lemma knows_all_told:
  assumes "program_ok [] program" "list_all (\<lambda>(s, needs). set needs \<subseteq> set (told s program)) addressed"
  shows "list_all (knows_contacts program) addressed"
  using assms(2) by (rule list.pred_mono_strong) (simp add: knows_contacts_told [OF assms(1)] split_beta)

text \<open>
  C29: the wiring of the three programs succeeds. When a service of the manager or of the
  platform has processed what was posted to it, it knows every contact that its handlers
  address by name and, for the routers, every service of their lists. On the device the same
  holds with one exception: the link of the device addresses \<open>ws\<close>, to report a service or a
  method it does not have, and is never told of it.
\<close>

theorem wiring_complete:
  "list_all (knows_contacts manager_program) manager_addressed
   \<and> list_all (knows_contacts platform_program) platform_addressed
   \<and> map fst device_addressed = [''manager'', ''control'']
   \<and> map (missing_contacts device_program) device_addressed = [Inr [''ws''], Inr []]"
proof (intro conjI)
  show "list_all (knows_contacts manager_program) manager_addressed"
    by (rule knows_all_told [OF programs_ok(1) manager_told])
  show "list_all (knows_contacts platform_program) platform_addressed"
    by (rule knows_all_told [OF programs_ok(2) platform_told])
  show "map (missing_contacts device_program) device_addressed = [Inr [''ws''], Inr []]"
    unfolding device_addressed_def
    by (simp only: list.map fst_conv snd_conv missing_contacts_told [OF programs_ok(3)] device_missing)
qed (simp add: device_addressed_def)

section \<open>The device has no web socket service\<close>

text \<open>
  \<open>device_dispatch\<close> and its \<open>reply_error\<close> answer a command that is not known through the
  contact \<open>ws\<close>, which the wiring of the device never gives to \<open>manager\<close>.
\<close>

lemma device_has_no_ws:
  "\<exists>cs. wired_contacts device_program ''manager'' = Inr cs \<and> set cs = {''client'', ''control''}"
proof -
  have "set (told ''manager'' device_program) = {''client'', ''control''}"
    by (simp add: device_program_def joins_def)
  with wired_contacts_told [OF programs_ok(3), of "''manager''"] show ?thesis by simp
qed

lemma device_unknown_service_run:
  assumes "x_contacts X ''ws'' = None" "parse_map (x_utf X) text = Inr m" "is_request m"
    and "map_index ''metadata'' m = (md, m1)" "value_index ''transport'' md = Inr (v, md')" "as_string v = Inr caller"
    and "fst (parse_request (om_set ''metadata'' md' m1)) = Inr request"
    and "contains (req_metadata request) ''transport''"
    and "x_split X (req_method request) ''.'' = svc # c # rest" "svc \<notin> set device_service_list"
  shows "device_handle X ''dispatcher'' (B_transport (T_ws ident text)) w = (Inl Out_of_range, w)"
  using assms
  by (simp add: device_handle_def device_dispatcher_def device_dispatch_def read_message_def
      reply_error_def respond_def write_ws_def send_def bindA_def lift_def)

text \<open>
  With the contacts the wiring of the device gives to \<open>manager\<close>, a request for a service
  the device does not have ends its handler with the exception of the look-up of \<open>ws\<close>,
  before anything is sent.
\<close>

lemma device_unknown_service_raises:
  assumes "wired_contacts device_program ''manager'' = Inr cs"
    and "{n. x_contacts X n \<noteq> None} = set cs" "parse_map (x_utf X) text = Inr m" "is_request m"
    and "map_index ''metadata'' m = (md, m1)" "value_index ''transport'' md = Inr (v, md')" "as_string v = Inr caller"
    and "fst (parse_request (om_set ''metadata'' md' m1)) = Inr request"
    and "contains (req_metadata request) ''transport''"
    and "x_split X (req_method request) ''.'' = svc # c # rest" "svc \<notin> set device_service_list"
  shows "device_handle X ''dispatcher'' (B_transport (T_ws ident text)) w = (Inl Out_of_range, w)"
proof (rule device_unknown_service_run [OF _ assms(3-)])
  have "set cs = {''client'', ''control''}" using device_has_no_ws assms(1) by simp
  then have "''ws'' \<notin> {n. x_contacts X n \<noteq> None}" unfolding assms(2) by simp
  then show "x_contacts X ''ws'' = None" by simp
qed

definition device_ext :: "string list \<Rightarrow> (string list \<Rightarrow> sql_row list) ext" where
  "device_ext cs = demo_ext \<lparr>x_contacts := (\<lambda>n. if n \<in> set cs then Some [''status''] else None)\<rparr>"

definition demo_unknown :: string where
  "demo_unknown = ''{\"id\":\"1\",\"method\":\"a.b\",\"metadata\":{\"transport\":\"t\"}}''"

definition demo_unknown_map :: json_map where
  "demo_unknown_map =
     [(''id'', JStr ''1''), (''metadata'', JMap [(''transport'', JStr ''t'')]), (''method'', JStr ''a.b'')]"

definition demo_device_link :: "(string list \<Rightarrow> sql_row list, device_impl) world" where
  "demo_device_link = \<lparr>w_db = (\<lambda>_. []), w_priv = \<lparr>dev_device_key = ''d'', dev_manager_key = [], dev_profile_key = []\<rparr>,
     w_sent = []\<rparr>"

lemma device_unknown_service_raises_witness:
  "\<exists>cs. wired_contacts device_program ''manager'' = Inr cs
    \<and> device_handle (device_ext cs) ''dispatcher'' (B_transport (T_ws ''t'' demo_unknown)) demo_device_link
      = (Inl Out_of_range, demo_device_link)"
proof -
  obtain cs where cs: "wired_contacts device_program ''manager'' = Inr cs" using device_has_no_ws by blast
  have "device_handle (device_ext cs) ''dispatcher'' (B_transport (T_ws ''t'' demo_unknown)) demo_device_link
      = (Inl Out_of_range, demo_device_link)"
  proof (rule device_unknown_service_raises [OF cs])
    show "{n. x_contacts (device_ext cs) n \<noteq> None} = set cs" by (auto simp: device_ext_def)
    have "x_utf (device_ext cs) = (\<lambda>us. [])" by (simp add: device_ext_def demo_ext_def)
    moreover have "parse_map (\<lambda>us. []) demo_unknown = Inr demo_unknown_map" by code_simp
    ultimately show "parse_map (x_utf (device_ext cs)) demo_unknown = Inr demo_unknown_map" by simp
    show "is_request demo_unknown_map" by code_simp
    show "map_index ''metadata'' demo_unknown_map = (JMap [(''transport'', JStr ''t'')], demo_unknown_map)"
      by code_simp
    show "value_index ''transport'' (JMap [(''transport'', JStr ''t'')])
        = Inr (JStr ''t'', JMap [(''transport'', JStr ''t'')])" by code_simp
    show "as_string (JStr ''t'') = Inr ''t''" by simp
    show "fst (parse_request (om_set ''metadata'' (JMap [(''transport'', JStr ''t'')]) demo_unknown_map))
        = Inr \<lparr>req_id = JStr ''1'', req_method = ''a.b'', req_params = JNull,
            req_metadata = [(''transport'', JStr ''t'')]\<rparr>" by code_simp
    show "x_split (device_ext cs) (req_method \<lparr>req_id = JStr ''1'', req_method = ''a.b'', req_params = JNull,
            req_metadata = [(''transport'', JStr ''t'')]\<rparr>) ''.'' = ''a'' # ''b'' # []"
      by (simp add: device_ext_def demo_ext_def)
    show "contains (req_metadata \<lparr>req_id = JStr ''1'', req_method = ''a.b'', req_params = JNull,
            req_metadata = [(''transport'', JStr ''t'')]\<rparr>) ''transport''" by code_simp
  qed (simp add: device_service_list_def)
  with cs show ?thesis by blast
qed

end
