(* ===== verification/Json_Containers.thy ===== *)
theory Json_Containers
  imports Json_Text
begin

text \<open>
  The rest of the interface of \<open>map.hpp\<close>, \<open>array.hpp\<close> and \<open>value.hpp\<close>, with the rules of
  \<open>detail/normalize.hpp\<close> by which C++ values become alternatives of the variant. The
  contract of a container with an index is the locale \<open>flexible_array\<close>; it is interpreted
  on \<open>json::array\<close> and on \<open>json::value\<close>, whose shortcuts forward to the array it holds.
\<close>

section \<open>Arrays\<close>

text \<open>\<open>operator[]\<close>, \<open>set\<close> and \<open>erase\<close> of a \<open>std::vector\<close> do not check their range.\<close>

definition array_at :: "u32 \<Rightarrow> json list \<Rightarrow> json result" where
  "array_at i xs = (if unat i < length xs then Inr (xs ! unat i) else Inl Undefined)"

definition array_get :: "(json \<Rightarrow> 'a result) \<Rightarrow> u32 \<Rightarrow> json list \<Rightarrow> 'a result" where
  "array_get as_t i xs = bindE (array_at i xs) as_t"

definition array_set :: "u32 \<Rightarrow> json \<Rightarrow> json list \<Rightarrow> json list result" where
  "array_set i v xs = (if unat i < length xs then Inr (xs[unat i := v]) else Inl Undefined)"

definition array_set_null :: "u32 \<Rightarrow> json list \<Rightarrow> json list result" where
  "array_set_null i xs = array_set i JNull xs"

definition array_push :: "json \<Rightarrow> json list \<Rightarrow> json list" where
  "array_push v xs = xs @ [v]"

text \<open>
  The ranges of \<open>erase\<close> are iterators: positions up to the length, the first not behind the
  second. The result is the position of what follows the erased elements.
\<close>

definition array_erase_range :: "nat \<Rightarrow> nat \<Rightarrow> json list \<Rightarrow> (nat \<times> json list) result" where
  "array_erase_range i j xs =
     (if i \<le> j \<and> j \<le> length xs then Inr (i, take i xs @ drop j xs) else Inl Undefined)"

definition array_erase_iterator :: "nat \<Rightarrow> json list \<Rightarrow> (nat \<times> json list) result" where
  "array_erase_iterator i xs =
     (if i < length xs then Inr (i, take i xs @ drop (Suc i) xs) else Inl Undefined)"

definition array_erase :: "u32 \<Rightarrow> json list \<Rightarrow> json list result" where
  "array_erase i xs = bindE (array_erase_iterator (unat i) xs) (\<lambda>(_, xs). Inr xs)"

definition array_erase_amount :: "u32 \<Rightarrow> nat \<Rightarrow> json list \<Rightarrow> json list result" where
  "array_erase_amount i amount xs =
     bindE (array_erase_range (unat i) (unat i + amount) xs) (\<lambda>(_, xs). Inr xs)"

definition array_clear :: "json list \<Rightarrow> json list" where
  "array_clear xs = []"

definition array_size :: "json list \<Rightarrow> nat" where
  "array_size xs = length xs"

definition array_empty :: "json list \<Rightarrow> bool" where
  "array_empty xs \<longleftrightarrow> xs = []"

text \<open>The constructors from a range and from a list copy through a back inserter.\<close>

definition array_of :: "json list \<Rightarrow> json list" where
  "array_of vs = fold array_push vs []"

section \<open>Maps\<close>

text \<open>\<open>get\<close> without a fallback goes through \<open>operator[]\<close> and leaves a null entry behind.\<close>

definition map_get :: "(json \<Rightarrow> 'a result) \<Rightarrow> string \<Rightarrow> json_map \<Rightarrow> 'a result \<times> json_map" where
  "map_get as_t k m = (let (v, m') = map_index k m in (as_t v, m'))"

definition map_put :: "string \<Rightarrow> json \<Rightarrow> json_map \<Rightarrow> json_map" where
  "map_put k v m = om_set k v m"

definition map_put_null :: "string \<Rightarrow> json_map \<Rightarrow> json_map" where
  "map_put_null k m = om_set k JNull m"

definition map_erase :: "string \<Rightarrow> json_map \<Rightarrow> json_map" where
  "map_erase k m = om_erase k m"

definition map_clear :: "json_map \<Rightarrow> json_map" where
  "map_clear m = []"

definition map_size :: "json_map \<Rightarrow> nat" where
  "map_size m = length m"

definition map_empty :: "json_map \<Rightarrow> bool" where
  "map_empty m \<longleftrightarrow> m = []"

text \<open>\<open>merge\<close> is an insertion of a range: an entry that is there already stays.\<close>

definition map_merge :: "json_map \<Rightarrow> json_map \<Rightarrow> json_map" where
  "map_merge m n = om_merge m n"

text \<open>Construction from a \<open>std::map\<close> sets one entry after the other, from a list inserts them.\<close>

definition map_of_container :: "(string \<times> json) list \<Rightarrow> json_map" where
  "map_of_container kvs = fold (\<lambda>(k, v). map_put k v) kvs []"

definition map_of_list :: "(string \<times> json) list \<Rightarrow> json_map" where
  "map_of_list kvs = om_merge [] kvs"

section \<open>Construction from text and from a file\<close>

text \<open>
  \<open>files\<close> gives the content of the files that can be opened. \<open>std::getline\<close> is called with
  the delimiter \<open>static_cast<char>(-1)\<close>: what follows an octet 255 is not read.
\<close>

definition read_file :: "(string \<Rightarrow> string option) \<Rightarrow> string \<Rightarrow> string result" where
  "read_file files name =
     (case files name of
        None \<Rightarrow> Inl (Runtime_error (''failed to parse non-existent file: '' @ name))
      | Some content \<Rightarrow> Inr (takeWhile (\<lambda>c. c \<noteq> CHR 0xFF) content))"

definition map_of_file :: "(u16 list \<Rightarrow> string) \<Rightarrow> (string \<Rightarrow> string option) \<Rightarrow> string \<Rightarrow> json_map result" where
  "map_of_file U files name = bindE (read_file files name) (parse_map U)"

definition array_of_file :: "(u16 list \<Rightarrow> string) \<Rightarrow> (string \<Rightarrow> string option) \<Rightarrow> string \<Rightarrow> json list result" where
  "array_of_file U files name = bindE (read_file files name) (parse_array U)"

text \<open>\<open>reset\<close> assigns after the text is read: an exception leaves the container as it was.\<close>

definition map_reset :: "(u16 list \<Rightarrow> string) \<Rightarrow> string \<Rightarrow> json_map \<Rightarrow> unit result \<times> json_map" where
  "map_reset U text m = (case parse_map U text of Inl e \<Rightarrow> (Inl e, m) | Inr m' \<Rightarrow> (Inr (), m'))"

definition array_reset :: "(u16 list \<Rightarrow> string) \<Rightarrow> string \<Rightarrow> json list \<Rightarrow> unit result \<times> json list" where
  "array_reset U text xs = (case parse_array U text of Inl e \<Rightarrow> (Inl e, xs) | Inr xs' \<Rightarrow> (Inr (), xs'))"

definition array_text :: "json list \<Rightarrow> string" where
  "array_text xs = show_json (JArr xs)"

section \<open>C++ values as values of the variant\<close>

text \<open>
  The decayed type of an argument. An integral type has a width and a sign, \<open>bool\<close> is
  apart; \<open>C_cstr\<close> is \<open>char const*\<close> and \<open>char*\<close>.
\<close>

datatype cpp_type =
    C_null_t
  | C_nullptr
  | C_integral nat bool
  | C_bool
  | C_floating
  | C_string
  | C_cstr
  | C_map
  | C_array
  | C_other

definition is_string :: "cpp_type \<Rightarrow> bool" where
  "is_string t \<longleftrightarrow> t = C_string \<or> t = C_cstr"

fun is_integral :: "cpp_type \<Rightarrow> bool" where
  "is_integral (C_integral _ _) = True"
| "is_integral C_bool = True"
| "is_integral _ = False"

definition is_convertible :: "cpp_type \<Rightarrow> bool" where
  "is_convertible t \<longleftrightarrow>
     t = C_null_t \<or> t = C_nullptr \<or> is_integral t \<or> t = C_floating \<or> is_string t \<or> t = C_map \<or> t = C_array"

text \<open>\<open>int_t\<close> is \<open>int64_t\<close>, \<open>float_t\<close> is \<open>double\<close>.\<close>

fun normalize :: "cpp_type \<Rightarrow> cpp_type" where
  "normalize (C_integral _ _) = C_integral 64 True"
| "normalize C_cstr = C_string"
| "normalize t = t"

definition should_normalize :: "cpp_type \<Rightarrow> bool" where
  "should_normalize t \<longleftrightarrow> t \<noteq> C_bool \<and> (is_integral t \<or> t = C_floating \<or> t = C_cstr)"

text \<open>\<open>to_value\<close> has no member for the types it has no specialisation for.\<close>

fun to_value :: "cpp_type \<Rightarrow> json_type option" where
  "to_value C_null_t = Some Ty_null"
| "to_value (C_integral _ _) = Some Ty_integer"
| "to_value C_floating = Some Ty_real"
| "to_value C_bool = Some Ty_boolean"
| "to_value C_string = Some Ty_string"
| "to_value C_cstr = Some Ty_string"
| "to_value C_map = Some Ty_map"
| "to_value C_array = Some Ty_array"
| "to_value _ = None"

fun to_type :: "json_type \<Rightarrow> cpp_type" where
  "to_type Ty_null = C_null_t"
| "to_type Ty_integer = C_integral 64 True"
| "to_type Ty_real = C_floating"
| "to_type Ty_boolean = C_bool"
| "to_type Ty_string = C_string"
| "to_type Ty_map = C_map"
| "to_type Ty_array = C_array"

text \<open>An argument with its type; an integral one has its mathematical value.\<close>

datatype cpp_value =
    V_null_t
  | V_nullptr
  | V_integral nat bool int
  | V_bool bool
  | V_floating float_t
  | V_string string
  | V_cstr string
  | V_map json_map
  | V_array "json list"

fun type_of :: "cpp_value \<Rightarrow> cpp_type" where
  "type_of V_null_t = C_null_t"
| "type_of V_nullptr = C_nullptr"
| "type_of (V_integral w s _) = C_integral w s"
| "type_of (V_bool _) = C_bool"
| "type_of (V_floating _) = C_floating"
| "type_of (V_string _) = C_string"
| "type_of (V_cstr _) = C_cstr"
| "type_of (V_map _) = C_map"
| "type_of (V_array _) = C_array"

text \<open>\<open>value::set\<close>: an integer is brought to 64 bits, a C string ends at its first zero.\<close>

fun set_value :: "cpp_value \<Rightarrow> json" where
  "set_value V_null_t = JNull"
| "set_value V_nullptr = JNull"
| "set_value (V_integral _ _ i) = JInt (word_of_int i)"
| "set_value (V_bool b) = JBool b"
| "set_value (V_floating x) = JReal x"
| "set_value (V_string s) = JStr s"
| "set_value (V_cstr s) = JStr (takeWhile (\<lambda>c. c \<noteq> CHR 0x00) s)"
| "set_value (V_map m) = JMap m"
| "set_value (V_array xs) = JArr xs"

text \<open>\<open>boost::get\<close> for one alternative of the variant.\<close>

definition get_value :: "json_type \<Rightarrow> json \<Rightarrow> json result" where
  "get_value t v = (if get_type v = t then Inr v else Inl Bad_get)"

text \<open>The shortcuts of a value that holds an array or a map.\<close>

definition value_push :: "json \<Rightarrow> json \<Rightarrow> json result" where
  "value_push x v = bindE (as_array v) (\<lambda>xs. Inr (JArr (array_push x xs)))"

definition value_put :: "string \<Rightarrow> json \<Rightarrow> json \<Rightarrow> json result" where
  "value_put k x v = bindE (as_map v) (\<lambda>m. Inr (JMap (map_put k x m)))"

definition value_of_list :: "cpp_value list \<Rightarrow> json" where
  "value_of_list xs = JArr (array_of (map set_value xs))"

definition value_of_entries :: "(string \<times> json) list \<Rightarrow> json" where
  "value_of_entries kvs = JMap (map_of_list kvs)"

section \<open>Equality\<close>

text \<open>
  Two finite doubles are equal when their values are: the mantissas are brought to the
  smaller exponent. Zeros of both signs are equal.
\<close>

fun float_eq :: "float_t \<Rightarrow> float_t \<Rightarrow> bool" where
  "float_eq (Inf s) (Inf t) \<longleftrightarrow> s = t"
| "float_eq (Fin s m d) (Fin t n e) \<longleftrightarrow>
     (let f = min d e; x = m * 2 ^ nat (d - f); y = n * 2 ^ nat (e - f)
      in x = y \<and> (s = t \<or> x = 0))"
| "float_eq _ _ \<longleftrightarrow> False"

text \<open>
  \<open>operator==\<close> of two values: the same alternative with equal contents; those of a
  \<open>std::vector\<close> and a \<open>std::map\<close> compare their elements in order.
\<close>

fun value_eq :: "json \<Rightarrow> json \<Rightarrow> bool"
  and values_eq :: "json list \<Rightarrow> json list \<Rightarrow> bool"
  and entries_eq :: "json_map \<Rightarrow> json_map \<Rightarrow> bool" where
  "value_eq JNull JNull \<longleftrightarrow> True"
| "value_eq (JInt i) (JInt j) \<longleftrightarrow> i = j"
| "value_eq (JReal x) (JReal y) \<longleftrightarrow> float_eq x y"
| "value_eq (JBool a) (JBool b) \<longleftrightarrow> a = b"
| "value_eq (JStr s) (JStr t) \<longleftrightarrow> s = t"
| "value_eq (JMap m) (JMap n) \<longleftrightarrow> entries_eq m n"
| "value_eq (JArr xs) (JArr ys) \<longleftrightarrow> values_eq xs ys"
| "value_eq _ _ \<longleftrightarrow> False"
| "values_eq [] [] \<longleftrightarrow> True"
| "values_eq (x # xs) (y # ys) \<longleftrightarrow> value_eq x y \<and> values_eq xs ys"
| "values_eq _ _ \<longleftrightarrow> False"
| "entries_eq [] [] \<longleftrightarrow> True"
| "entries_eq ((j, v) # m) ((k, w) # n) \<longleftrightarrow> j = k \<and> value_eq v w \<and> entries_eq m n"
| "entries_eq _ _ \<longleftrightarrow> False"

text \<open>
  \<open>operator==\<close> with a C++ value on one side: the alternative of its type, and the content
  equal to it. Both sides of an integral comparison are brought to a common type.
\<close>

definition value_eq_typed :: "json \<Rightarrow> cpp_value \<Rightarrow> bool" where
  "value_eq_typed v x \<longleftrightarrow> Some (get_type v) = to_value (type_of x) \<and> value_eq v (set_value x)"

text \<open>\<open>find\<close> returns the position of the first equal element, or the length.\<close>

definition array_find :: "json \<Rightarrow> json list \<Rightarrow> nat" where
  "array_find v xs = length (takeWhile (\<lambda>x. \<not> value_eq x v) xs)"

text \<open>With a C++ value as the argument.\<close>

definition array_find_typed :: "cpp_value \<Rightarrow> json list \<Rightarrow> nat" where
  "array_find_typed x xs = length (takeWhile (\<lambda>v. \<not> value_eq_typed v x) xs)"

lemma float_eq_Fin:
  "float_eq (Fin s m d) (Fin t n e) \<longleftrightarrow>
     m * 2 ^ nat (d - min d e) = n * 2 ^ nat (e - min d e) \<and> (s = t \<or> m * 2 ^ nat (d - min d e) = 0)"
  by (simp only: float_eq.simps Let_def)

lemma float_eq_refl [simp]: "float_eq x x"
  by (cases x) (simp_all add: float_eq_Fin del: float_eq.simps(2))

lemma float_eq_sym: "float_eq x y \<longleftrightarrow> float_eq y x"
proof -
  have "float_eq (Fin s m d) (Fin t n e) \<longleftrightarrow> float_eq (Fin t n e) (Fin s m d)" for s m d t n e
    unfolding float_eq_Fin min.commute [of e d] by metis
  note finite = this
  show ?thesis
  proof (cases x)
    case (Fin s m d)
    note x = this
    show ?thesis
    proof (cases y)
      case (Fin t n e)
      show ?thesis unfolding x Fin by (rule finite)
    next
      case (Inf t)
      then show ?thesis by (simp add: x)
    qed
  next
    case (Inf s)
    then show ?thesis by (cases y) auto
  qed
qed

declare float_eq.simps(2) [simp del]

lemma values_eq_list: "values_eq xs ys \<longleftrightarrow> list_all2 value_eq xs ys"
  by (induction xs ys rule: list_induct2') simp_all

lemma entries_eq_list:
  "entries_eq m n \<longleftrightarrow> list_all2 (\<lambda>p q. fst p = fst q \<and> value_eq (snd p) (snd q)) m n"
proof (induction m n rule: list_induct2')
  case (4 p m q n)
  then show ?case by (cases p; cases q) simp
qed (simp_all add: neq_Nil_conv split: prod.splits)

lemma value_eq_refl [simp]: "value_eq v v"
proof (induction v)
  case (JMap m)
  then show ?case by (simp add: entries_eq_list list_all2_same) (metis snds.intros)
next
  case (JArr xs)
  then show ?case by (simp add: values_eq_list list_all2_same)
qed simp_all

lemma value_eq_sym: "value_eq v u \<longleftrightarrow> value_eq u v" "values_eq xs ys \<longleftrightarrow> values_eq ys xs" "entries_eq m n \<longleftrightarrow> entries_eq n m"
  by (induction v u and xs ys and m n rule: value_eq_values_eq_entries_eq.induct) (auto simp: float_eq_sym)

lemma value_eq_type: "value_eq v u \<Longrightarrow> get_type v = get_type u"
  by (cases v; cases u) simp_all

text \<open>Without a floating point number inside, equal values are the same.\<close>

fun no_reals :: "json \<Rightarrow> bool" where
  "no_reals (JReal _) \<longleftrightarrow> False"
| "no_reals (JMap m) \<longleftrightarrow> (\<forall>v \<in> set (map snd m). no_reals v)"
| "no_reals (JArr xs) \<longleftrightarrow> (\<forall>v \<in> set xs. no_reals v)"
| "no_reals _ \<longleftrightarrow> True"

lemma value_eq_same: "no_reals v \<Longrightarrow> value_eq v u \<longleftrightarrow> v = u"
proof (induction v arbitrary: u)
  case (JMap m)
  have "(fst p = fst q \<and> value_eq (snd p) (snd q)) \<longleftrightarrow> p = q" if "p \<in> set m" for p q
    using JMap.IH [OF that, of "snd p" "snd q"] JMap.prems that by (cases p; cases q) auto
  then have "entries_eq m n \<longleftrightarrow> m = n" for n
    unfolding entries_eq_list list.rel_eq [symmetric] by (intro list.rel_cong_simp) (auto simp: simp_implies_def)
  then show ?case by (cases u) simp_all
next
  case (JArr xs)
  then have "values_eq xs ys \<longleftrightarrow> xs = ys" for ys
    unfolding values_eq_list list.rel_eq [symmetric] by (intro list.rel_cong_simp) (auto simp: simp_implies_def)
  then show ?case by (cases u) simp_all
qed (case_tac u; simp)+

section \<open>Equality of maps is equality of lookups\<close>

definition same_entries :: "json_map \<Rightarrow> json_map \<Rightarrow> bool" where
  "same_entries m n \<longleftrightarrow> (\<forall>k. rel_option value_eq (om_find k m) (om_find k n))"

lemma entries_eq_find: "entries_eq m n \<Longrightarrow> rel_option value_eq (om_find k m) (om_find k n)"
proof (induction m n rule: list_induct2')
  case (4 p m q n)
  then show ?case by (cases p; cases q) (auto simp: om_find_Cons)
qed (auto simp: entries_eq_list)

lemma same_entries_keys: "same_entries m n \<Longrightarrow> fst ` set m = fst ` set n"
proof (rule set_eqI)
  fix k
  assume "same_entries m n"
  then have "rel_option value_eq (om_find k m) (om_find k n)" by (simp add: same_entries_def)
  then have "om_find k m = None \<longleftrightarrow> om_find k n = None" by (cases rule: option.rel_cases) simp_all
  then show "k \<in> fst ` set m \<longleftrightarrow> k \<in> fst ` set n" by (simp add: om_find_None_iff)
qed

lemma same_entries_tail:
  assumes "om_inv ((k, v) # m)" "om_inv ((k, w) # n)" "same_entries ((k, v) # m) ((k, w) # n)"
  shows "value_eq v w" "same_entries m n"
proof -
  have look: "rel_option value_eq (om_find j ((k, v) # m)) (om_find j ((k, w) # n))" for j
    using assms(3) by (simp add: same_entries_def)
  from look [of k] show "value_eq v w" by (simp add: om_find_Cons)
  have "om_find k m = None" "om_find k n = None"
    using assms(1,2) by (auto simp: om_find_None_iff om_inv_Cons)
  then have "rel_option value_eq (om_find j m) (om_find j n)" for j
    using look [of j] by (cases "j = k") (simp_all add: om_find_Cons)
  then show "same_entries m n" by (simp add: same_entries_def)
qed

lemma same_entries_hd:
  assumes "om_inv ((j, v) # m)" "om_inv ((k, w) # n)" "same_entries ((j, v) # m) ((k, w) # n)"
  shows "j = k"
proof (rule ccontr)
  assume "j \<noteq> k"
  have keys: "insert j (fst ` set m) = insert k (fst ` set n)"
    using same_entries_keys [OF assms(3)] by (simp only: list.set image_insert fst_conv)
  from keys have "j \<in> insert k (fst ` set n)" by (rule subst) (rule insertI1)
  with \<open>j \<noteq> k\<close> have "j \<in> fst ` set n" by (simp only: insert_iff simp_thms)
  with assms(2) have "k < j" by (simp only: om_inv_Cons)
  from keys have "k \<in> insert j (fst ` set m)" by (rule ssubst) (rule insertI1)
  with \<open>j \<noteq> k\<close> [symmetric] have "k \<in> fst ` set m" by (simp only: insert_iff simp_thms)
  with assms(1) have "j < k" by (simp only: om_inv_Cons)
  with \<open>k < j\<close> show False by order
qed

lemma same_entries_eq:
  assumes "om_inv m" "om_inv n" "same_entries m n"
  shows "entries_eq m n"
  using assms
proof (induction m n rule: list_induct2')
  case (2 p m)
  then show ?case using same_entries_keys by fastforce
next
  case (3 q n)
  then show ?case using same_entries_keys by fastforce
next
  case (4 p m q n)
  obtain j v k w where pq: "p = (j, v)" "q = (k, w)" by fastforce
  note prems = 4(2-4) [unfolded pq]
  from same_entries_hd [OF prems] have jk: "k = j" by simp
  note prems = prems [unfolded jk]
  show ?case
    using same_entries_tail [OF prems] 4(1) prems(1,2) by (simp add: pq jk om_inv_Cons)
qed simp

text \<open>
  C32: equality of maps. Two maps are equal exactly when every key has equal values in both
  or no value in both: the order in which the entries were inserted does not count.
\<close>

theorem map_equality:
  assumes "om_inv m" "om_inv n"
  shows "value_eq (JMap m) (JMap n) \<longleftrightarrow> (\<forall>k. rel_option value_eq (om_find k m) (om_find k n))"
  using entries_eq_find same_entries_eq [OF assms] unfolding same_entries_def value_eq.simps by blast

lemma map_equality_witness:
  "\<not> (\<forall>k. rel_option value_eq (om_find k [(''a'', JNull), (''b'', JInt 1)])
        (om_find k [(''a'', JNull), (''b'', JInt 2)]))"
proof -
  have "om_inv [(''a'', JNull), (''b'', JInt 1)]" "om_inv [(''a'', JNull), (''b'', JInt 2)]"
    by (simp_all add: om_inv_def)
  from map_equality [OF this] show ?thesis by simp
qed

section \<open>Typed entries\<close>

lemma set_value_type: "to_value (type_of x) = Some t \<Longrightarrow> get_type (set_value x) = t"
  by (cases x) auto

lemma normalize_alternative: "to_value t = Some a \<Longrightarrow> normalize t = to_type a"
  by (cases t) auto

lemma normalize_idem: "normalize (normalize t) = normalize t"
  by (cases t) simp_all

lemma should_normalize_changes: "\<not> should_normalize t \<Longrightarrow> normalize t = t"
  by (cases t) (simp_all add: should_normalize_def)

lemma convertible_or_none: "is_convertible t \<longleftrightarrow> t = C_nullptr \<or> to_value t \<noteq> None"
  by (cases t) (simp_all add: is_convertible_def is_string_def)

lemma get_same: "get_value (get_type v) v = Inr v"
  by (simp add: get_value_def)

text \<open>
  Typed access. A C++ value of any type that has an alternative is stored as that
  alternative: the entry is there, \<open>has<T>\<close> holds, \<open>get<T>\<close> does not raise and gives the
  stored value, and \<open>operator==\<close> with the C++ value holds. A type without an alternative
  is refused by \<open>has<T>\<close> at compile time.
\<close>

lemma typed_access:
  assumes "to_value (type_of x) = Some t"
  shows "map_has_type t k (map_put k (set_value x) m) \<and>
    map_get (get_value t) k (map_put k (set_value x) m) = (Inr (set_value x), map_put k (set_value x) m) \<and>
    value_eq_typed (set_value x) x \<and>
    normalize (type_of x) = to_type (get_type (set_value x))"
proof -
  have find: "om_find k (map_put k (set_value x) m) = Some (set_value x)"
    by (simp add: map_put_def om_find_set)
  note stored = set_value_type [OF assms]
  have "map_has_type t k (map_put k (set_value x) m)"
    using stored by (simp add: map_has_type_def find is_type_def)
  moreover have "map_get (get_value t) k (map_put k (set_value x) m) = (Inr (set_value x), map_put k (set_value x) m)"
    using stored by (simp add: map_get_def map_index_Some [OF find] get_value_def)
  moreover have "value_eq_typed (set_value x) x"
    using stored assms by (simp add: value_eq_typed_def)
  moreover have "normalize (type_of x) = to_type (get_type (set_value x))"
    using stored normalize_alternative [OF assms] by simp
  ultimately show ?thesis by blast
qed

lemma typed_access_witness:
  "map_get (get_value Ty_integer) ''n'' (map_put ''n'' (set_value (V_integral 32 False 7)) [])
     = (Inr (JInt 7), [(''n'', JInt 7)])"
  using typed_access [of "V_integral 32 False 7" Ty_integer "''n''" "[]"] by (simp add: map_put_def)

text \<open>An unsigned 64-bit value above the range of \<open>int64_t\<close> is stored as a negative number.\<close>

lemma integral_kept:
  assumes "- (2 ^ 63) \<le> i" "i < 2 ^ 63"
  shows "sint (word_of_int i :: i64) = i"
  using assms by (simp add: sint_sbintrunc' signed_take_bit_int_eq_self)

lemma large_unsigned_negative: "set_value (V_integral 64 False (2 ^ 64 - 1)) = JInt (- 1)"
  by simp

section \<open>Merging maps\<close>

text \<open>The entries of the receiver stay, the others come from the argument.\<close>

lemma map_merge_find:
  "om_find k (map_merge m n) = (case om_find k m of Some v \<Rightarrow> Some v | None \<Rightarrow> om_find k n)"
  by (simp add: map_merge_def om_find_merge)

lemma map_merge_wf:
  assumes "json_wf (JMap m)" "json_wf (JMap n)"
  shows "json_wf (JMap (map_merge m n))"
  unfolding json_wf_JMap
proof (intro conjI ballI)
  show inv: "om_inv (map_merge m n)"
    using assms(1) by (simp add: map_merge_def json_wf_JMap om_inv_merge)
  fix p
  assume "p \<in> set (map_merge m n)"
  then have "om_find (fst p) (map_merge m n) = Some (snd p)"
    using inv by (simp add: om_find_def om_inv_def strict_sorted_iff)
  then have "om_find (fst p) m = Some (snd p) \<or> om_find (fst p) n = Some (snd p)"
    by (auto simp: map_merge_find split: option.splits)
  then show "json_wf (snd p)" using json_wf_find [OF assms(1)] json_wf_find [OF assms(2)] by blast
qed

lemma map_merge_self: "om_inv m \<Longrightarrow> map_merge m m = m"
proof (rule om_ext)
  show "om_inv (map_merge m m)" if "om_inv m" using that by (simp add: map_merge_def om_inv_merge)
  show "om_find k (map_merge m m) = om_find k m" for k by (simp add: map_merge_find split: option.split)
qed

section \<open>The contract of a container with an index\<close>

lemma unat_u32: "n < 2 ^ 32 \<Longrightarrow> unat (of_nat n :: u32) = n"
  by (simp add: unat_of_nat take_bit_nat_eq_self)

text \<open>
  \<open>elems\<close> is the abstraction: the elements of a container that is \<open>fit\<close> to be used as an
  array. An index has 32 bits.
\<close>

locale flexible_array =
  fixes fit :: "'a \<Rightarrow> bool"
    and elems :: "'a \<Rightarrow> 'e list"
    and elem :: "u32 \<Rightarrow> 'a \<Rightarrow> 'e result"
    and push :: "'e \<Rightarrow> 'a \<Rightarrow> 'a result"
  assumes elem: "fit a \<Longrightarrow> elem i a = (if unat i < length (elems a) then Inr (elems a ! unat i) else Inl Undefined)"
    and push_fit: "fit a \<Longrightarrow> \<exists>b. push e a = Inr b \<and> fit b \<and> elems b = elems a @ [e]"
begin

definition push_all :: "'e list \<Rightarrow> 'a \<Rightarrow> 'a result" where
  "push_all es a = fold (\<lambda>e r. bindE r (push e)) es (Inr a)"

lemma push_all_elems:
  assumes "fit a"
  shows "\<exists>b. push_all es a = Inr b \<and> fit b \<and> elems b = elems a @ es"
  using assms
proof (induction es arbitrary: a)
  case Nil
  then show ?case by (simp add: push_all_def)
next
  case (Cons e es)
  obtain b where b: "push e a = Inr b" "fit b" "elems b = elems a @ [e]"
    using push_fit [OF Cons.prems] by blast
  have "push_all (e # es) a = push_all es b" by (simp add: push_all_def b(1))
  with Cons.IH [OF b(2)] b(3) show ?case by simp
qed

text \<open>What was pushed is found at its position, as long as the index can express it.\<close>

lemma at_pushed:
  assumes "fit a" "push_all es a = Inr b" "n < length es" "length (elems a) + n < 2 ^ 32"
  shows "elem (of_nat (length (elems a) + n)) b = Inr (es ! n)"
proof -
  have b: "fit b" "elems b = elems a @ es" using push_all_elems [OF assms(1), of es] assms(2) by auto
  have "unat (of_nat (length (elems a) + n) :: u32) = length (elems a) + n"
    by (rule unat_u32 [OF assms(4)])
  then show ?thesis using assms(3) by (simp add: elem [OF b(1)] b(2) nth_append)
qed

lemma at_kept:
  assumes "fit a" "push e a = Inr b" "elem i a = Inr x"
  shows "elem i b = Inr x"
proof -
  obtain c where "push e a = Inr c" "fit c" "elems c = elems a @ [e]" using push_fit [OF assms(1)] by blast
  then have b: "fit b" "elems b = elems a @ [e]" using assms(2) by simp_all
  show ?thesis using assms(3) by (auto simp: elem [OF assms(1)] elem [OF b(1)] b(2) nth_append split: if_splits)
qed

end

interpretation ja: flexible_array "\<lambda>_. True" "\<lambda>xs. xs" array_at "\<lambda>v xs. Inr (array_push v xs)"
  by unfold_locales (simp_all add: array_at_def array_push_def)

text \<open>\<open>json::value\<close> behaves as the array it holds, through its own shortcuts.\<close>

definition holds_array :: "json \<Rightarrow> bool" where
  "holds_array v \<longleftrightarrow> get_type v = Ty_array"

fun array_elems :: "json \<Rightarrow> json list" where
  "array_elems (JArr xs) = xs"
| "array_elems _ = []"

interpretation jv: flexible_array holds_array array_elems value_at value_push
proof unfold_locales
  fix v :: json and i :: u32 and e :: json
  assume "holds_array v"
  then obtain xs where v: "v = JArr xs" by (cases v) (auto simp: holds_array_def)
  show "value_at i v = (if unat i < length (array_elems v) then Inr (array_elems v ! unat i) else Inl Undefined)"
    by (simp add: v value_at_def)
  show "\<exists>w. value_push e v = Inr w \<and> holds_array w \<and> array_elems w = array_elems v @ [e]"
    by (simp add: v value_push_def array_push_def holds_array_def)
qed

lemma array_of_list [simp]: "array_of vs = vs"
proof -
  have "fold array_push vs xs = xs @ vs" for xs
    by (induction vs arbitrary: xs) (simp_all add: array_push_def)
  then show ?thesis by (simp add: array_of_def)
qed

text \<open>A value that is built from a list of arguments has them at their positions.\<close>

lemma value_of_list_at:
  assumes "n < length xs" "n < 2 ^ 32"
  shows "value_at (of_nat n) (value_of_list xs) = Inr (set_value (xs ! n))"
proof -
  have "unat (of_nat n :: u32) = n" by (rule unat_u32 [OF assms(2)])
  then show ?thesis using assms(1) by (simp add: value_of_list_def value_at_def)
qed

lemma value_at_misuse:
  "\<not> holds_array v \<Longrightarrow> value_at i v = Inl (required ''array'' v) \<and> value_push x v = Inl Bad_get"
  by (cases v) (simp_all add: holds_array_def value_at_def value_push_def)

section \<open>Erasing from an array\<close>

lemma array_erase_spec:
  assumes "unat i < length xs"
  shows "array_erase i xs = Inr (take (unat i) xs @ drop (Suc (unat i)) xs)"
  using assms by (simp add: array_erase_def array_erase_iterator_def)

lemma array_erase_out_of_range:
  "length xs \<le> unat i \<Longrightarrow> array_erase i xs = Inl Undefined \<and> array_set i v xs = Inl Undefined"
  by (simp add: array_erase_def array_erase_iterator_def array_set_def)

lemma array_erase_amount_one: "unat i < length xs \<Longrightarrow> array_erase_amount i 1 xs = array_erase i xs"
  by (simp add: array_erase_amount_def array_erase_range_def array_erase_spec)

lemma array_erase_amount_none: "unat i \<le> length xs \<Longrightarrow> array_erase_amount i 0 xs = Inr xs"
  by (simp add: array_erase_amount_def array_erase_range_def)

lemma array_erase_undoes_push: "length xs < 2 ^ 32 \<Longrightarrow> array_erase (of_nat (length xs)) (array_push v xs) = Inr xs"
proof -
  assume "length xs < 2 ^ 32"
  then have "unat (of_nat (length xs) :: u32) = length xs" by (rule unat_u32)
  then show ?thesis by (simp add: array_erase_spec array_push_def)
qed

lemma array_find_result:
  assumes "array_find v xs < length xs"
  shows "value_eq (xs ! array_find v xs) v"
  using nth_length_takeWhile [of "\<lambda>x. \<not> value_eq x v" xs] assms by (simp add: array_find_def)

lemma array_find_end: "array_find v xs = length xs \<longleftrightarrow> (\<forall>x \<in> set xs. \<not> value_eq x v)"
  unfolding array_find_def by (metis takeWhile_eq_all_conv takeWhile_eq_take take_all order_refl)

section \<open>Text and files\<close>

lemma map_reset_text:
  assumes "json_wf (JMap m)" "printable (JMap m)"
  shows "map_reset U (to_string m) n = (Inr (), m)"
  by (simp add: map_reset_def parse_map_to_string [OF assms])

lemma map_reset_wf:
  "json_wf (JMap m) \<Longrightarrow> map_reset U t m = (r, n) \<Longrightarrow> json_wf (JMap n)"
  using parse_map_wf [of U t] by (auto simp: map_reset_def split: sum.splits)

lemma map_of_file_wf: "map_of_file U files name = Inr m \<Longrightarrow> json_wf (JMap m)"
  using parse_map_wf by (auto simp: map_of_file_def bindE_Inr_iff)

text \<open>
  A file that holds what \<open>to_string\<close> wrote is read back, unless the text has an octet 255,
  at which reading stops.
\<close>

lemma map_of_file_text:
  assumes "json_wf (JMap m)" "printable (JMap m)" "CHR 0xFF \<notin> set (to_string m)"
  shows "map_of_file U (\<lambda>_. Some (to_string m)) name = Inr m"
proof -
  have "takeWhile (\<lambda>c. c \<noteq> CHR 0xFF) (to_string m) = to_string m"
    using assms(3) unfolding takeWhile_eq_all_conv by blast
  then show ?thesis by (simp add: map_of_file_def read_file_def parse_map_to_string [OF assms(1,2)] del: takeWhile_eq_all_conv)
qed

end
