(* ===== verification/Any_Store.thy ===== *)
theory Any_Store
  imports Actor
begin

text \<open>
  \<open>stream-core/src/messaging\<close>: the type-erased value \<open>any\<close> (\<open>any.hpp\<close>) with its holders on
  the heap, and the message built on it (\<open>message.cpp\<close>, \<open>message_header.cpp\<close>). An \<open>any\<close> owns
  its holder through a raw pointer; the abstract specification is a variable that has a
  value or none.
\<close>

section \<open>Holders on the heap\<close>

text \<open>
  \<open>contents\<close> gives the pointer of every object that is alive: \<open>Some None\<close> is an \<open>any\<close> with a
  null pointer. \<open>limit\<close> is the first address that was never allocated.
\<close>

record 'v memory =
  holders :: "nat \<Rightarrow> 'v option"
  limit :: nat
  contents :: "nat \<Rightarrow> nat option option"

definition no_objects :: "'v memory" where
  "no_objects = \<lparr>holders = (\<lambda>_. None), limit = 0, contents = (\<lambda>_. None)\<rparr>"

text \<open>\<open>new holder(v)\<close>.\<close>

definition new_holder :: "'v \<Rightarrow> 'v memory \<Rightarrow> nat option \<times> 'v memory" where
  "new_holder v m = (Some (limit m), m\<lparr>holders := (holders m)(limit m := Some v), limit := limit m + 1\<rparr>)"

text \<open>\<open>clone\<close> through a pointer; a pointer to a holder that was deleted must not be used.\<close>

definition clone_content :: "nat option \<Rightarrow> 'v memory \<Rightarrow> (nat option \<times> 'v memory) result" where
  "clone_content p m =
     (case p of
        None \<Rightarrow> Inr (None, m)
      | Some a \<Rightarrow> (case holders m a of None \<Rightarrow> Inl Undefined | Some v \<Rightarrow> Inr (new_holder v m)))"

text \<open>\<open>delete content\<close>: nothing for a null pointer, undefined for one that was deleted.\<close>

definition delete_content :: "nat option \<Rightarrow> 'v memory \<Rightarrow> 'v memory result" where
  "delete_content p m =
     (case p of
        None \<Rightarrow> Inr m
      | Some a \<Rightarrow> (case holders m a of
                     None \<Rightarrow> Inl Undefined
                   | Some v \<Rightarrow> Inr (m\<lparr>holders := (holders m)(a := None)\<rparr>)))"

section \<open>The operations of any\<close>

definition content_of :: "nat \<Rightarrow> 'v memory \<Rightarrow> nat option result" where
  "content_of x m = (case contents m x of None \<Rightarrow> Inl Undefined | Some p \<Rightarrow> Inr p)"

definition put_content :: "nat \<Rightarrow> nat option \<Rightarrow> 'v memory \<Rightarrow> 'v memory" where
  "put_content x p m = m\<lparr>contents := (contents m)(x := Some p)\<rparr>"

text \<open>The four constructors and the destructor.\<close>

definition any_empty :: "nat \<Rightarrow> 'v memory \<Rightarrow> 'v memory result" where
  "any_empty x m = Inr (put_content x None m)"

definition any_value :: "nat \<Rightarrow> 'v \<Rightarrow> 'v memory \<Rightarrow> 'v memory result" where
  "any_value x v m = (let (p, m) = new_holder v m in Inr (put_content x p m))"

definition any_copy :: "nat \<Rightarrow> nat \<Rightarrow> 'v memory \<Rightarrow> 'v memory result" where
  "any_copy x y m =
     bindE (content_of y m) (\<lambda>q. bindE (clone_content q m) (\<lambda>(p, m). Inr (put_content x p m)))"

definition any_move :: "nat \<Rightarrow> nat \<Rightarrow> 'v memory \<Rightarrow> 'v memory result" where
  "any_move x y m = bindE (content_of y m) (\<lambda>q. Inr (put_content y None (put_content x q m)))"

definition any_destroy :: "nat \<Rightarrow> 'v memory \<Rightarrow> 'v memory result" where
  "any_destroy x m =
     bindE (content_of x m) (\<lambda>p. bindE (delete_content p m) (\<lambda>m. Inr (m\<lparr>contents := (contents m)(x := None)\<rparr>)))"

definition any_swap :: "nat \<Rightarrow> nat \<Rightarrow> 'v memory \<Rightarrow> 'v memory result" where
  "any_swap x y m =
     bindE (content_of x m) (\<lambda>p. bindE (content_of y m) (\<lambda>q. Inr (put_content y p (put_content x q m))))"

text \<open>
  The assignments build a temporary, swap it with the target and destroy it; \<open>t\<close> is the
  temporary, an object that is not alive before.
\<close>

definition any_assign_copy :: "nat \<Rightarrow> nat \<Rightarrow> nat \<Rightarrow> 'v memory \<Rightarrow> 'v memory result" where
  "any_assign_copy t x y m = bindE (any_copy t y m) (\<lambda>m. bindE (any_swap t x m) (any_destroy t))"

definition any_assign_move :: "nat \<Rightarrow> nat \<Rightarrow> nat \<Rightarrow> 'v memory \<Rightarrow> 'v memory result" where
  "any_assign_move t x y m =
     bindE (any_swap y x m) (\<lambda>m. bindE (any_empty t m) (\<lambda>m. bindE (any_swap t y m) (any_destroy t)))"

definition any_assign_value :: "nat \<Rightarrow> nat \<Rightarrow> 'v \<Rightarrow> 'v memory \<Rightarrow> 'v memory result" where
  "any_assign_value t x v m = bindE (any_value t v m) (\<lambda>m. bindE (any_swap t x m) (any_destroy t))"

definition any_clear :: "nat \<Rightarrow> nat \<Rightarrow> 'v memory \<Rightarrow> 'v memory result" where
  "any_clear t x m = bindE (any_empty t m) (\<lambda>m. bindE (any_swap t x m) (any_destroy t))"

definition any_is_empty :: "nat \<Rightarrow> 'v memory \<Rightarrow> bool result" where
  "any_is_empty x m = bindE (content_of x m) (\<lambda>p. Inr (p = None))"

text \<open>
  \<open>as<T>\<close> casts the pointer without a check: a null pointer and a holder of another type,
  for which \<open>cast\<close> has no result, are undefined behaviour.
\<close>

definition any_as :: "('v \<Rightarrow> 'a option) \<Rightarrow> nat \<Rightarrow> 'v memory \<Rightarrow> 'a result" where
  "any_as cast x m =
     bindE (content_of x m) (\<lambda>p.
       (case p of
          None \<Rightarrow> Inl Undefined
        | Some a \<Rightarrow> (case holders m a of
                       None \<Rightarrow> Inl Undefined
                     | Some v \<Rightarrow> (case cast v of None \<Rightarrow> Inl Undefined | Some r \<Rightarrow> Inr r))))"

datatype 'v any_op =
    Make_empty nat
  | Make_value nat 'v
  | Make_copy nat nat
  | Make_move nat nat
  | Destroy nat
  | Swap nat nat
  | Assign_copy nat nat
  | Assign_move nat nat
  | Assign_value nat 'v
  | Clear nat

text \<open>The temporaries have the number \<open>t\<close>.\<close>

fun do_op :: "nat \<Rightarrow> 'v any_op \<Rightarrow> 'v memory \<Rightarrow> 'v memory result" where
  "do_op t (Make_empty x) m = any_empty x m"
| "do_op t (Make_value x v) m = any_value x v m"
| "do_op t (Make_copy x y) m = any_copy x y m"
| "do_op t (Make_move x y) m = any_move x y m"
| "do_op t (Destroy x) m = any_destroy x m"
| "do_op t (Swap x y) m = any_swap x y m"
| "do_op t (Assign_copy x y) m = any_assign_copy t x y m"
| "do_op t (Assign_move x y) m = any_assign_move t x y m"
| "do_op t (Assign_value x v) m = any_assign_value t x v m"
| "do_op t (Clear x) m = any_clear t x m"

fun do_ops :: "nat \<Rightarrow> 'v any_op list \<Rightarrow> 'v memory \<Rightarrow> 'v memory result" where
  "do_ops t [] m = Inr m"
| "do_ops t (c # cs) m = bindE (do_op t c m) (do_ops t cs)"

section \<open>The specification: variables with optional values\<close>

type_synonym 'v vars = "nat \<Rightarrow> 'v option option"

text \<open>
  What the language guarantees of the operations: an object is made where none is, and
  only objects that are alive are used.
\<close>

fun scoped :: "nat \<Rightarrow> 'v any_op \<Rightarrow> 'v vars \<Rightarrow> bool" where
  "scoped t (Make_empty x) s \<longleftrightarrow> x \<noteq> t \<and> s x = None"
| "scoped t (Make_value x v) s \<longleftrightarrow> x \<noteq> t \<and> s x = None"
| "scoped t (Make_copy x y) s \<longleftrightarrow> x \<noteq> t \<and> s x = None \<and> s y \<noteq> None"
| "scoped t (Make_move x y) s \<longleftrightarrow> x \<noteq> t \<and> s x = None \<and> s y \<noteq> None"
| "scoped t (Destroy x) s \<longleftrightarrow> s x \<noteq> None"
| "scoped t (Swap x y) s \<longleftrightarrow> s x \<noteq> None \<and> s y \<noteq> None"
| "scoped t (Assign_copy x y) s \<longleftrightarrow> s x \<noteq> None \<and> s y \<noteq> None"
| "scoped t (Assign_move x y) s \<longleftrightarrow> s x \<noteq> None \<and> s y \<noteq> None"
| "scoped t (Assign_value x v) s \<longleftrightarrow> s x \<noteq> None"
| "scoped t (Clear x) s \<longleftrightarrow> s x \<noteq> None"

text \<open>A move out of a variable leaves it without a value, also when it moves into itself.\<close>

fun spec_op :: "'v any_op \<Rightarrow> 'v vars \<Rightarrow> 'v vars" where
  "spec_op (Make_empty x) s = s(x := Some None)"
| "spec_op (Make_value x v) s = s(x := Some (Some v))"
| "spec_op (Make_copy x y) s = s(x := s y)"
| "spec_op (Make_move x y) s = s(x := s y, y := Some None)"
| "spec_op (Destroy x) s = s(x := None)"
| "spec_op (Swap x y) s = s(x := s y, y := s x)"
| "spec_op (Assign_copy x y) s = s(x := s y)"
| "spec_op (Assign_move x y) s = s(x := s y, y := Some None)"
| "spec_op (Assign_value x v) s = s(x := Some (Some v))"
| "spec_op (Clear x) s = s(x := Some None)"

fun spec_ops :: "nat \<Rightarrow> 'v any_op list \<Rightarrow> 'v vars \<Rightarrow> 'v vars option" where
  "spec_ops t [] s = Some s"
| "spec_ops t (c # cs) s = (if scoped t c s then spec_ops t cs (spec_op c s) else None)"

section \<open>Every holder has one owner\<close>

definition own_inv :: "'v memory \<Rightarrow> bool" where
  "own_inv m \<longleftrightarrow>
     (\<forall>x a. contents m x = Some (Some a) \<longrightarrow> holders m a \<noteq> None) \<and>
     (\<forall>x y a. contents m x = Some (Some a) \<and> contents m y = Some (Some a) \<longrightarrow> x = y) \<and>
     (\<forall>a. holders m a \<noteq> None \<longrightarrow> a < limit m \<and> (\<exists>x. contents m x = Some (Some a)))"

definition view :: "'v memory \<Rightarrow> 'v vars" where
  "view m x = map_option (\<lambda>p. Option.bind p (holders m)) (contents m x)"

definition agrees :: "'v memory result \<Rightarrow> 'v vars \<Rightarrow> bool" where
  "agrees r s \<longleftrightarrow> (case r of Inl e \<Rightarrow> False | Inr m \<Rightarrow> own_inv m \<and> view m = s)"

lemma agrees_Inr: "agrees (Inr m) s \<longleftrightarrow> own_inv m \<and> view m = s"
  by (simp add: agrees_def)

lemma agreesE:
  assumes "agrees r s"
  obtains m where "r = Inr m" "own_inv m" "view m = s"
  using assms by (cases r) (auto simp: agrees_def)

lemma agrees_bind:
  assumes "agrees r s" "\<And>m. own_inv m \<Longrightarrow> view m = s \<Longrightarrow> agrees (f m) s'"
  shows "agrees (bindE r f) s'"
  using assms(1) by (rule agreesE) (simp add: assms(2))

lemma view_None: "view m x = None \<longleftrightarrow> contents m x = None"
  by (simp add: view_def)

lemma view_alive: "view m x \<noteq> None \<longleftrightarrow> (\<exists>p. contents m x = Some p)"
  by (auto simp: view_def)

lemma own_held: "own_inv m \<Longrightarrow> contents m x = Some (Some a) \<Longrightarrow> holders m a \<noteq> None"
  by (simp add: own_inv_def)

lemma own_single: "own_inv m \<Longrightarrow> contents m x = Some (Some a) \<Longrightarrow> contents m y = Some (Some a) \<Longrightarrow> x = y"
  unfolding own_inv_def by blast

lemma own_owner:
  assumes "own_inv m" "holders m a \<noteq> None"
  obtains x where "a < limit m" "contents m x = Some (Some a)"
  using assms unfolding own_inv_def by blast

lemma own_fresh: "own_inv m \<Longrightarrow> contents m x \<noteq> Some (Some (limit m))"
  using own_held [of m x "limit m"] own_owner [of m "limit m"] by blast

lemma own_invI:
  assumes "\<And>x a. contents m x = Some (Some a) \<Longrightarrow> holders m a \<noteq> None"
    and "\<And>x y a. contents m x = Some (Some a) \<Longrightarrow> contents m y = Some (Some a) \<Longrightarrow> x = y"
    and "\<And>a. holders m a \<noteq> None \<Longrightarrow> a < limit m \<and> (\<exists>x. contents m x = Some (Some a))"
  shows "own_inv m"
  using assms unfolding own_inv_def by blast

lemma bind_other [simp]: "a \<noteq> Some b \<Longrightarrow> Option.bind a (h(b := z)) = Option.bind a h"
  by (cases a) simp_all

lemma empty_agrees:
  assumes "own_inv m" "view m x = None"
  shows "agrees (any_empty x m) ((view m)(x := Some None))"
proof -
  have x: "contents m x = None" using assms(2) by (simp add: view_None)
  have "own_inv (put_content x None m)"
  proof (rule own_invI)
    fix a assume "holders (put_content x None m) a \<noteq> None"
    then have "holders m a \<noteq> None" by (simp add: put_content_def)
    with assms(1) obtain y where "a < limit m" "contents m y = Some (Some a)" by (rule own_owner)
    moreover from this have "y \<noteq> x" using x by auto
    ultimately show "a < limit (put_content x None m) \<and> (\<exists>y. contents (put_content x None m) y = Some (Some a))"
      by (auto simp: put_content_def)
  qed (use own_held [OF assms(1)] own_single [OF assms(1)] in \<open>auto simp: put_content_def split: if_splits\<close>)
  moreover have "view (put_content x None m) = (view m)(x := Some None)"
    by (auto simp: view_def put_content_def)
  ultimately show ?thesis by (simp add: agrees_def any_empty_def)
qed

lemma value_agrees:
  assumes "own_inv m" "view m x = None"
  shows "agrees (any_value x v m) ((view m)(x := Some (Some v)))"
proof -
  let ?m = "m\<lparr>holders := (holders m)(limit m := Some v), limit := limit m + 1,
    contents := (contents m)(x := Some (Some (limit m)))\<rparr>"
  have x: "contents m x = None" using assms(2) by (simp add: view_None)
  have "own_inv ?m"
  proof (rule own_invI)
    fix a assume a: "holders ?m a \<noteq> None"
    show "a < limit ?m \<and> (\<exists>y. contents ?m y = Some (Some a))"
    proof (cases "a = limit m")
      case False
      then have "holders m a \<noteq> None" using a by simp
      with assms(1) obtain y where "a < limit m" "contents m y = Some (Some a)" by (rule own_owner)
      moreover from this have "y \<noteq> x" using x by auto
      ultimately show ?thesis by auto
    qed auto
  qed (use own_held [OF assms(1)] own_single [OF assms(1)] own_fresh [OF assms(1)] in \<open>auto split: if_splits\<close>)
  moreover have "view ?m = (view m)(x := Some (Some v))"
  proof
    fix y
    show "view ?m y = ((view m)(x := Some (Some v))) y"
      using own_fresh [OF assms(1), of y] by (cases "contents m y") (auto simp: view_def)
  qed
  ultimately show ?thesis by (simp add: agrees_def any_value_def new_holder_def put_content_def)
qed

lemma copy_agrees:
  assumes "own_inv m" "view m x = None" "view m y = Some w"
  shows "agrees (any_copy x y m) ((view m)(x := view m y))"
proof -
  from assms(3) obtain p where p: "contents m y = Some p" "w = Option.bind p (holders m)"
    by (auto simp: view_def)
  show ?thesis
  proof (cases p)
    case None
    with p empty_agrees [OF assms(1,2)] assms(3) show ?thesis
      by (simp add: any_copy_def content_of_def clone_content_def any_empty_def)
  next
    case (Some a)
    with p(1) obtain v where v: "holders m a = Some v" using own_held [OF assms(1)] by blast
    with value_agrees [OF assms(1,2), of v] p Some assms(3) show ?thesis
      by (simp add: any_copy_def content_of_def clone_content_def any_value_def case_prod_beta)
  qed
qed

lemma move_agrees:
  assumes "own_inv m" "view m x = None" "view m y = Some w"
  shows "agrees (any_move x y m) ((view m)(x := view m y, y := Some None))"
proof -
  from assms(3) obtain q where y: "contents m y = Some q" by (auto simp: view_def)
  from assms(2) have x: "contents m x = None" by (simp add: view_None)
  have xy: "contents m x = None" "contents m y = Some q" "x \<noteq> y" using x y by auto
  let ?m = "put_content y None (put_content x q m)"
  have "own_inv ?m"
  proof (rule own_invI)
    fix a assume "holders ?m a \<noteq> None"
    then have "holders m a \<noteq> None" by (simp add: put_content_def)
    with assms(1) obtain z where z: "a < limit m" "contents m z = Some (Some a)" by (rule own_owner)
    have "contents ?m (if z = y then x else z) = Some (Some a)"
      using z xy by (auto simp: put_content_def)
    then have "\<exists>z. contents ?m z = Some (Some a)" by (rule exI)
    with z(1) show "a < limit ?m \<and> (\<exists>z. contents ?m z = Some (Some a))" by (simp add: put_content_def)
  qed (use own_held [OF assms(1)] own_single [OF assms(1)] xy in \<open>auto simp: put_content_def split: if_splits\<close>)
  moreover have "view ?m = (view m)(x := view m y, y := Some None)"
    using xy by (auto simp: view_def put_content_def)
  ultimately show ?thesis using xy by (simp add: agrees_def any_move_def content_of_def)
qed

lemma swap_agrees:
  assumes "own_inv m" "view m x = Some v" "view m y = Some w"
  shows "agrees (any_swap x y m) ((view m)(x := view m y, y := view m x))"
proof -
  from assms(2,3) obtain p q where xy: "contents m x = Some p" "contents m y = Some q"
    by (auto simp: view_def)
  let ?m = "put_content y p (put_content x q m)"
  have "own_inv ?m"
  proof (rule own_invI)
    fix a assume "holders ?m a \<noteq> None"
    then have "holders m a \<noteq> None" by (simp add: put_content_def)
    with assms(1) obtain z where z: "a < limit m" "contents m z = Some (Some a)" by (rule own_owner)
    have "contents ?m (if z = x then y else if z = y then x else z) = Some (Some a)"
      using z xy by (auto simp: put_content_def)
    then have "\<exists>z. contents ?m z = Some (Some a)" by (rule exI)
    with z(1) show "a < limit ?m \<and> (\<exists>z. contents ?m z = Some (Some a))" by (simp add: put_content_def)
  next
    fix z z' a
    assume "contents ?m z = Some (Some a)" "contents ?m z' = Some (Some a)"
    then show "z = z'"
      using own_single [OF assms(1)] xy by (auto simp: put_content_def split: if_splits)
  qed (use own_held [OF assms(1)] xy in \<open>auto simp: put_content_def split: if_splits\<close>)
  moreover have "view ?m = (view m)(x := view m y, y := view m x)"
    using xy by (auto simp: view_def put_content_def)
  ultimately show ?thesis using xy by (simp add: agrees_def any_swap_def content_of_def)
qed

lemma destroy_agrees:
  assumes "own_inv m" "view m x = Some v"
  shows "agrees (any_destroy x m) ((view m)(x := None))"
proof -
  from assms(2) obtain p where x: "contents m x = Some p" by (auto simp: view_def)
  define h where "h = (case p of None \<Rightarrow> holders m | Some a \<Rightarrow> (holders m)(a := None))"
  let ?m = "m\<lparr>holders := h, contents := (contents m)(x := None)\<rparr>"
  have other: "a \<noteq> b" if "contents m z = Some (Some a)" "z \<noteq> x" "p = Some b" for z a b
    using own_single [OF assms(1), of z a x] that x by blast
  have run: "any_destroy x m = Inr ?m"
    using own_held [OF assms(1), of x] x
    by (cases p) (auto simp: any_destroy_def content_of_def delete_content_def h_def split: option.splits)
  have "own_inv ?m"
  proof (rule own_invI)
    fix z a assume "contents ?m z = Some (Some a)"
    then have "z \<noteq> x" "contents m z = Some (Some a)" by (auto split: if_splits)
    then show "holders ?m a \<noteq> None"
      using own_held [OF assms(1)] other by (auto simp: h_def split: option.splits)
  next
    fix a assume a: "holders ?m a \<noteq> None"
    then have "holders m a \<noteq> None" "p \<noteq> Some a" by (auto simp: h_def split: option.splits if_splits)
    with assms(1) obtain z where "a < limit m" "contents m z = Some (Some a)" by (auto elim: own_owner)
    moreover from this have "z \<noteq> x" using x \<open>p \<noteq> Some a\<close> by auto
    ultimately show "a < limit ?m \<and> (\<exists>z. contents ?m z = Some (Some a))" by auto
  qed (use own_single [OF assms(1)] in \<open>auto split: if_splits\<close>)
  moreover have "view ?m = (view m)(x := None)"
  proof
    fix z
    show "view ?m z = ((view m)(x := None)) z"
    proof (cases "z = x")
      case False
      have "Option.bind r h = Option.bind r (holders m)" if "contents m z = Some r" for r
      proof (cases r)
        case (Some a)
        with that have "contents m z = Some (Some a)" by simp
        with False other have "p \<noteq> Some a" by blast
        then show ?thesis by (simp add: Some h_def split: option.split)
      qed simp
      then show ?thesis using False by (cases "contents m z") (simp_all add: view_def)
    qed (simp add: view_def)
  qed
  ultimately show ?thesis by (simp add: agrees_def run)
qed

lemma agrees_eq: "agrees r s \<Longrightarrow> s = s' \<Longrightarrow> agrees r s'"
  by simp

text \<open>The part the assignments share: the temporary is swapped with the target and destroyed.\<close>

lemma swap_destroy_agrees:
  assumes "own_inv m" "view m t = Some v" "view m x = Some w" "t \<noteq> x"
  shows "agrees (bindE (any_swap t x m) (any_destroy t)) ((view m)(x := Some v, t := None))"
proof (rule agrees_bind [OF swap_agrees [OF assms(1-3)]])
  fix m' assume m': "own_inv m'" "view m' = (view m)(t := view m x, x := view m t)"
  then have "view m' t = Some w" using assms(3,4) by simp
  with m'(1) have "agrees (any_destroy t m') ((view m')(t := None))" by (rule destroy_agrees)
  then show "agrees (any_destroy t m') ((view m)(x := Some v, t := None))"
    by (rule agrees_eq) (use m'(2) assms(2,4) in auto)
qed

lemma assign_copy_agrees:
  assumes "own_inv m" "view m t = None" "view m x = Some v" "view m y = Some w"
  shows "agrees (any_assign_copy t x y m) ((view m)(x := view m y))"
  unfolding any_assign_copy_def
proof (rule agrees_bind [OF copy_agrees [OF assms(1,2,4)]])
  fix m' assume m': "own_inv m'" "view m' = (view m)(t := view m y)"
  have "t \<noteq> x" using assms(2,3) by auto
  then have "agrees (bindE (any_swap t x m') (any_destroy t)) ((view m')(x := Some w, t := None))"
    using m' assms(3,4) by (intro swap_destroy_agrees) simp_all
  then show "agrees (bindE (any_swap t x m') (any_destroy t)) ((view m)(x := view m y))"
    by (rule agrees_eq) (use m'(2) assms(2,4) \<open>t \<noteq> x\<close> in auto)
qed

lemma assign_value_agrees:
  assumes "own_inv m" "view m t = None" "view m x = Some v"
  shows "agrees (any_assign_value t x u m) ((view m)(x := Some (Some u)))"
  unfolding any_assign_value_def
proof (rule agrees_bind [OF value_agrees [OF assms(1,2)]])
  fix m' assume m': "own_inv m'" "view m' = (view m)(t := Some (Some u))"
  have "t \<noteq> x" using assms(2,3) by auto
  then have "agrees (bindE (any_swap t x m') (any_destroy t)) ((view m')(x := Some (Some u), t := None))"
    using m' assms(3) by (intro swap_destroy_agrees) simp_all
  then show "agrees (bindE (any_swap t x m') (any_destroy t)) ((view m)(x := Some (Some u)))"
    by (rule agrees_eq) (use m'(2) assms(2) \<open>t \<noteq> x\<close> in auto)
qed

lemma clear_agrees:
  assumes "own_inv m" "view m t = None" "view m x = Some v"
  shows "agrees (any_clear t x m) ((view m)(x := Some None))"
  unfolding any_clear_def
proof (rule agrees_bind [OF empty_agrees [OF assms(1,2)]])
  fix m' assume m': "own_inv m'" "view m' = (view m)(t := Some None)"
  have "t \<noteq> x" using assms(2,3) by auto
  then have "agrees (bindE (any_swap t x m') (any_destroy t)) ((view m')(x := Some None, t := None))"
    using m' assms(3) by (intro swap_destroy_agrees) simp_all
  then show "agrees (bindE (any_swap t x m') (any_destroy t)) ((view m)(x := Some None))"
    by (rule agrees_eq) (use m'(2) assms(2) \<open>t \<noteq> x\<close> in auto)
qed

lemma assign_move_agrees:
  assumes "own_inv m" "view m t = None" "view m x = Some v" "view m y = Some w"
  shows "agrees (any_assign_move t x y m) ((view m)(x := view m y, y := Some None))"
  unfolding any_assign_move_def
proof (rule agrees_bind [OF swap_agrees [OF assms(1,4,3)]])
  fix m' assume m': "own_inv m'" "view m' = (view m)(y := view m x, x := view m y)"
  have t: "t \<noteq> x" "t \<noteq> y" using assms(2-4) by auto
  have "view m' t = None" "view m' y = Some v" using m'(2) t assms by auto
  from clear_agrees [OF m'(1) this]
  have "agrees (bindE (any_empty t m') (\<lambda>m. bindE (any_swap t y m) (any_destroy t))) ((view m')(y := Some None))"
    by (simp only: any_clear_def)
  then show "agrees (bindE (any_empty t m') (\<lambda>m. bindE (any_swap t y m) (any_destroy t)))
      ((view m)(x := view m y, y := Some None))"
    by (rule agrees_eq) (use m'(2) in auto)
qed

lemma do_op_agrees:
  assumes "own_inv m" "view m t = None" "scoped t c (view m)"
  shows "agrees (do_op t c m) (spec_op c (view m))"
  using assms
  by (cases c)
    (auto intro: empty_agrees value_agrees copy_agrees move_agrees swap_agrees destroy_agrees
      assign_copy_agrees assign_move_agrees assign_value_agrees clear_agrees simp del: fun_upd_apply)

lemma spec_op_temporary: "scoped t c s \<Longrightarrow> s t = None \<Longrightarrow> spec_op c s t = None"
  by (cases c) auto

lemma do_ops_agree:
  "own_inv m \<Longrightarrow> view m t = None \<Longrightarrow> spec_ops t cs (view m) = Some s \<Longrightarrow> agrees (do_ops t cs m) s"
proof (induction cs arbitrary: m)
  case Nil
  then show ?case by (simp add: agrees_Inr)
next
  case (Cons c cs)
  then have c: "scoped t c (view m)" "spec_ops t cs (spec_op c (view m)) = Some s"
    by (simp_all split: if_splits)
  show ?case
    unfolding do_ops.simps
  proof (rule agrees_bind [OF do_op_agrees [OF Cons.prems(1,2) c(1)]])
    fix m' assume "own_inv m'" "view m' = spec_op c (view m)"
    with Cons.IH [of m'] Cons.prems(2) c spec_op_temporary [OF c(1)] show "agrees (do_ops t cs m') s" by simp
  qed
qed

lemma no_objects_inv: "own_inv no_objects" "view no_objects = (\<lambda>_. None)"
  by (auto simp: own_inv_def view_def no_objects_def)

text \<open>
  C31: the type-erased value. Any sequence of constructions, copies, moves, swaps,
  assignments (to itself as well) and destructions that respects the life times runs without
  a double delete or a use after delete, behaves as assignments to variables with optional
  values, and leaves every holder on the heap with exactly one owner: nothing is leaked, and
  copies share nothing.
\<close>

theorem any_refines_variables:
  assumes "spec_ops t cs (\<lambda>_. None) = Some s"
  shows "\<exists>m. do_ops t cs no_objects = Inr m \<and> view m = s \<and>
    (\<forall>a. holders m a \<noteq> None \<longrightarrow> (\<exists>!x. contents m x = Some (Some a)))"
proof -
  have "agrees (do_ops t cs no_objects) s"
    using do_ops_agree [of no_objects t cs s] assms by (simp add: no_objects_inv)
  then obtain m where m: "do_ops t cs no_objects = Inr m" "own_inv m" "view m = s" by (rule agreesE)
  moreover have "\<exists>!x. contents m x = Some (Some a)" if "holders m a \<noteq> None" for a
    using own_owner [OF m(2) that] own_single [OF m(2)] by metis
  ultimately show ?thesis by blast
qed

definition demo_anys :: "nat any_op list" where
  "demo_anys = [Make_value 0 5, Make_copy 1 0, Assign_value 0 6, Make_empty 2, Assign_move 2 0, Assign_move 1 1]"

lemma any_refines_variables_witness:
  "\<exists>m. do_ops 9 demo_anys no_objects = Inr m \<and> view m 2 = Some (Some 6) \<and> view m 1 = Some None"
  using any_refines_variables [of 9 demo_anys "(\<lambda>_. None)(0 := Some None, 1 := Some None, 2 := Some (Some 6))"]
  by (auto simp: demo_anys_def fun_upd_twist)

section \<open>Messages as objects\<close>

text \<open>
  \<open>Actor\<close> has the messages the programs send, all made by \<open>make_message\<close>. Here is the class
  with all its operations: a flag, a header and an \<open>any\<close>, which by \<open>any_refines_variables\<close>
  is a variable with an optional value. A header that was not given has a null sender and
  the empty command.
\<close>

record message_header =
  mh_sender :: "address option"
  mh_command :: type_action

record 'v message_object =
  mo_init :: bool
  mo_header :: message_header
  mo_body :: "'v option"

definition empty_header :: message_header where
  "empty_header = \<lparr>mh_sender = None, mh_command = \<lparr>ta_body = [], ta_hash = 0\<rparr>\<rparr>"

definition new_header :: "(string \<Rightarrow> u64) \<Rightarrow> address option \<Rightarrow> string \<Rightarrow> message_header" where
  "new_header H sender name = \<lparr>mh_sender = sender, mh_command = make_type_action H name\<rparr>"

definition message_default :: "'v message_object" where
  "message_default = \<lparr>mo_init = False, mo_header = empty_header, mo_body = None\<rparr>"

definition message_new :: "(string \<Rightarrow> u64) \<Rightarrow> address option \<Rightarrow> string \<Rightarrow> 'v option \<Rightarrow> 'v message_object" where
  "message_new H sender name b = \<lparr>mo_init = True, mo_header = new_header H sender name, mo_body = b\<rparr>"

text \<open>\<open>clone\<close> goes through the private constructor, which sets the flag.\<close>

definition message_clone :: "'v message_object \<Rightarrow> 'v message_object" where
  "message_clone m = \<lparr>mo_init = True, mo_header = mo_header m, mo_body = mo_body m\<rparr>"

text \<open>
  The defaulted move copies the flag and takes the body; \<open>left\<close> is what the move of a
  string leaves in the command of the source.
\<close>

definition message_move :: "type_action \<Rightarrow> 'v message_object \<Rightarrow> 'v message_object \<times> 'v message_object" where
  "message_move left m =
     (m, m\<lparr>mo_header := (mo_header m)\<lparr>mh_command := left\<rparr>, mo_body := None\<rparr>)"

text \<open>\<open>swap\<close> exchanges the headers and the bodies.\<close>

definition message_swap :: "'v message_object \<Rightarrow> 'v message_object \<Rightarrow> 'v message_object \<times> 'v message_object" where
  "message_swap m n =
     (m\<lparr>mo_header := mo_header n, mo_body := mo_body n\<rparr>, n\<lparr>mo_header := mo_header m, mo_body := mo_body m\<rparr>)"

definition message_bool :: "'v message_object \<Rightarrow> bool" where
  "message_bool m = mo_init m"

definition message_sender :: "'v message_object \<Rightarrow> address option" where
  "message_sender m = mh_sender (mo_header m)"

definition message_command :: "'v message_object \<Rightarrow> type_action" where
  "message_command m = mh_command (mo_header m)"

definition message_body :: "('v \<Rightarrow> 'a option) \<Rightarrow> 'v message_object \<Rightarrow> 'a result" where
  "message_body cast m =
     (case mo_body m of
        None \<Rightarrow> Inl Undefined
      | Some v \<Rightarrow> (case cast v of None \<Rightarrow> Inl Undefined | Some r \<Rightarrow> Inr r))"

lemma message_body_as:
  assumes "own_inv m" "view m x = Some (mo_body msg)"
  shows "any_as cast x m = message_body cast msg"
proof -
  from assms(2) obtain p where p: "contents m x = Some p" "mo_body msg = Option.bind p (holders m)"
    by (auto simp: view_def)
  then show ?thesis
    using own_held [OF assms(1), of x]
    by (cases p) (auto simp: any_as_def message_body_def content_of_def split: option.splits)
qed

lemma message_new_reads_back:
  "message_body cast (message_new H sender name (Some v)) = (case cast v of None \<Rightarrow> Inl Undefined | Some r \<Rightarrow> Inr r)"
  "message_command (message_new H sender name b) = make_type_action H name"
  "message_sender (message_new H sender name b) = sender"
  by (simp_all add: message_body_def message_new_def message_command_def message_sender_def new_header_def)

lemma message_clone_same: "message_bool m \<Longrightarrow> message_clone m = m"
  by (simp add: message_clone_def message_bool_def)

text \<open>The flag does not tell whether there is a body: a clone of an empty message, and a
  message that was moved from, claim to be initialised.\<close>

lemma clone_of_empty_claims_body:
  "message_bool (message_clone message_default) \<and> message_body cast (message_clone message_default) = Inl Undefined"
  by (simp add: message_bool_def message_body_def message_clone_def message_default_def)

lemma moved_message_claims_body:
  "message_bool m \<Longrightarrow> message_bool (snd (message_move left m)) \<and> message_body cast (snd (message_move left m)) = Inl Undefined"
  by (simp add: message_bool_def message_body_def message_move_def)

text \<open>\<open>swap\<close> is an exchange only between messages with the same flag.\<close>

lemma message_swap_exchanges: "message_swap m n = (n, m) \<longleftrightarrow> message_bool m = message_bool n"
  by (cases m; cases n) (auto simp: message_swap_def message_bool_def)

end
