(* ===== verification/Write_Queue.thy ===== *)
theory Write_Queue
  imports Prelude
begin

text \<open>
  The contract of a web socket session as a writer, whose code the sessions of the server
  (\<open>stream-providers/src/ws/ws_session.cpp\<close>) and of the client
  (\<open>stream-client/src/ws/ws_session.cpp\<close>) each have: \<open>write\<close> posts a frame to the strand, the
  strand puts it into \<open>_que\<close>, one \<open>async_write\<close> at a time takes the front of \<open>_que\<close>, and
  \<open>on_write\<close> goes on with the next.
\<close>

section \<open>Runs of a session\<close>

text \<open>
  A step is not enabled (\<open>None\<close>), ends with undefined behaviour or an exception (\<open>Inl\<close>),
  or leads to a state.
\<close>

fun run_events :: "('e \<Rightarrow> 's \<Rightarrow> 's result option) \<Rightarrow> 'e list \<Rightarrow> 's \<Rightarrow> 's result option" where
  "run_events step [] s = Some (Inr s)"
| "run_events step (e # es) s =
     (case step e s of
        None \<Rightarrow> None
      | Some (Inl x) \<Rightarrow> Some (Inl x)
      | Some (Inr s') \<Rightarrow> run_events step es s')"

lemma run_events_Cons_Some:
  "run_events step (e # es) s = Some r \<longleftrightarrow>
     (\<exists>r1. step e s = Some r1 \<and>
        (case r1 of Inl x \<Rightarrow> r = Inl x | Inr s1 \<Rightarrow> run_events step es s1 = Some r))"
  by (auto split: option.splits sum.splits)

lemma run_events_append:
  "run_events step (es @ fs) s =
     (case run_events step es s of
        None \<Rightarrow> None | Some (Inl x) \<Rightarrow> Some (Inl x) | Some (Inr s') \<Rightarrow> run_events step fs s')"
  by (induction es arbitrary: s) (auto split: option.splits sum.splits)

text \<open>What an event means to the writer.\<close>

datatype write_event = Called string | Queued string | Written string | Write_failed string | Unrelated

fun called :: "write_event list \<Rightarrow> string list" where
  "called [] = []"
| "called (Called f # es) = f # called es"
| "called (_ # es) = called es"

fun delivered :: "write_event list \<Rightarrow> string list" where
  "delivered [] = []"
| "delivered (Written f # es) = f # delivered es"
| "delivered (_ # es) = delivered es"

fun failed_write :: "write_event \<Rightarrow> bool" where
  "failed_write (Write_failed f) = True"
| "failed_write _ = False"

lemma called_append [simp]: "called (es @ fs) = called es @ called fs"
  by (induction es rule: called.induct) auto

lemma delivered_append [simp]: "delivered (es @ fs) = delivered es @ delivered fs"
  by (induction es rule: delivered.induct) auto

section \<open>The contract\<close>

text \<open>
  \<open>waiting\<close>: the frames posted to the strand; \<open>que\<close>: the deque of the session; \<open>in_flight\<close>:
  the frames of the \<open>async_write\<close> operations that have not completed.
\<close>

locale write_queue =
  fixes step :: "'e \<Rightarrow> 's \<Rightarrow> 's result option"
    and kind :: "'e \<Rightarrow> write_event"
    and waiting :: "'s \<Rightarrow> string list"
    and que :: "'s \<Rightarrow> string list"
    and in_flight :: "'s \<Rightarrow> string list"
  assumes step_called: "step e s = Some r \<Longrightarrow> kind e = Called f \<Longrightarrow>
      \<exists>s'. r = Inr s' \<and> waiting s' = waiting s @ [f] \<and> que s' = que s \<and> in_flight s' = in_flight s"
    and step_queued: "step e s = Some r \<Longrightarrow> kind e = Queued f \<Longrightarrow>
      \<exists>s'. r = Inr s' \<and> waiting s = f # waiting s' \<and> que s' = que s @ [f]
        \<and> in_flight s' = in_flight s @ (if que s = [] then [f] else [])"
    and step_written: "step e s = Some r \<Longrightarrow> kind e = Written f \<Longrightarrow> f \<in> set (in_flight s) \<and>
      (if que s = [] then r = Inl Undefined
       else \<exists>s'. r = Inr s' \<and> waiting s' = waiting s \<and> que s' = tl (que s)
          \<and> in_flight s' = remove1 f (in_flight s) @ take 1 (tl (que s)))"
    and step_failed: "step e s = Some r \<Longrightarrow> kind e = Write_failed f \<Longrightarrow> f \<in> set (in_flight s) \<and>
      (\<exists>s'. r = Inr s' \<and> waiting s' = waiting s \<and> que s' = que s \<and> in_flight s' = remove1 f (in_flight s))"
    and step_unrelated: "step e s = Some r \<Longrightarrow> kind e = Unrelated \<Longrightarrow>
      \<exists>s'. r = Inr s' \<and> waiting s' = waiting s \<and> que s' = que s \<and> in_flight s' = in_flight s"
begin

text \<open>At most one write is under way, of the front of the queue.\<close>

definition one_write :: "'s \<Rightarrow> bool" where
  "one_write s \<longleftrightarrow> in_flight s = [] \<or> que s \<noteq> [] \<and> in_flight s = [hd (que s)]"

lemma step_one_write:
  assumes "one_write s" "step e s = Some r"
  shows "\<exists>s'. r = Inr s' \<and> one_write s'
    \<and> que s @ waiting s @ called [kind e] = delivered [kind e] @ que s' @ waiting s'
    \<and> (in_flight s = take 1 (que s) \<and> \<not> failed_write (kind e) \<longrightarrow> in_flight s' = take 1 (que s'))"
proof (cases "kind e")
  case (Called f)
  with step_called [OF assms(2)] assms(1) show ?thesis by (auto simp: one_write_def)
next
  case (Queued f)
  with step_queued [OF assms(2)] assms(1) show ?thesis
    by (cases "que s") (auto simp: one_write_def)
next
  case (Written f)
  with step_written [OF assms(2)] assms(1) show ?thesis
    by (cases "que s"; cases "tl (que s)") (auto simp: one_write_def)
next
  case (Write_failed f)
  with step_failed [OF assms(2)] assms(1) show ?thesis by (auto simp: one_write_def)
next
  case Unrelated
  with step_unrelated [OF assms(2)] assms(1) show ?thesis by (auto simp: one_write_def)
qed

lemma run_one_write:
  assumes "one_write s" "run_events step es s = Some r"
  shows "\<exists>s'. r = Inr s' \<and> one_write s'
    \<and> que s @ waiting s @ called (map kind es) = delivered (map kind es) @ que s' @ waiting s'
    \<and> (in_flight s = take 1 (que s) \<and> (\<forall>e \<in> set es. \<not> failed_write (kind e)) \<longrightarrow> in_flight s' = take 1 (que s'))"
  using assms
proof (induction es arbitrary: s)
  case Nil
  then show ?case by auto
next
  case (Cons e es)
  from Cons.prems(2) obtain r1 where r1: "step e s = Some r1"
    "case r1 of Inl x \<Rightarrow> r = Inl x | Inr s1 \<Rightarrow> run_events step es s1 = Some r"
    by (auto simp only: run_events_Cons_Some)
  from step_one_write [OF Cons.prems(1) r1(1)] obtain s1 where s1: "r1 = Inr s1" "one_write s1"
    "que s @ waiting s @ called [kind e] = delivered [kind e] @ que s1 @ waiting s1"
    "in_flight s = take 1 (que s) \<Longrightarrow> \<not> failed_write (kind e) \<Longrightarrow> in_flight s1 = take 1 (que s1)" by blast
  with Cons.IH [OF s1(2)] r1(2) obtain s' where s': "r = Inr s'" "one_write s'"
    "que s1 @ waiting s1 @ called (map kind es) = delivered (map kind es) @ que s' @ waiting s'"
    "in_flight s1 = take 1 (que s1) \<Longrightarrow> (\<forall>e \<in> set es. \<not> failed_write (kind e)) \<Longrightarrow> in_flight s' = take 1 (que s')"
    by auto
  have "que s @ waiting s @ called (map kind (e # es))
      = (que s @ waiting s @ called [kind e]) @ called (map kind es)"
    using called_append [of "[kind e]" "map kind es"] by simp
  also have "\<dots> = delivered [kind e] @ (que s1 @ waiting s1 @ called (map kind es))"
    unfolding s1(3) by simp
  also have "\<dots> = delivered (map kind (e # es)) @ que s' @ waiting s'"
    unfolding s'(3) using delivered_append [of "[kind e]" "map kind es"] by simp
  finally show ?case using s' s1(4) by simp
qed

text \<open>
  A session that starts with nothing to write: the frames go out one at a time, in the
  order of the calls, and none is lost or written twice; nothing is undefined.
\<close>

lemma frames_in_order:
  assumes "waiting s = []" "que s = []" "in_flight s = []" "run_events step es s = Some r"
  shows "\<exists>s'. r = Inr s' \<and> called (map kind es) = delivered (map kind es) @ que s' @ waiting s'
    \<and> length (in_flight s') \<le> 1"
proof -
  have "one_write s" using assms(3) by (simp add: one_write_def)
  from run_one_write [OF this assms(4)] assms(1,2) show ?thesis
    by (auto simp: one_write_def)
qed

lemma writer_works:
  assumes "waiting s = []" "que s = []" "in_flight s = []" "run_events step es s = Some (Inr s')"
    and "\<forall>e \<in> set es. \<not> failed_write (kind e)"
  shows "in_flight s' = take 1 (que s')"
proof -
  have "one_write s" using assms(3) by (simp add: one_write_def)
  from run_one_write [OF this assms(4)] assms(2,3,5) show ?thesis by auto
qed

text \<open>With a frame in the queue and no write under way, the session writes nothing any more.\<close>

definition silent :: "'s \<Rightarrow> bool" where
  "silent s \<longleftrightarrow> que s \<noteq> [] \<and> in_flight s = []"

lemma silent_step:
  assumes "silent s" "step e s = Some r"
  shows "\<exists>s'. r = Inr s' \<and> silent s' \<and> delivered [kind e] = []"
proof (cases "kind e")
  case (Called f)
  with step_called [OF assms(2)] assms(1) show ?thesis by (auto simp: silent_def)
next
  case (Queued f)
  with step_queued [OF assms(2)] assms(1) show ?thesis by (auto simp: silent_def)
next
  case (Written f)
  with step_written [OF assms(2)] assms(1) show ?thesis by (auto simp: silent_def)
next
  case (Write_failed f)
  with step_failed [OF assms(2)] assms(1) show ?thesis by (auto simp: silent_def)
next
  case Unrelated
  with step_unrelated [OF assms(2)] assms(1) show ?thesis by (auto simp: silent_def)
qed

lemma silent_run:
  assumes "silent s" "run_events step es s = Some r"
  shows "\<exists>s'. r = Inr s' \<and> silent s' \<and> delivered (map kind es) = []"
  using assms
proof (induction es arbitrary: s)
  case Nil
  then show ?case by auto
next
  case (Cons e es)
  from Cons.prems(2) obtain r1 where r1: "step e s = Some r1"
    "case r1 of Inl x \<Rightarrow> r = Inl x | Inr s1 \<Rightarrow> run_events step es s1 = Some r"
    by (auto simp only: run_events_Cons_Some)
  from silent_step [OF Cons.prems(1) r1(1)] obtain s1 where
    "r1 = Inr s1" "silent s1" "delivered [kind e] = []" by blast
  with Cons.IH [of s1] r1(2) delivered_append [of "[kind e]" "map kind es"] show ?case by auto
qed

lemma failed_write_silences:
  assumes "one_write s" "run_events step (e # es) s = Some r" "kind e = Write_failed f"
  shows "\<exists>s'. r = Inr s' \<and> delivered (map kind es) = [] \<and> f \<in> set (que s) \<and> in_flight s' = []"
proof -
  from assms(2) obtain r1 where r1: "step e s = Some r1"
    "case r1 of Inl x \<Rightarrow> r = Inl x | Inr s1 \<Rightarrow> run_events step es s1 = Some r"
    by (auto simp only: run_events_Cons_Some)
  from step_failed [OF r1(1) assms(3)] obtain s1 where
    s1: "f \<in> set (in_flight s)" "r1 = Inr s1" "que s1 = que s" "in_flight s1 = remove1 f (in_flight s)" by blast
  with assms(1) have "silent s1" "f \<in> set (que s)" by (auto simp: silent_def one_write_def)
  with silent_run [OF this(1)] r1(2) s1(2) show ?thesis by (auto simp: silent_def)
qed

end

text \<open>When every write that is started may complete, a queue is written out.\<close>

locale live_write_queue = write_queue +
  fixes complete :: "string \<Rightarrow> 'a"
  assumes kind_complete: "kind (complete f) = Written f"
    and complete_enabled: "f \<in> set (in_flight s) \<Longrightarrow> step (complete f) s \<noteq> None"
begin

lemma queue_drains:
  assumes "in_flight s = take 1 (que s)"
  shows "\<exists>s'. run_events step (map complete (que s)) s = Some (Inr s') \<and> que s' = [] \<and> waiting s' = waiting s"
  using assms
proof (induction "que s" arbitrary: s)
  case Nil
  then show ?case by auto
next
  case (Cons f rest)
  have "in_flight s = [f]" using Cons.prems Cons.hyps(2) [symmetric] by simp
  with complete_enabled [of f s] obtain r where r: "step (complete f) s = Some r" by auto
  from step_written [OF r kind_complete] \<open>in_flight s = [f]\<close> Cons.hyps(2) [symmetric] obtain s1 where
    s1: "r = Inr s1" "waiting s1 = waiting s" "que s1 = rest" "in_flight s1 = take 1 rest" by auto
  from Cons.hyps(1) [of s1] s1(3,4) obtain s' where
    "run_events step (map complete rest) s1 = Some (Inr s')" "que s' = []" "waiting s' = waiting s1" by auto
  with r s1(1,2) Cons.hyps(2) [symmetric] show ?case by simp
qed

end

end
