(* ===== verification/Ws_Server.thy ===== *)
theory Ws_Server
  imports Write_Queue Platform_Link
begin

text \<open>
  \<open>stream-providers/src/ws\<close>: the sessions of the web socket server (\<open>ws_session.cpp\<close>), the
  listener that holds them (\<open>ws_listener.cpp\<close>) and the handlers of the provider \<open>ws\<close>
  (\<open>ws_server.cpp\<close>). The operations of boost.beast are events: a session starts them, and
  they complete with an error or without.
\<close>

section \<open>A session\<close>

datatype operation = Accepting | Reading | Writing string

text \<open>
  \<open>ses_strand\<close>: the frames of the functions that \<open>write\<close> has posted to the strand;
  \<open>ses_ops\<close>: the operations that have not completed; \<open>ses_sent\<close>: what went to the main pipe.
\<close>

record ws_session =
  ses_id :: string
  ses_strand :: "string list"
  ses_que :: "string list"
  ses_ops :: "operation list"
  ses_closed :: bool
  ses_sent :: "(string \<times> body) list"

definition ws_session_new :: "string \<Rightarrow> ws_session" where
  "ws_session_new i = \<lparr>ses_id = i, ses_strand = [], ses_que = [], ses_ops = [], ses_closed = False, ses_sent = []\<rparr>"

definition start_op :: "operation \<Rightarrow> ws_session \<Rightarrow> ws_session" where
  "start_op p s = s \<lparr>ses_ops := ses_ops s @ [p]\<rparr>"

definition session_send :: "string \<Rightarrow> body \<Rightarrow> ws_session \<Rightarrow> ws_session" where
  "session_send command b s = s \<lparr>ses_sent := ses_sent s @ [(command, b)]\<rparr>"

definition session_run :: "ws_session \<Rightarrow> ws_session" where
  "session_run s = start_op Accepting s"

definition session_do_read :: "ws_session \<Rightarrow> ws_session" where
  "session_do_read s = start_op Reading s"

definition session_on_accept :: "net_error option \<Rightarrow> ws_session \<Rightarrow> ws_session" where
  "session_on_accept ec s = (if ec \<noteq> None then s else session_do_read s)"

definition session_on_read :: "net_error option \<Rightarrow> string \<Rightarrow> ws_session \<Rightarrow> ws_session" where
  "session_on_read ec text s =
     (if ec = Some Ws_closed then s
      else case ec of
          Some c \<Rightarrow> session_send ''error'' (B_transport (T_error (ses_id s) Ws c)) s
        | None \<Rightarrow> session_do_read (session_send ''dispatcher'' (B_transport (T_ws (ses_id s) text)) s))"

text \<open>\<open>write\<close> posts a function; \<open>session_queue\<close> is that function, run by the strand.\<close>

definition session_write :: "string \<Rightarrow> ws_session \<Rightarrow> ws_session" where
  "session_write text s = s \<lparr>ses_strand := ses_strand s @ [text]\<rparr>"

definition session_queue :: "string \<Rightarrow> ws_session \<Rightarrow> ws_session" where
  "session_queue text s =
     (let write_in_progress = ses_que s \<noteq> [];
          s = s \<lparr>ses_que := ses_que s @ [text]\<rparr>
      in if \<not> write_in_progress then start_op (Writing (hd (ses_que s))) s else s)"

text \<open>\<open>pop_front\<close> of an empty deque is undefined.\<close>

definition session_on_write :: "net_error option \<Rightarrow> ws_session \<Rightarrow> ws_session result" where
  "session_on_write ec s =
     (if ec \<noteq> None then Inr s
      else case ses_que s of
          [] \<Rightarrow> Inl Undefined
        | _ # rest \<Rightarrow>
            (let s = s \<lparr>ses_que := rest\<rparr>
             in Inr (if rest \<noteq> [] then start_op (Writing (hd rest)) s else s)))"

definition session_close :: "ws_session \<Rightarrow> ws_session" where
  "session_close s = s \<lparr>ses_closed := True\<rparr>"

datatype session_event =
    Call_write string
  | Call_close
  | Run_posted string
  | Done operation "net_error option" string

definition finish_op :: "operation \<Rightarrow> ws_session \<Rightarrow> ws_session" where
  "finish_op p s = s \<lparr>ses_ops := remove1 p (ses_ops s)\<rparr>"

fun session_step :: "session_event \<Rightarrow> ws_session \<Rightarrow> ws_session result option" where
  "session_step (Call_write text) s = Some (Inr (session_write text s))"
| "session_step Call_close s = Some (Inr (session_close s))"
| "session_step (Run_posted text) s =
     (case ses_strand s of
        [] \<Rightarrow> None
      | t # rest \<Rightarrow> if t = text then Some (Inr (session_queue text (s \<lparr>ses_strand := rest\<rparr>))) else None)"
| "session_step (Done p ec text) s =
     (if p \<in> set (ses_ops s) then
        Some (case p of
            Accepting \<Rightarrow> Inr (session_on_accept ec (finish_op p s))
          | Reading \<Rightarrow> Inr (session_on_read ec text (finish_op p s))
          | Writing f \<Rightarrow> session_on_write ec (finish_op p s))
      else None)"

section \<open>The session writes in order\<close>

fun session_kind :: "session_event \<Rightarrow> write_event" where
  "session_kind (Call_write f) = Called f"
| "session_kind Call_close = Unrelated"
| "session_kind (Run_posted f) = Queued f"
| "session_kind (Done (Writing f) None text) = Written f"
| "session_kind (Done (Writing f) (Some c) text) = Write_failed f"
| "session_kind (Done Accepting ec text) = Unrelated"
| "session_kind (Done Reading ec text) = Unrelated"

fun writes :: "operation list \<Rightarrow> string list" where
  "writes [] = []"
| "writes (Writing f # ps) = f # writes ps"
| "writes (_ # ps) = writes ps"

lemma writes_append [simp]: "writes (ps @ qs) = writes ps @ writes qs"
  by (induction ps rule: writes.induct) auto

lemma set_writes: "f \<in> set (writes ps) \<longleftrightarrow> Writing f \<in> set ps"
  by (induction ps rule: writes.induct) auto

lemma writes_remove1:
  "writes (remove1 p ps) = (case p of Writing f \<Rightarrow> remove1 f (writes ps) | _ \<Rightarrow> writes ps)"
  by (induction ps rule: writes.induct) (auto split: operation.splits simp: set_writes [symmetric])

definition session_in_flight :: "ws_session \<Rightarrow> string list" where
  "session_in_flight s = writes (ses_ops s)"

lemmas session_defs = session_write_def session_queue_def session_on_write_def session_close_def
  session_on_accept_def session_on_read_def session_do_read_def session_send_def start_op_def
  finish_op_def session_in_flight_def writes_remove1 Let_def

lemma session_kind_cases:
  "session_kind e = Called f \<longleftrightarrow> e = Call_write f"
  "session_kind e = Queued f \<longleftrightarrow> e = Run_posted f"
  "session_kind e = Written f \<longleftrightarrow> (\<exists>t. e = Done (Writing f) None t)"
  "session_kind e = Write_failed f \<longleftrightarrow> (\<exists>c t. e = Done (Writing f) (Some c) t)"
  "session_kind e = Unrelated \<longleftrightarrow> e = Call_close \<or> (\<exists>ec t. e = Done Accepting ec t \<or> e = Done Reading ec t)"
  by (cases e rule: session_kind.cases; auto)+

interpretation sq: live_write_queue session_step session_kind ses_strand ses_que session_in_flight
  "\<lambda>f. Done (Writing f) None []"
proof unfold_locales
  fix e s r f
  show "session_step e s = Some r \<Longrightarrow> session_kind e = Called f \<Longrightarrow>
      \<exists>s'. r = Inr s' \<and> ses_strand s' = ses_strand s @ [f] \<and> ses_que s' = ses_que s
        \<and> session_in_flight s' = session_in_flight s"
    by (auto simp: session_kind_cases session_defs)
  show "session_step e s = Some r \<Longrightarrow> session_kind e = Queued f \<Longrightarrow>
      \<exists>s'. r = Inr s' \<and> ses_strand s = f # ses_strand s' \<and> ses_que s' = ses_que s @ [f]
        \<and> session_in_flight s' = session_in_flight s @ (if ses_que s = [] then [f] else [])"
    by (auto simp: session_kind_cases session_defs split: list.splits if_splits)
  show "session_step e s = Some r \<Longrightarrow> session_kind e = Written f \<Longrightarrow> f \<in> set (session_in_flight s) \<and>
      (if ses_que s = [] then r = Inl Undefined
       else \<exists>s'. r = Inr s' \<and> ses_strand s' = ses_strand s \<and> ses_que s' = tl (ses_que s)
          \<and> session_in_flight s' = remove1 f (session_in_flight s) @ take 1 (tl (ses_que s)))"
    by (cases "ses_que s"; cases "tl (ses_que s)") (auto simp: session_kind_cases session_defs set_writes split: if_splits)
  show "session_step e s = Some r \<Longrightarrow> session_kind e = Write_failed f \<Longrightarrow> f \<in> set (session_in_flight s) \<and>
      (\<exists>s'. r = Inr s' \<and> ses_strand s' = ses_strand s \<and> ses_que s' = ses_que s
        \<and> session_in_flight s' = remove1 f (session_in_flight s))"
    by (auto simp: session_kind_cases session_defs set_writes split: if_splits)
  show "session_step e s = Some r \<Longrightarrow> session_kind e = Unrelated \<Longrightarrow>
      \<exists>s'. r = Inr s' \<and> ses_strand s' = ses_strand s \<and> ses_que s' = ses_que s
        \<and> session_in_flight s' = session_in_flight s"
    by (auto simp: session_kind_cases session_defs split: if_splits option.splits)
  show "session_kind (Done (Writing f) None []) = Written f" by simp
  show "f \<in> set (session_in_flight s) \<Longrightarrow> session_step (Done (Writing f) None []) s \<noteq> None"
    by (simp add: session_in_flight_def set_writes)
qed

text \<open>
  C17: whatever the order in which calls of \<open>write\<close>, the functions on the strand and the
  completions of operations interleave, and whichever of them fail, a session never has
  two writes under way, and the frames that were written are those of the calls, in their
  order, the rest being still queued; while no write failed, the front of the queue is
  being written. Nothing undefined happens.
\<close>

theorem session_frames_in_order:
  assumes "run_events session_step es (ws_session_new i) = Some r"
  shows "\<exists>s. r = Inr s
    \<and> called (map session_kind es) = delivered (map session_kind es) @ ses_que s @ ses_strand s
    \<and> length (session_in_flight s) \<le> 1
    \<and> (list_all (\<lambda>e. \<not> failed_write (session_kind e)) es \<longrightarrow> session_in_flight s = take 1 (ses_que s))"
proof -
  have new: "ses_strand (ws_session_new i) = []" "ses_que (ws_session_new i) = []"
    "session_in_flight (ws_session_new i) = []"
    by (simp_all add: ws_session_new_def session_in_flight_def)
  from sq.frames_in_order [OF new assms] obtain s where s: "r = Inr s"
    "called (map session_kind es) = delivered (map session_kind es) @ ses_que s @ ses_strand s"
    "length (session_in_flight s) \<le> 1" by blast
  with sq.writer_works [OF new] assms show ?thesis by (auto simp: list_all_iff)
qed

definition demo_session_events :: "session_event list" where
  "demo_session_events =
     [Call_write ''a'', Call_write ''b'', Run_posted ''a'', Run_posted ''b'', Done (Writing ''a'') None [],
      Call_write ''c'']"

lemma session_frames_in_order_witness:
  "\<exists>s. run_events session_step demo_session_events (ws_session_new ''1'') = Some (Inr s)
    \<and> ses_que s = [''b''] \<and> ses_strand s = [''c''] \<and> session_in_flight s = [''b'']"
proof -
  have run: "run_events session_step demo_session_events (ws_session_new ''1'') =
      Some (Inr \<lparr>ses_id = ''1'', ses_strand = [''c''], ses_que = [''b''], ses_ops = [Writing ''b''],
        ses_closed = False, ses_sent = []\<rparr>)"
    by (simp add: demo_session_events_def ws_session_new_def session_defs)
  from session_frames_in_order [OF this] show ?thesis by (simp add: run session_in_flight_def)
qed

section \<open>The listener\<close>

text \<open>
  \<open>lst_accepts\<close>: the calls of \<open>async_accept\<close> under way; \<open>lst_pipe\<close>: the actors that get the
  frames of unknown connections; \<open>lst_sent\<close>: what they got.
\<close>

record ws_listener =
  lst_open :: bool
  lst_accepts :: nat
  lst_pipe :: "string list"
  lst_sessions :: "(string \<times> ws_session) list"
  lst_sent :: "sent list"

text \<open>Each of the four calls of the constructor may fail; then the acceptor does not listen.\<close>

definition ws_listener_new :: "bool \<Rightarrow> string list \<Rightarrow> ws_listener" where
  "ws_listener_new is_open pipe =
     \<lparr>lst_open = is_open, lst_accepts = 0, lst_pipe = pipe, lst_sessions = [], lst_sent = []\<rparr>"

definition listener_do_accept :: "ws_listener \<Rightarrow> ws_listener" where
  "listener_do_accept l = l \<lparr>lst_accepts := lst_accepts l + 1\<rparr>"

definition listener_run :: "ws_listener \<Rightarrow> ws_listener" where
  "listener_run l = (if \<not> lst_open l then l else listener_do_accept l)"

text \<open>\<open>now\<close> is the time in microseconds, which names the connection.\<close>

definition listener_on_accept :: "net_error option \<Rightarrow> string \<Rightarrow> ws_listener \<Rightarrow> ws_listener result" where
  "listener_on_accept ec now l =
     (let l = l \<lparr>lst_accepts := lst_accepts l - 1\<rparr> in
      bindE
        (if ec \<noteq> None then Inr l
         else
           (let sessions = um_emplace now (ws_session_new now) (lst_sessions l) in
            case um_find now sessions of
              None \<Rightarrow> Inl Out_of_range
            | Some session \<Rightarrow> Inr (l \<lparr>lst_sessions := um_set now (session_run session) sessions\<rparr>)))
        (\<lambda>l. Inr (listener_do_accept l)))"

definition listener_write :: "string \<Rightarrow> string \<Rightarrow> ws_listener \<Rightarrow> ws_listener" where
  "listener_write i text l =
     (case um_find i (lst_sessions l) of
        Some session \<Rightarrow> l \<lparr>lst_sessions := um_set i (session_write text session) (lst_sessions l)\<rparr>
      | None \<Rightarrow>
          l \<lparr>lst_sent := lst_sent l @ map (\<lambda>pipe. (pipe, ''write'', B_transport (T_ws i text))) (lst_pipe l)\<rparr>)"

definition listener_remove :: "string \<Rightarrow> ws_listener \<Rightarrow> ws_listener" where
  "listener_remove i l = l \<lparr>lst_sessions := um_erase i (lst_sessions l)\<rparr>"

text \<open>
  A session that leaves the registry lives on until its operations have completed; the
  result of \<open>close\<close> has the closed sessions beside the listener.
\<close>

definition listener_close :: "string \<Rightarrow> ws_listener \<Rightarrow> ws_session list \<times> ws_listener" where
  "listener_close i l =
     (case um_find i (lst_sessions l) of
        Some session \<Rightarrow> ([session_close session], listener_remove i l)
      | None \<Rightarrow> ([], l))"

definition listener_close_all :: "ws_listener \<Rightarrow> ws_session list \<times> ws_listener" where
  "listener_close_all l =
     (map (\<lambda>p. session_close (snd p)) (lst_sessions l), l \<lparr>lst_sessions := []\<rparr>)"

text \<open>The handlers of \<open>ws_server\<close> read the transport as a \<open>web_socket\<close>, unchecked.\<close>

definition ws_body :: "body \<Rightarrow> (string \<times> string) result" where
  "ws_body b = bindE (body_transport b) as_ws"

definition ws_write :: "body \<Rightarrow> ws_listener \<Rightarrow> ws_listener result" where
  "ws_write b l = bindE (ws_body b) (\<lambda>(i, text). Inr (listener_write i text l))"

definition ws_close :: "body \<Rightarrow> ws_listener \<Rightarrow> ws_listener result" where
  "ws_close b l = bindE (ws_body b) (\<lambda>(i, _). Inr (snd (listener_close i l)))"

definition ws_remove :: "body \<Rightarrow> ws_listener \<Rightarrow> ws_listener result" where
  "ws_remove b l = bindE (ws_body b) (\<lambda>(i, _). Inr (listener_remove i l))"

definition ws_handle :: "string \<Rightarrow> body \<Rightarrow> ws_listener \<Rightarrow> ws_listener result" where
  "ws_handle command b l =
     (if command = ''write'' then ws_write b l
      else if command = ''close'' then ws_close b l
      else if command = ''remove'' then ws_remove b l
      else Inr l)"

definition ws_startup :: "ws_listener \<Rightarrow> ws_listener" where
  "ws_startup l = listener_run l"

definition ws_shutdown :: "ws_listener \<Rightarrow> ws_listener" where
  "ws_shutdown l = snd (listener_close_all l)"

section \<open>The registry of sessions\<close>

datatype listener_event =
    Startup
  | Accepted "net_error option" string
  | Message string body
  | Session string session_event
  | Shutdown_all

fun listener_step :: "listener_event \<Rightarrow> ws_listener \<Rightarrow> ws_listener result option" where
  "listener_step Startup l = Some (Inr (ws_startup l))"
| "listener_step (Accepted ec now) l =
     (if lst_accepts l > 0 then Some (listener_on_accept ec now l) else None)"
| "listener_step (Message command b) l = Some (ws_handle command b l)"
| "listener_step (Session i e) l =
     (case um_find i (lst_sessions l) of
        None \<Rightarrow> None
      | Some s \<Rightarrow>
          (case session_step e s of
             None \<Rightarrow> None
           | Some (Inl x) \<Rightarrow> Some (Inl x)
           | Some (Inr s') \<Rightarrow> Some (Inr (l \<lparr>lst_sessions := um_set i s' (lst_sessions l)\<rparr>))))"
| "listener_step Shutdown_all l = Some (Inr (ws_shutdown l))"

text \<open>Every session is registered under its own name and has at most one write under way.\<close>

definition listener_inv :: "ws_listener \<Rightarrow> bool" where
  "listener_inv l \<longleftrightarrow> um_inv (lst_sessions l)
     \<and> (\<forall>i s. um_find i (lst_sessions l) = Some s \<longrightarrow> ses_id s = i \<and> sq.one_write s)"

lemma session_step_id: "session_step e s = Some (Inr s') \<Longrightarrow> ses_id s' = ses_id s"
  by (cases e) (auto simp: session_defs split: list.splits if_splits option.splits operation.splits)

lemma one_write_new: "sq.one_write (session_run (ws_session_new i))"
  by (simp add: sq.one_write_def session_run_def ws_session_new_def session_defs)

lemma one_write_run: "sq.one_write s \<Longrightarrow> sq.one_write (session_run s)"
  by (simp add: sq.one_write_def session_run_def session_defs)

lemma listener_inv_set:
  assumes "listener_inv l" "ses_id s = i" "sq.one_write s"
  shows "listener_inv (l \<lparr>lst_sessions := um_set i s (lst_sessions l)\<rparr>)"
  using assms by (auto simp: listener_inv_def um_inv_set um_find_set)

lemma listener_inv_erase: "listener_inv l \<Longrightarrow> listener_inv (listener_remove i l)"
  by (auto simp: listener_inv_def listener_remove_def um_inv_erase um_find_erase)

lemma session_write_one: "sq.one_write s \<Longrightarrow> sq.one_write (session_write text s)"
  by (simp add: sq.one_write_def session_defs)

lemma listener_inv_write:
  assumes "listener_inv l"
  shows "listener_inv (listener_write i text l)"
proof (cases "um_find i (lst_sessions l)")
  case None
  with assms show ?thesis by (simp add: listener_write_def listener_inv_def)
next
  case (Some s)
  with assms have s: "ses_id (session_write text s) = i" "sq.one_write (session_write text s)"
    by (auto simp: listener_inv_def session_write_one) (simp add: session_write_def)
  from listener_inv_set [OF assms s] Some show ?thesis by (simp add: listener_write_def)
qed

lemma listener_accept_inv:
  assumes "listener_inv l"
  shows "\<exists>l'. listener_on_accept ec now l = Inr l' \<and> listener_inv l' \<and> lst_pipe l' = lst_pipe l"
proof (cases ec)
  case (Some c)
  with assms show ?thesis by (simp add: listener_on_accept_def listener_do_accept_def listener_inv_def)
next
  case None
  define s where "s = (case um_find now (lst_sessions l) of None \<Rightarrow> ws_session_new now | Some s \<Rightarrow> s)"
  define l1 where "l1 = l \<lparr>lst_accepts := lst_accepts l - 1,
    lst_sessions := um_emplace now (ws_session_new now) (lst_sessions l)\<rparr>"
  have find: "um_find now (lst_sessions l1) = Some s"
    by (simp add: l1_def s_def um_find_emplace split: option.splits)
  have s: "ses_id (session_run s) = now" "sq.one_write (session_run s)"
    using assms one_write_new [of now] one_write_run
    by (auto simp: s_def listener_inv_def ws_session_new_def session_run_def start_op_def split: option.splits)
  have "listener_inv l1"
    using assms by (auto simp: l1_def listener_inv_def um_inv_emplace um_find_emplace ws_session_new_def
        sq.one_write_def session_in_flight_def split: option.splits if_splits)
  from listener_inv_set [OF this s] find None show ?thesis
    by (simp add: listener_on_accept_def l1_def listener_do_accept_def listener_inv_def)
qed

lemma listener_session_inv:
  assumes "listener_inv l" "um_find i (lst_sessions l) = Some s" "session_step e s = Some r"
  shows "\<exists>s'. r = Inr s' \<and> listener_inv (l \<lparr>lst_sessions := um_set i s' (lst_sessions l)\<rparr>)"
proof -
  from assms(1,2) have s: "ses_id s = i" "sq.one_write s" by (auto simp: listener_inv_def)
  from sq.step_one_write [OF s(2) assms(3)] obtain s' where s': "r = Inr s'" "sq.one_write s'" by blast
  with assms(3) s(1) have "ses_id s' = i" by (simp add: session_step_id)
  from listener_inv_set [OF assms(1) this s'(2)] s'(1) show ?thesis by simp
qed

text \<open>The only way a step can fail is a message whose transport is no web socket.\<close>

lemma listener_step_inv:
  assumes "listener_inv l" "listener_step e l = Some r"
  shows "(\<exists>l'. r = Inr l' \<and> listener_inv l' \<and> lst_pipe l' = lst_pipe l)
    \<or> (r = Inl Undefined \<and> (\<exists>command b. e = Message command b \<and> ws_body b = Inl Undefined))"
proof (cases e)
  case Startup
  with assms show ?thesis
    by (auto simp: ws_startup_def listener_run_def listener_do_accept_def listener_inv_def split: if_splits)
next
  case (Accepted ec now)
  then have "r = listener_on_accept ec now l" using assms(2) by (simp split: if_splits)
  with listener_accept_inv [OF assms(1), of ec now] show ?thesis by auto
next
  case (Message command b)
  have body: "ws_body b = Inl x \<Longrightarrow> x = Undefined" for x
    by (cases b; auto simp: ws_body_def elim: as_ws.elims)
  have pipe: "lst_pipe (listener_write i text l) = lst_pipe l" for i "text"
    by (simp add: listener_write_def split: option.splits)
  show ?thesis
  proof (cases "ws_body b")
    case (Inl x)
    with assms Message body show ?thesis
      by (auto simp: ws_handle_def ws_write_def ws_close_def ws_remove_def split: if_splits)
  next
    case (Inr p)
    with assms Message listener_inv_write [OF assms(1)] listener_inv_erase [OF assms(1)] pipe show ?thesis
      by (auto simp: ws_handle_def ws_write_def ws_close_def ws_remove_def listener_close_def
          listener_remove_def split: if_splits option.splits prod.splits)
  qed
next
  case (Session i se)
  with assms(2) listener_session_inv [OF assms(1)] show ?thesis
    by (fastforce split: option.splits sum.splits)
next
  case Shutdown_all
  with assms show ?thesis
    by (auto simp: ws_shutdown_def listener_close_all_def listener_inv_def)
qed

lemma listener_run_inv:
  assumes "listener_inv l" "run_events listener_step es l = Some (Inr l')"
  shows "listener_inv l' \<and> lst_pipe l' = lst_pipe l"
  using assms
proof (induction es arbitrary: l)
  case Nil
  then show ?case by simp
next
  case (Cons e es)
  from Cons.prems(2) obtain l1 where "listener_step e l = Some (Inr l1)" "run_events listener_step es l1 = Some (Inr l')"
    by (auto split: option.splits sum.splits)
  with Cons.IH [of l1] listener_step_inv [OF Cons.prems(1)] show ?case by fastforce
qed

lemma listener_new_inv: "listener_inv (ws_listener_new is_open pipe)"
  by (simp add: listener_inv_def ws_listener_new_def)

text \<open>
  C24: from the start of the server and after any sequence of connections, messages and
  completions, a frame that is written to a connection reaches the session registered
  under that name, and no other; the frame of a connection that is not registered goes to
  every actor of the pipe instead, unchanged; and each session is registered under its name.
\<close>

theorem ws_write_routes:
  assumes "run_events listener_step es (ws_listener_new is_open pipe) = Some (Inr l)"
  shows "\<exists>l'. ws_handle ''write'' (B_transport (T_ws i text)) l = Inr l'
    \<and> (\<forall>j. um_find j (lst_sessions l') =
          (if j = i then map_option (session_write text) (um_find i (lst_sessions l)) else um_find j (lst_sessions l)))
    \<and> lst_sent l' = lst_sent l @
        (if um_find i (lst_sessions l) = None
         then map (\<lambda>p. (p, ''write'', B_transport (T_ws i text))) pipe else [])
    \<and> (\<forall>j. map_option ses_id (um_find j (lst_sessions l')) \<in> {None, Some j})"
proof -
  from listener_run_inv [OF listener_new_inv assms] have inv: "listener_inv l" "lst_pipe l = pipe"
    by (simp_all add: ws_listener_new_def)
  have "map_option ses_id (um_find j (lst_sessions (listener_write i text l))) \<in> {None, Some j}" for j
    using listener_inv_write [OF inv(1), of i "text"]
    by (cases "um_find j (lst_sessions (listener_write i text l))") (auto simp: listener_inv_def)
  moreover have "ws_handle ''write'' (B_transport (T_ws i text)) l = Inr (listener_write i text l)"
    by (simp add: ws_handle_def ws_write_def ws_body_def)
  ultimately show ?thesis
    using inv(2) by (auto simp: listener_write_def um_find_set split: option.splits)
qed

definition demo_listener_events :: "listener_event list" where
  "demo_listener_events = [Startup, Accepted None ''7'', Accepted None ''8'', Message ''remove'' (B_transport (T_ws ''8'' []))]"

definition demo_listener :: ws_listener where
  "demo_listener = \<lparr>lst_open = True, lst_accepts = 1, lst_pipe = [''platform''],
     lst_sessions = [(''7'', session_run (ws_session_new ''7''))], lst_sent = []\<rparr>"

lemma ws_write_routes_witness:
  "\<exists>l'. ws_handle ''write'' (B_transport (T_ws ''8'' ''x'')) demo_listener = Inr l'
    \<and> lst_sent l' = [(''platform'', ''write'', B_transport (T_ws ''8'' ''x''))]"
proof -
  have "run_events listener_step demo_listener_events (ws_listener_new True [''platform'']) = Some (Inr demo_listener)"
    by (simp add: demo_listener_events_def ws_listener_new_def demo_listener_def ws_startup_def listener_run_def
        listener_do_accept_def listener_on_accept_def um_emplace_def um_find_Cons um_set.simps ws_handle_def
        ws_remove_def ws_body_def listener_remove_def um_erase_def)
  from ws_write_routes [OF this, of "''8''" "''x''"] show ?thesis
    by (auto simp: demo_listener_def um_find_Cons)
qed

section \<open>Replies through the platform\<close>

text \<open>
  A reply of a service of the manager to a caller that came through the platform, whose
  connection the listener of the manager does not know: the listener gives it to the link
  to the platform, which sends it to the client with the caller in its metadata and every
  other entry kept.
\<close>

lemma reply_through_platform:
  assumes "um_find caller (lst_sessions l) = None" "lst_pipe l = [''platform'']"
    and "parse_map (x_utf X) text = Inr m" "x_contacts X ''client'' = Some types"
    and "om_find ''transport'' m = None"
    and "om_find ''metadata'' m = None \<or> om_find ''metadata'' m = Some (JMap md)"
  shows "\<exists>l' b out out_md. ws_handle ''write'' (B_transport (T_ws caller text)) l = Inr l'
    \<and> lst_sent l' = lst_sent l @ [(''platform'', ''write'', b)]
    \<and> link_handle X ''write'' b w =
        (Inr (), w \<lparr>w_sent := w_sent w @ [(''client'', ''write'', B_transport (T_ws caller (to_string out)))]\<rparr>)
    \<and> om_find ''metadata'' out = Some (JMap out_md) \<and> om_find ''transport'' out_md = Some (JStr caller)
    \<and> (\<forall>k. om_find k out = (if k = ''metadata'' then Some (JMap out_md) else om_find k m))"
proof -
  have "ws_handle ''write'' (B_transport (T_ws caller text)) l = Inr (l \<lparr>lst_sent := lst_sent l @
      [(''platform'', ''write'', B_transport (T_ws caller text))]\<rparr>)"
    using assms(1,2) by (simp add: ws_handle_def ws_write_def ws_body_def listener_write_def)
  moreover obtain out out_md where
    "link_handle X ''write'' (B_transport (T_ws caller text)) w =
        (Inr (), w \<lparr>w_sent := w_sent w @ [(''client'', ''write'', B_transport (T_ws caller (to_string out)))]\<rparr>)"
    "\<forall>k. k \<noteq> ''metadata'' \<longrightarrow> om_find k out = om_find k m"
    "om_find ''metadata'' out = Some (JMap out_md)" "om_find ''transport'' out_md = Some (JStr caller)"
    using link_write_addresses_caller [OF assms(3-6), of caller w] by blast
  ultimately show ?thesis
    by (intro exI [of _ "l \<lparr>lst_sent := lst_sent l @ [(''platform'', ''write'', B_transport (T_ws caller text))]\<rparr>"]
        exI [of _ "B_transport (T_ws caller text)"] exI [of _ out] exI [of _ out_md]) simp
qed

lemma reply_through_platform_witness:
  "\<exists>l' b out out_md. ws_handle ''write'' (B_transport (T_ws ''8'' (to_string [(''id'', JStr ''1'')]))) demo_listener = Inr l'
    \<and> lst_sent l' = lst_sent demo_listener @ [(''platform'', ''write'', b)]
    \<and> link_handle demo_ext ''write'' b demo_link =
        (Inr (), demo_link \<lparr>w_sent := w_sent demo_link @ [(''client'', ''write'', B_transport (T_ws ''8'' (to_string out)))]\<rparr>)
    \<and> om_find ''metadata'' out = Some (JMap out_md) \<and> om_find ''transport'' out_md = Some (JStr ''8'')
    \<and> (\<forall>k. om_find k out = (if k = ''metadata'' then Some (JMap out_md) else om_find k [(''id'', JStr ''1'')]))"
proof (rule reply_through_platform)
  show "parse_map (x_utf demo_ext) (to_string [(''id'', JStr ''1'')]) = Inr [(''id'', JStr ''1'')]"
    by (rule parse_map_to_string) (simp_all add: json_wf_JMap om_inv_def)
  show "x_contacts demo_ext ''client'' = Some [''list'']" by code_simp
qed (simp_all add: om_find_Cons demo_listener_def um_find_Cons)

end
