(* ===== verification/Ws_Client.thy ===== *)
theory Ws_Client
  imports Write_Queue Service
begin

text \<open>
  \<open>stream-client/src/ws\<close>: the session of a client (\<open>ws_session.cpp\<close>) and the provider
  \<open>client\<close> (\<open>ws_client.cpp\<close>). The operations of boost.asio and boost.beast are events, as in
  \<open>Ws_Server\<close>.
\<close>

section \<open>The session\<close>

datatype client_operation = Resolving | Connecting | Handshaking | Receiving | Sending string

record client_session =
  cs_id :: string
  cs_host :: string
  cs_port :: string
  cs_strand :: "string list"
  cs_que :: "string list"
  cs_ops :: "client_operation list"
  cs_closed :: bool
  cs_sent :: "(string \<times> body) list"

definition client_session_new :: "string \<Rightarrow> client_session" where
  "client_session_new i =
     \<lparr>cs_id = i, cs_host = [], cs_port = [], cs_strand = [], cs_que = [], cs_ops = [], cs_closed = False,
      cs_sent = []\<rparr>"

definition client_start :: "client_operation \<Rightarrow> client_session \<Rightarrow> client_session" where
  "client_start p s = s \<lparr>cs_ops := cs_ops s @ [p]\<rparr>"

definition client_send :: "string \<Rightarrow> body \<Rightarrow> client_session \<Rightarrow> client_session" where
  "client_send command b s = s \<lparr>cs_sent := cs_sent s @ [(command, b)]\<rparr>"

definition client_do_read :: "client_session \<Rightarrow> client_session" where
  "client_do_read s = client_start Receiving s"

definition client_run :: "string \<Rightarrow> string \<Rightarrow> client_session \<Rightarrow> client_session" where
  "client_run host port s = client_start Resolving (s \<lparr>cs_host := host, cs_port := port\<rparr>)"

definition client_on_resolve :: "net_error option \<Rightarrow> client_session \<Rightarrow> client_session" where
  "client_on_resolve ec s = (if ec \<noteq> None then s else client_start Connecting s)"

definition client_on_connect :: "net_error option \<Rightarrow> client_session \<Rightarrow> client_session" where
  "client_on_connect ec s =
     (case ec of
        Some c \<Rightarrow> client_send ''error'' (B_transport (T_error (cs_id s) Ws c)) s
      | None \<Rightarrow> client_start Handshaking s)"

text \<open>The body of a handshake is what the buffer holds.\<close>

definition client_on_handshake :: "net_error option \<Rightarrow> string \<Rightarrow> client_session \<Rightarrow> client_session" where
  "client_on_handshake ec text s =
     (if ec \<noteq> None then s
      else client_do_read (client_send ''handshake'' (B_transport (T_ws (cs_id s) text)) s))"

definition client_on_read :: "net_error option \<Rightarrow> string \<Rightarrow> client_session \<Rightarrow> client_session" where
  "client_on_read ec text s =
     (case ec of
        Some c \<Rightarrow> client_send ''error'' (B_transport (T_error (cs_id s) Ws c)) s
      | None \<Rightarrow> client_do_read (client_send ''dispatcher'' (B_transport (T_ws (cs_id s) text)) s))"

definition client_write :: "string \<Rightarrow> client_session \<Rightarrow> client_session" where
  "client_write text s = s \<lparr>cs_strand := cs_strand s @ [text]\<rparr>"

definition client_queue :: "string \<Rightarrow> client_session \<Rightarrow> client_session" where
  "client_queue text s =
     (let write_in_progress = cs_que s \<noteq> [];
          s = s \<lparr>cs_que := cs_que s @ [text]\<rparr>
      in if \<not> write_in_progress then client_start (Sending (hd (cs_que s))) s else s)"

definition client_on_write :: "net_error option \<Rightarrow> client_session \<Rightarrow> client_session result" where
  "client_on_write ec s =
     (if ec \<noteq> None then Inr s
      else case cs_que s of
          [] \<Rightarrow> Inl Undefined
        | _ # rest \<Rightarrow>
            (let s = s \<lparr>cs_que := rest\<rparr>
             in Inr (if rest \<noteq> [] then client_start (Sending (hd rest)) s else s)))"

definition client_close :: "client_session \<Rightarrow> client_session" where
  "client_close s = s \<lparr>cs_closed := True\<rparr>"

datatype client_event =
    C_write string
  | C_run string string
  | C_close
  | C_posted string
  | C_done client_operation "net_error option" string

definition client_finish :: "client_operation \<Rightarrow> client_session \<Rightarrow> client_session" where
  "client_finish p s = s \<lparr>cs_ops := remove1 p (cs_ops s)\<rparr>"

fun client_step :: "client_event \<Rightarrow> client_session \<Rightarrow> client_session result option" where
  "client_step (C_write text) s = Some (Inr (client_write text s))"
| "client_step (C_run host port) s = Some (Inr (client_run host port s))"
| "client_step C_close s = Some (Inr (client_close s))"
| "client_step (C_posted text) s =
     (case cs_strand s of
        [] \<Rightarrow> None
      | t # rest \<Rightarrow> if t = text then Some (Inr (client_queue text (s \<lparr>cs_strand := rest\<rparr>))) else None)"
| "client_step (C_done p ec text) s =
     (if p \<in> set (cs_ops s) then
        Some (case p of
            Resolving \<Rightarrow> Inr (client_on_resolve ec (client_finish p s))
          | Connecting \<Rightarrow> Inr (client_on_connect ec (client_finish p s))
          | Handshaking \<Rightarrow> Inr (client_on_handshake ec text (client_finish p s))
          | Receiving \<Rightarrow> Inr (client_on_read ec text (client_finish p s))
          | Sending f \<Rightarrow> client_on_write ec (client_finish p s))
      else None)"

section \<open>The session as a writer\<close>

fun client_kind :: "client_event \<Rightarrow> write_event" where
  "client_kind (C_write f) = Called f"
| "client_kind (C_posted f) = Queued f"
| "client_kind (C_done (Sending f) None text) = Written f"
| "client_kind (C_done (Sending f) (Some c) text) = Write_failed f"
| "client_kind _ = Unrelated"

fun sends :: "client_operation list \<Rightarrow> string list" where
  "sends [] = []"
| "sends (Sending f # ps) = f # sends ps"
| "sends (_ # ps) = sends ps"

lemma sends_append [simp]: "sends (ps @ qs) = sends ps @ sends qs"
  by (induction ps rule: sends.induct) auto

lemma set_sends: "f \<in> set (sends ps) \<longleftrightarrow> Sending f \<in> set ps"
  by (induction ps rule: sends.induct) auto

lemma sends_remove1:
  "sends (remove1 p ps) = (case p of Sending f \<Rightarrow> remove1 f (sends ps) | _ \<Rightarrow> sends ps)"
  by (induction ps rule: sends.induct) (auto split: client_operation.splits simp: set_sends [symmetric])

definition client_in_flight :: "client_session \<Rightarrow> string list" where
  "client_in_flight s = sends (cs_ops s)"

lemmas client_defs = client_write_def client_queue_def client_on_write_def client_close_def client_run_def
  client_on_resolve_def client_on_connect_def client_on_handshake_def client_on_read_def client_do_read_def
  client_send_def client_start_def client_finish_def client_in_flight_def sends_remove1 Let_def

lemma client_kind_cases:
  "client_kind e = Called f \<longleftrightarrow> e = C_write f"
  "client_kind e = Queued f \<longleftrightarrow> e = C_posted f"
  "client_kind e = Written f \<longleftrightarrow> (\<exists>t. e = C_done (Sending f) None t)"
  "client_kind e = Write_failed f \<longleftrightarrow> (\<exists>c t. e = C_done (Sending f) (Some c) t)"
  "client_kind e = Unrelated \<longleftrightarrow> (\<exists>h p. e = C_run h p) \<or> e = C_close
     \<or> (\<exists>p ec t. e = C_done p ec t \<and> p \<in> {Resolving, Connecting, Handshaking, Receiving})"
  by (cases e rule: client_kind.cases; auto)+

interpretation cq: live_write_queue client_step client_kind cs_strand cs_que client_in_flight
  "\<lambda>f. C_done (Sending f) None []"
proof unfold_locales
  fix e s r f
  show "client_step e s = Some r \<Longrightarrow> client_kind e = Called f \<Longrightarrow>
      \<exists>s'. r = Inr s' \<and> cs_strand s' = cs_strand s @ [f] \<and> cs_que s' = cs_que s
        \<and> client_in_flight s' = client_in_flight s"
    by (auto simp: client_kind_cases client_defs)
  show "client_step e s = Some r \<Longrightarrow> client_kind e = Queued f \<Longrightarrow>
      \<exists>s'. r = Inr s' \<and> cs_strand s = f # cs_strand s' \<and> cs_que s' = cs_que s @ [f]
        \<and> client_in_flight s' = client_in_flight s @ (if cs_que s = [] then [f] else [])"
    by (auto simp: client_kind_cases client_defs split: list.splits if_splits)
  show "client_step e s = Some r \<Longrightarrow> client_kind e = Written f \<Longrightarrow> f \<in> set (client_in_flight s) \<and>
      (if cs_que s = [] then r = Inl Undefined
       else \<exists>s'. r = Inr s' \<and> cs_strand s' = cs_strand s \<and> cs_que s' = tl (cs_que s)
          \<and> client_in_flight s' = remove1 f (client_in_flight s) @ take 1 (tl (cs_que s)))"
    by (cases "cs_que s"; cases "tl (cs_que s)") (auto simp: client_kind_cases client_defs set_sends split: if_splits)
  show "client_step e s = Some r \<Longrightarrow> client_kind e = Write_failed f \<Longrightarrow> f \<in> set (client_in_flight s) \<and>
      (\<exists>s'. r = Inr s' \<and> cs_strand s' = cs_strand s \<and> cs_que s' = cs_que s
        \<and> client_in_flight s' = remove1 f (client_in_flight s))"
    by (auto simp: client_kind_cases client_defs set_sends split: if_splits)
  show "client_step e s = Some r \<Longrightarrow> client_kind e = Unrelated \<Longrightarrow>
      \<exists>s'. r = Inr s' \<and> cs_strand s' = cs_strand s \<and> cs_que s' = cs_que s
        \<and> client_in_flight s' = client_in_flight s"
    by (auto simp: client_kind_cases client_defs split: if_splits option.splits)
  show "client_kind (C_done (Sending f) None []) = Written f" by simp
  show "f \<in> set (client_in_flight s) \<Longrightarrow> client_step (C_done (Sending f) None []) s \<noteq> None"
    by (simp add: client_in_flight_def set_sends)
qed

lemma client_new_idle:
  "cs_strand (client_session_new i) = []" "cs_que (client_session_new i) = []"
  "client_in_flight (client_session_new i) = []"
  by (simp_all add: client_session_new_def client_in_flight_def)

text \<open>
  C23: once a write of the client has failed, no frame is ever written again, whatever
  happens next, also when the client is told to reconnect and connects: the frame that
  failed stays at the front of the queue, and every later frame is queued behind it.
\<close>

theorem failed_write_silences_client:
  assumes "run_events client_step (es @ C_done (Sending f) (Some c) t # later) (client_session_new i) = Some r"
  shows "\<exists>s. r = Inr s \<and> delivered (map client_kind later) = [] \<and> client_in_flight s = []
    \<and> called (map client_kind es) @ called (map client_kind later)
        = delivered (map client_kind es) @ cs_que s @ cs_strand s
    \<and> cs_que s \<noteq> []"
proof -
  obtain s where s: "r = Inr s" "called (map client_kind (es @ C_done (Sending f) (Some c) t # later))
      = delivered (map client_kind (es @ C_done (Sending f) (Some c) t # later)) @ cs_que s @ cs_strand s"
    using cq.frames_in_order [OF client_new_idle assms] by blast
  obtain s1 where s1: "run_events client_step es (client_session_new i) = Some (Inr s1)"
    "run_events client_step (C_done (Sending f) (Some c) t # later) s1 = Some r"
    using assms s(1) by (auto simp only: run_events_append split: option.splits sum.splits)
  have new: "cq.one_write (client_session_new i)" by (simp add: cq.one_write_def client_new_idle)
  from cq.run_one_write [OF new s1(1)] have one: "cq.one_write s1" by auto
  have "client_kind (C_done (Sending f) (Some c) t) = Write_failed f" by simp
  from cq.failed_write_silences [OF one s1(2) this] s(1)
  have quiet: "delivered (map client_kind later) = []" "client_in_flight s = []" by auto
  obtain s2 where s2: "client_step (C_done (Sending f) (Some c) t) s1 = Some (Inr s2)" "cq.silent s2"
    "run_events client_step later s2 = Some r"
  proof -
    from s1(2) obtain r2 where r2: "client_step (C_done (Sending f) (Some c) t) s1 = Some r2"
      "case r2 of Inl x \<Rightarrow> r = Inl x | Inr s2 \<Rightarrow> run_events client_step later s2 = Some r"
      by (auto simp only: run_events_Cons_Some)
    from cq.step_failed [OF r2(1), of f] one r2 that show ?thesis
      by (auto simp: cq.silent_def cq.one_write_def)
  qed
  from cq.silent_run [OF s2(2,3)] s(1) have "cs_que s \<noteq> []" by (auto simp: cq.silent_def)
  with s quiet show ?thesis by simp
qed

definition demo_client_events :: "client_event list" where
  "demo_client_events = [C_run ''h'' ''1'', C_write ''a'', C_posted ''a'']"

text \<open>A frame is written before the connection is there; then the client connects.\<close>

definition demo_client_later :: "client_event list" where
  "demo_client_later =
     [C_done Resolving None [], C_done Connecting None [], C_done Handshaking None [], C_write ''b'', C_posted ''b'']"

lemma failed_write_silences_client_witness:
  "\<exists>s. run_events client_step
        (demo_client_events @ C_done (Sending ''a'') (Some Not_connected) [] # demo_client_later)
        (client_session_new ''1'') = Some (Inr s)
    \<and> cs_que s = [''a'', ''b''] \<and> client_in_flight s = []
    \<and> (''handshake'', B_transport (T_ws ''1'' [])) \<in> set (cs_sent s)"
proof -
  have run: "run_events client_step
        (demo_client_events @ C_done (Sending ''a'') (Some Not_connected) [] # demo_client_later)
        (client_session_new ''1'') =
      Some (Inr \<lparr>cs_id = ''1'', cs_host = ''h'', cs_port = ''1'', cs_strand = [], cs_que = [''a'', ''b''],
        cs_ops = [Receiving], cs_closed = False, cs_sent = [(''handshake'', B_transport (T_ws ''1'' []))]\<rparr>)"
    by (simp add: demo_client_events_def demo_client_later_def client_session_new_def client_defs)
  from failed_write_silences_client [OF this] show ?thesis by (simp add: run)
qed

section \<open>The provider\<close>

record ws_client =
  cl_session :: client_session
  cl_closing_message :: string

definition ws_client_new :: "string \<Rightarrow> ws_client" where
  "ws_client_new now = \<lparr>cl_session = client_session_new now, cl_closing_message = []\<rparr>"

definition cl_write :: "body \<Rightarrow> ws_client \<Rightarrow> ws_client result" where
  "cl_write b c =
     bindE (bindE (body_transport b) as_ws) (\<lambda>(_, text).
     Inr (c \<lparr>cl_session := client_write text (cl_session c)\<rparr>))"

definition cl_reconnect :: "ws_client \<Rightarrow> ws_client" where
  "cl_reconnect c = c \<lparr>cl_session := client_run (cs_host (cl_session c)) (cs_port (cl_session c)) (cl_session c)\<rparr>"

definition cl_close :: "ws_client \<Rightarrow> ws_client" where
  "cl_close c = c \<lparr>cl_session := client_close (cl_session c)\<rparr>"

definition cl_set_closing_message :: "body \<Rightarrow> ws_client \<Rightarrow> ws_client result" where
  "cl_set_closing_message b c = bindE (body_string b) (\<lambda>text. Inr (c \<lparr>cl_closing_message := text\<rparr>))"

definition client_handle :: "string \<Rightarrow> body \<Rightarrow> ws_client \<Rightarrow> ws_client result" where
  "client_handle command b c =
     (if command = ''write'' then cl_write b c
      else if command = ''reconnect'' then Inr (cl_reconnect c)
      else if command = ''close'' then Inr (cl_close c)
      else if command = ''set_closing_message'' then cl_set_closing_message b c
      else Inr c)"

text \<open>\<open>ctx->config()["client"]["ip"].as<std::string>()\<close>, and the same for the port.\<close>

definition client_entry :: "string \<Rightarrow> json_map \<Rightarrow> (string \<times> json_map) result" where
  "client_entry k config =
     (let (client, config) = map_index ''client'' config in
      bindE (value_index k client) (\<lambda>(v, client).
      bindE (as_string v) (\<lambda>s. Inr (s, om_set ''client'' client config))))"

definition client_startup :: "json_map \<Rightarrow> ws_client \<Rightarrow> ws_client result" where
  "client_startup config c =
     bindE (client_entry ''ip'' config) (\<lambda>(ip, config).
     bindE (client_entry ''port'' config) (\<lambda>(port, config).
     Inr (c \<lparr>cl_session := client_run ip port (cl_session c)\<rparr>)))"

definition client_shutdown :: "ws_client \<Rightarrow> ws_client" where
  "client_shutdown c =
     (if cl_closing_message c = [] then cl_close c
      else c \<lparr>cl_session := client_write (cl_closing_message c) (cl_session c)\<rparr>)"

end
