(* ===== verification/Http_Server.thy ===== *)
theory Http_Server
  imports Write_Queue Service "HOL-Library.Sublist"
begin

text \<open>
  \<open>stream-providers/src/http\<close>: the answer to a request (\<open>listener.cpp\<close>), the sessions with
  their queue of responses (\<open>http_session.cpp\<close>), and the provider \<open>http\<close> (\<open>http_server.cpp\<close>).
  The file system, \<open>need_eof\<close> of boost.beast and the clock are parameters.
\<close>

section \<open>Paths and types\<close>

definition path_cat :: "string \<Rightarrow> string \<Rightarrow> string" where
  "path_cat base path =
     (if base = [] then path
      else
        let result = (if last base = CHR ''/'' then butlast base else base)
        in result @ path)"

definition ascii_lower :: "char \<Rightarrow> char" where
  "ascii_lower c = (if CHR ''A'' \<le> c \<and> c \<le> CHR ''Z'' then char_of (of_char c + 32 :: nat) else c)"

definition iequals :: "string \<Rightarrow> string \<Rightarrow> bool" where
  "iequals a b \<longleftrightarrow> map ascii_lower a = map ascii_lower b"

text \<open>From the last dot on, or nothing.\<close>

definition extension :: "string \<Rightarrow> string" where
  "extension path =
     (if CHR ''.'' \<in> set path
      then CHR ''.'' # rev (takeWhile (\<lambda>c. c \<noteq> CHR ''.'') (rev path))
      else [])"

definition mime_types :: "(string \<times> string) list" where
  "mime_types =
     [(''.htm'', ''text/html''), (''.html'', ''text/html''), (''.php'', ''text/html''),
      (''.css'', ''text/css''), (''.txt'', ''text/plain''), (''.js'', ''application/javascript''),
      (''.json'', ''application/json''), (''.xml'', ''application/xml''),
      (''.swf'', ''application/x-shockwave-flash''), (''.flv'', ''video/x-flv''),
      (''.png'', ''image/png''), (''.jpe'', ''image/jpeg''), (''.jpeg'', ''image/jpeg''),
      (''.jpg'', ''image/jpeg''), (''.gif'', ''image/gif''), (''.bmp'', ''image/bmp''),
      (''.ico'', ''image/vnd.microsoft.icon''), (''.tiff'', ''image/tiff''), (''.tif'', ''image/tiff''),
      (''.svg'', ''image/svg+xml''), (''.svgz'', ''image/svg+xml'')]"

definition mime_type :: "string \<Rightarrow> string" where
  "mime_type path =
     (case find (\<lambda>(e, t). iequals (extension path) e) mime_types of
        Some (_, t) \<Rightarrow> t
      | None \<Rightarrow> ''application/text'')"

section \<open>The answer to a request\<close>

record http_request =
  rq_verb :: string
  rq_target :: string
  rq_host :: "string option"
  rq_version :: nat
  rq_keep_alive :: bool

datatype response_body = Text string | Head_of nat | File string nat

record http_response =
  rs_status :: nat
  rs_version :: nat
  rs_type :: string
  rs_keep_alive :: bool
  rs_body :: response_body

datatype open_result = Opened nat | No_such_file | Open_error string

definition text_response :: "nat \<Rightarrow> string \<Rightarrow> http_request \<Rightarrow> http_response" where
  "text_response status text req =
     \<lparr>rs_status = status, rs_version = rq_version req, rs_type = ''text/html'',
      rs_keep_alive = rq_keep_alive req, rs_body = Text text\<rparr>"

definition bad_request :: "string \<Rightarrow> http_request \<Rightarrow> http_response" where
  "bad_request why req = text_response 400 why req"

definition not_found :: "string \<Rightarrow> http_request \<Rightarrow> http_response" where
  "not_found target req = text_response 404 (''The resource '' @ [CHR 39] @ target @ [CHR 39] @ '' was not found.'') req"

definition server_error :: "string \<Rightarrow> http_request \<Rightarrow> http_response" where
  "server_error what req = text_response 500 (''An error occurred: '' @ [CHR 39] @ what @ [CHR 39]) req"

text \<open>The directory of a host: \<open>manager.\<close> has one of its own.\<close>

definition root_path :: "string \<Rightarrow> string \<Rightarrow> string" where
  "root_path doc_root host =
     (if CHR ''.'' \<notin> set host then doc_root
      else
        let sub_domain = takeWhile (\<lambda>c. c \<noteq> CHR ''.'') host
        in if sub_domain = ''manager'' then doc_root @ ''/'' @ sub_domain else doc_root)"

definition file_path :: "string \<Rightarrow> string \<Rightarrow> string" where
  "file_path dir target =
     (if mime_type target = ''application/text'' then path_cat dir ''/index.html'' else path_cat dir target)"

text \<open>
  \<open>req.at(http::field::host)\<close> raises when the request has no such field. The response to
  \<open>HEAD\<close> has the size of the file, the one to \<open>GET\<close> the file.
\<close>

definition http_respond :: "(string \<Rightarrow> open_result) \<Rightarrow> string \<Rightarrow> http_request \<Rightarrow> http_response result" where
  "http_respond fs doc_root req =
     (let target = rq_target req in
      if rq_verb req \<noteq> ''GET'' \<and> rq_verb req \<noteq> ''HEAD'' then Inr (bad_request ''Unknown HTTP-method'' req)
      else if target = [] \<or> hd target \<noteq> CHR ''/'' \<or> sublist ''..'' target
        then Inr (bad_request ''Illegal request-target'' req)
      else case rq_host req of
          None \<Rightarrow> Inl Out_of_range
        | Some host \<Rightarrow>
            (let path = file_path (root_path doc_root host) target in
             case fs path of
               No_such_file \<Rightarrow> Inr (not_found target req)
             | Open_error message \<Rightarrow> Inr (server_error message req)
             | Opened n \<Rightarrow>
                 Inr \<lparr>rs_status = 200, rs_version = rq_version req, rs_type = mime_type path,
                   rs_keep_alive = rq_keep_alive req,
                   rs_body = (if rq_verb req = ''HEAD'' then Head_of n else File path n)\<rparr>))"

lemma path_cat_below:
  "dir \<noteq> [] \<Longrightarrow> path_cat dir path = (if last dir = CHR ''/'' then butlast dir else dir) @ path"
  by (simp add: path_cat_def)

lemma root_path_cases: "root_path doc_root host \<in> {doc_root, doc_root @ ''/manager''}"
  by (auto simp: root_path_def Let_def)

definition directory :: "string \<Rightarrow> string" where
  "directory dir = (if last dir = CHR ''/'' then butlast dir else dir)"

text \<open>
  C27: a file that is served lies in the directory of the documents or in its directory
  \<open>manager\<close>: its path is that directory followed by a path that begins with a slash and
  has no \<open>..\<close>; it was opened under just this path, and the size and the type in the
  response are its own.
\<close>

theorem served_below_root:
  assumes "http_respond fs doc_root req = Inr r" "rs_body r = File path n" "doc_root \<noteq> []"
  shows "fs path = Opened n \<and> rs_type r = mime_type path \<and> rq_verb req = ''GET''
    \<and> (\<exists>dir rest. dir \<in> {directory doc_root, doc_root @ ''/manager''}
        \<and> path = dir @ CHR ''/'' # rest \<and> \<not> sublist ''..'' (CHR ''/'' # rest))"
proof -
  let ?t = "rq_target req"
  obtain host where t: "?t \<noteq> []" "hd ?t = CHR ''/''" "\<not> sublist ''..'' ?t" and
    path: "path = file_path (root_path doc_root host) ?t" and
    rest: "fs path = Opened n" "rs_type r = mime_type path" "rq_verb req = ''GET''"
    using assms(1,2)
    by (auto simp: http_respond_def Let_def bad_request_def text_response_def not_found_def server_error_def
        split: if_splits option.splits open_result.splits)
  obtain tail where tail: "?t = CHR ''/'' # tail" using t(1,2) by (cases ?t) auto
  have index: "\<not> sublist ''..'' ''/index.html''" by code_simp
  obtain more where more: "path = path_cat (root_path doc_root host) (CHR ''/'' # more)" "\<not> sublist ''..'' (CHR ''/'' # more)"
    using path index t(3) tail by (auto simp: file_path_def split: if_splits)
  have dir: "root_path doc_root host \<noteq> []" "directory (root_path doc_root host) \<in> {directory doc_root, doc_root @ ''/manager''}"
    using root_path_cases [of doc_root host] assms(3) by (auto simp: directory_def)
  from more(1) path_cat_below [OF dir(1), of "CHR ''/'' # more"]
  have "path = directory (root_path doc_root host) @ CHR ''/'' # more" by (simp add: directory_def)
  with more(2) dir(2) rest show ?thesis by blast
qed

definition demo_request :: http_request where
  "demo_request = \<lparr>rq_verb = ''GET'', rq_target = ''/a.css'', rq_host = Some ''manager.local'', rq_version = 11,
     rq_keep_alive = True\<rparr>"

lemma served_below_root_witness:
  "\<exists>r. http_respond (\<lambda>p. if p = ''www/manager/a.css'' then Opened 5 else No_such_file) ''www'' demo_request = Inr r
    \<and> rs_body r = File ''www/manager/a.css'' 5 \<and> rs_type r = ''text/css''"
proof -
  define r where "r = \<lparr>rs_status = 200, rs_version = 11, rs_type = ''text/css'', rs_keep_alive = True,
    rs_body = File ''www/manager/a.css'' 5\<rparr>"
  have mime: "mime_type ''/a.css'' = ''text/css''" "mime_type ''www/manager/a.css'' = ''text/css''" by code_simp+
  have up: "\<not> sublist ''..'' ''/a.css''" by code_simp
  have "http_respond (\<lambda>p. if p = ''www/manager/a.css'' then Opened 5 else No_such_file) ''www'' demo_request = Inr r"
    using mime up
    by (simp add: http_respond_def demo_request_def r_def root_path_def file_path_def path_cat_def)
  from served_below_root [OF this] this show ?thesis by (simp add: r_def mime)
qed

text \<open>
  A request for a legal target without the field \<open>Host\<close> is not answered: the look-up
  raises, out of the handler of the read and so out of the loop of the process.
\<close>

lemma respond_without_host:
  assumes "rq_verb req \<in> {''GET'', ''HEAD''}" "rq_target req = CHR ''/'' # rest"
    "\<not> sublist ''..'' (rq_target req)" "rq_host req = None"
  shows "http_respond fs doc_root req = Inl Out_of_range"
  using assms by (auto simp: http_respond_def)

section \<open>A session\<close>

text \<open>
  \<open>items_\<close> of the queue are \<open>hs_items\<close>, the responses that are not written yet; \<open>hs_ops\<close>: the
  operations that have not completed; \<open>limit\<close> is 8.
\<close>

datatype http_operation = Http_timer | Http_read | Http_write http_response

record http_session =
  hs_items :: "http_response list"
  hs_ops :: "http_operation list"
  hs_open :: bool

definition http_session_new :: http_session where
  "http_session_new = \<lparr>hs_items = [], hs_ops = [], hs_open = True\<rparr>"

definition queue_limit :: nat where
  "queue_limit = 8"

definition queue_is_full :: "http_session \<Rightarrow> bool" where
  "queue_is_full s \<longleftrightarrow> length (hs_items s) \<ge> queue_limit"

definition http_start :: "http_operation \<Rightarrow> http_session \<Rightarrow> http_session" where
  "http_start p s = s \<lparr>hs_ops := hs_ops s @ [p]\<rparr>"

definition queue_send :: "http_response \<Rightarrow> http_session \<Rightarrow> http_session" where
  "queue_send r s =
     (let s = s \<lparr>hs_items := hs_items s @ [r]\<rparr>
      in if length (hs_items s) = 1 then http_start (Http_write (hd (hs_items s))) s else s)"

text \<open>\<open>BOOST_ASSERT(!items_.empty())\<close>, and then an \<open>erase\<close> of the first element.\<close>

definition queue_on_write :: "http_session \<Rightarrow> (bool \<times> http_session) result" where
  "queue_on_write s =
     (let was_full = queue_is_full s in
      case hs_items s of
        [] \<Rightarrow> Inl Undefined
      | _ # rest \<Rightarrow>
          (let s = s \<lparr>hs_items := rest\<rparr>
           in Inr (was_full, if rest \<noteq> [] then http_start (Http_write (hd rest)) s else s)))"

definition http_do_read :: "http_session \<Rightarrow> http_session" where
  "http_do_read s = http_start Http_read s"

definition http_do_close :: "http_session \<Rightarrow> http_session" where
  "http_do_close s = s \<lparr>hs_open := False\<rparr>"

text \<open>The deadline is moved by every read; \<open>expired\<close> is what the clock says.\<close>

definition http_on_timer :: "net_error option \<Rightarrow> bool \<Rightarrow> http_session \<Rightarrow> http_session" where
  "http_on_timer ec expired s =
     (if ec \<noteq> None \<and> ec \<noteq> Some Operation_aborted then s
      else if expired then s \<lparr>hs_open := False\<rparr>
      else http_start Http_timer s)"

definition http_run :: "bool \<Rightarrow> http_session \<Rightarrow> http_session" where
  "http_run expired s = http_do_read (http_on_timer None expired s)"

text \<open>
  The answer is a function of the request that may raise. \<open>end_of_stream\<close> is the error of
  boost.beast for a connection that the peer has closed.
\<close>

definition end_of_stream :: net_error where
  "end_of_stream = Other_error ''end of stream''"

definition http_on_read ::
    "(http_request \<Rightarrow> http_response result) \<Rightarrow> net_error option \<Rightarrow> http_request \<Rightarrow> http_session \<Rightarrow> http_session result" where
  "http_on_read serve ec req s =
     (if ec = Some Operation_aborted then Inr s
      else if ec = Some end_of_stream then Inr (http_do_close s)
      else if ec \<noteq> None then Inr s
      else
        bindE (serve req) (\<lambda>r.
        let s = queue_send r s
        in Inr (if \<not> queue_is_full s then http_do_read s else s)))"

definition http_on_write :: "net_error option \<Rightarrow> bool \<Rightarrow> http_session \<Rightarrow> http_session result" where
  "http_on_write ec close s =
     (if ec \<noteq> None then Inr s
      else if close then Inr (http_do_close s)
      else bindE (queue_on_write s) (\<lambda>(was_full, s). Inr (if was_full then http_do_read s else s)))"

datatype http_event =
    Timer_done "net_error option" bool
  | Read_done "net_error option" http_request
  | Write_done "net_error option" http_response

definition http_finish :: "http_operation \<Rightarrow> http_session \<Rightarrow> http_session" where
  "http_finish p s = s \<lparr>hs_ops := remove1 p (hs_ops s)\<rparr>"

fun http_step ::
    "(http_request \<Rightarrow> http_response result) \<Rightarrow> (http_response \<Rightarrow> bool) \<Rightarrow> http_event \<Rightarrow> http_session
      \<Rightarrow> http_session result option" where
  "http_step serve need_eof (Timer_done ec expired) s =
     (if Http_timer \<in> set (hs_ops s) then Some (Inr (http_on_timer ec expired (http_finish Http_timer s))) else None)"
| "http_step serve need_eof (Read_done ec req) s =
     (if Http_read \<in> set (hs_ops s) then Some (http_on_read serve ec req (http_finish Http_read s)) else None)"
| "http_step serve need_eof (Write_done ec r) s =
     (if Http_write r \<in> set (hs_ops s)
      then Some (http_on_write ec (need_eof r) (http_finish (Http_write r) s)) else None)"

section \<open>Pipelining is bounded\<close>

fun http_writes :: "http_operation list \<Rightarrow> http_response list" where
  "http_writes [] = []"
| "http_writes (Http_write r # ps) = r # http_writes ps"
| "http_writes (_ # ps) = http_writes ps"

fun http_reads :: "http_operation list \<Rightarrow> nat" where
  "http_reads [] = 0"
| "http_reads (Http_read # ps) = Suc (http_reads ps)"
| "http_reads (_ # ps) = http_reads ps"

lemma http_ops_append [simp]:
  "http_writes (ps @ qs) = http_writes ps @ http_writes qs"
  "http_reads (ps @ qs) = http_reads ps + http_reads qs"
  by (induction ps rule: http_writes.induct) auto

lemma set_http_writes: "r \<in> set (http_writes ps) \<longleftrightarrow> Http_write r \<in> set ps"
  by (induction ps rule: http_writes.induct) auto

lemma http_reads_pos: "0 < http_reads ps \<longleftrightarrow> Http_read \<in> set ps"
  by (induction ps rule: http_reads.induct) auto

lemma http_writes_remove1:
  "http_writes (remove1 p ps) = (case p of Http_write r \<Rightarrow> remove1 r (http_writes ps) | _ \<Rightarrow> http_writes ps)"
  by (induction ps rule: http_writes.induct) (auto split: http_operation.splits simp: set_http_writes [symmetric])

lemma http_reads_remove1:
  "http_reads (remove1 p ps) = (if p = Http_read \<and> p \<in> set ps then http_reads ps - 1 else http_reads ps)"
  by (induction ps rule: http_reads.induct) (auto simp: http_reads_pos [symmetric])

definition http_inv :: "http_session \<Rightarrow> bool" where
  "http_inv s \<longleftrightarrow> length (hs_items s) \<le> queue_limit
     \<and> (http_writes (hs_ops s) = [] \<or> hs_items s \<noteq> [] \<and> http_writes (hs_ops s) = [hd (hs_items s)])
     \<and> http_reads (hs_ops s) \<le> (if queue_is_full s then 0 else 1)"

lemmas http_defs = http_on_timer_def http_on_read_def http_on_write_def http_do_close_def http_do_read_def
  http_start_def http_finish_def queue_send_def queue_on_write_def queue_is_full_def Let_def
  http_writes_remove1 http_reads_remove1

text \<open>The responses an event adds to the queue, and those it takes from it.\<close>

fun answered :: "(http_request \<Rightarrow> http_response result) \<Rightarrow> http_event list \<Rightarrow> http_response list" where
  "answered serve [] = []"
| "answered serve (Read_done None req # es) =
     (case serve req of Inr r \<Rightarrow> r # answered serve es | Inl x \<Rightarrow> answered serve es)"
| "answered serve (_ # es) = answered serve es"

fun written :: "(http_response \<Rightarrow> bool) \<Rightarrow> http_event list \<Rightarrow> http_response list" where
  "written need_eof [] = []"
| "written need_eof (Write_done None r # es) =
     (if need_eof r then written need_eof es else r # written need_eof es)"
| "written need_eof (_ # es) = written need_eof es"

lemma http_step_inv:
  assumes "http_inv s" "http_step serve need_eof e s = Some r"
  shows "(\<exists>s'. r = Inr s' \<and> http_inv s'
      \<and> hs_items s @ answered serve [e] = written need_eof [e] @ hs_items s')
    \<or> (\<exists>x req. r = Inl x \<and> e = Read_done None req \<and> serve req = Inl x)"
proof (cases e)
  case (Timer_done ec expired)
  with assms(2) have r: "r = Inr (http_on_timer ec expired (http_finish Http_timer s))"
    by (simp split: if_splits)
  have "http_inv (http_on_timer ec expired (http_finish Http_timer s))"
    "hs_items (http_on_timer ec expired (http_finish Http_timer s)) = hs_items s"
    using assms(1) by (auto simp: http_inv_def http_defs)
  with Timer_done r show ?thesis by simp
next
  case (Read_done ec req)
  have room: "length (hs_items s) < queue_limit" "http_reads (hs_ops s) = 1" "Http_read \<in> set (hs_ops s)"
    and r: "r = http_on_read serve ec req (http_finish Http_read s)"
    using assms Read_done http_reads_pos [of "hs_ops s"]
    by (auto simp: http_inv_def queue_is_full_def split: if_splits)
  show ?thesis
  proof (cases ec)
    case (Some c)
    with assms(1) Read_done r room show ?thesis
      by (intro disjI1) (auto simp: http_inv_def http_defs split: if_splits)
  next
    case None
    show ?thesis
    proof (cases "serve req")
      case (Inl x)
      with None r have "r = Inl x" by (simp add: http_on_read_def)
      with Inl Read_done None show ?thesis by blast
    next
      case (Inr rs)
      with None assms(1) Read_done r room show ?thesis
        by (intro disjI1, cases "hs_items s") (auto simp: http_inv_def http_defs)
    qed
  qed
next
  case (Write_done ec rs)
  have rs: "hs_items s \<noteq> []" "http_writes (hs_ops s) = [rs]" "hd (hs_items s) = rs"
    and r: "r = http_on_write ec (need_eof rs) (http_finish (Http_write rs) s)"
    using assms Write_done set_http_writes [of rs "hs_ops s"] by (auto simp: http_inv_def split: if_splits)
  obtain rest where items: "hs_items s = rs # rest" using rs(1,3) by (cases "hs_items s") auto
  with assms(1) Write_done r rs(2) show ?thesis
    by (intro disjI1, cases ec; cases rest) (auto simp: http_inv_def http_defs)
qed

lemma answered_Cons: "answered serve (e # es) = answered serve [e] @ answered serve es"
  by (cases "(serve, [e])" rule: answered.cases) (auto split: sum.splits)

lemma written_Cons: "written need_eof (e # es) = written need_eof [e] @ written need_eof es"
  by (cases "(need_eof, [e])" rule: written.cases) auto

lemma http_run_inv:
  assumes "http_inv s" "run_events (http_step serve need_eof) es s = Some r"
  shows "(\<exists>s'. r = Inr s' \<and> http_inv s'
      \<and> hs_items s @ answered serve es = written need_eof es @ hs_items s')
    \<or> (\<exists>x req. r = Inl x \<and> Read_done None req \<in> set es \<and> serve req = Inl x)"
  using assms
proof (induction es arbitrary: s)
  case Nil
  then show ?case by auto
next
  case (Cons e es)
  from Cons.prems(2) obtain r1 where r1: "http_step serve need_eof e s = Some r1"
    "case r1 of Inl x \<Rightarrow> r = Inl x | Inr s1 \<Rightarrow> run_events (http_step serve need_eof) es s1 = Some r"
    by (auto simp only: run_events_Cons_Some)
  show ?case
  proof (cases r1)
    case (Inl x)
    with r1 http_step_inv [OF Cons.prems(1) r1(1)] show ?thesis by auto
  next
    case (Inr s1)
    with http_step_inv [OF Cons.prems(1) r1(1)] have s1: "http_inv s1"
      "hs_items s @ answered serve [e] = written need_eof [e] @ hs_items s1" by auto
    from Cons.IH [OF s1(1)] r1(2) Inr show ?thesis
      using s1(2) by (auto simp: answered_Cons [of serve e es] written_Cons [of need_eof e es])
        (metis append.assoc)
  qed
qed

lemma http_start_inv: "http_inv (http_run False http_session_new)"
  by (simp add: http_inv_def http_run_def http_session_new_def queue_limit_def http_defs)

text \<open>
  C26: as long as no request makes its handler raise, a session never queues more than eight
  responses, has at most one write and one read under way, and reads only while there is room
  in the queue; the responses are written in the order of the requests, and none is lost: those
  not yet written are in the queue. The only exception that ends a run is one of the handler,
  for a request that was read: the assertion of \<open>on_write\<close> never fails.
\<close>

theorem pipeline_bounded:
  assumes "run_events (http_step serve need_eof) es (http_run False http_session_new) = Some r"
  shows "case r of
      Inr s \<Rightarrow> length (hs_items s) \<le> 8 \<and> length (http_writes (hs_ops s)) \<le> 1
        \<and> http_reads (hs_ops s) \<le> (if length (hs_items s) \<ge> 8 then 0 else 1)
        \<and> answered serve es = written need_eof es @ hs_items s
    | Inl x \<Rightarrow> \<exists>req. Read_done None req \<in> set es \<and> serve req = Inl x"
proof -
  have "hs_items (http_run False http_session_new) = []"
    by (simp add: http_run_def http_session_new_def http_defs)
  with http_run_inv [OF http_start_inv assms] show ?thesis
    by (auto simp: http_inv_def queue_is_full_def queue_limit_def)
qed

text \<open>The handler of the repository, for a file that is found and one that is not.\<close>

definition demo_serve :: "http_request \<Rightarrow> http_response result" where
  "demo_serve = http_respond (\<lambda>p. if p = ''www/manager/a.css'' then Opened 5 else No_such_file) ''www''"

definition demo_response :: http_response where
  "demo_response = \<lparr>rs_status = 200, rs_version = 11, rs_type = ''text/css'', rs_keep_alive = True,
     rs_body = File ''www/manager/a.css'' 5\<rparr>"

definition demo_pipeline :: "http_event list" where
  "demo_pipeline = [Read_done None demo_request, Read_done None (demo_request\<lparr>rq_verb := ''PUT''\<rparr>),
     Write_done None demo_response]"

lemma demo_served:
  "demo_serve demo_request = Inr demo_response"
  "demo_serve (demo_request\<lparr>rq_verb := ''PUT''\<rparr>) =
     Inr (bad_request ''Unknown HTTP-method'' (demo_request\<lparr>rq_verb := ''PUT''\<rparr>))"
proof -
  have "mime_type ''/a.css'' = ''text/css''" "mime_type ''www/manager/a.css'' = ''text/css''"
    "\<not> sublist ''..'' ''/a.css''" by code_simp+
  then show "demo_serve demo_request = Inr demo_response"
    by (simp add: demo_serve_def http_respond_def demo_request_def demo_response_def root_path_def file_path_def path_cat_def)
qed (simp add: demo_serve_def http_respond_def)

lemma pipeline_bounded_witness:
  "\<exists>s. run_events (http_step demo_serve (\<lambda>_. False)) demo_pipeline (http_run False http_session_new) = Some (Inr s)
    \<and> length (hs_items s) \<le> 8 \<and> length (http_writes (hs_ops s)) \<le> 1
    \<and> http_reads (hs_ops s) \<le> (if length (hs_items s) \<ge> 8 then 0 else 1)
    \<and> answered demo_serve demo_pipeline = written (\<lambda>_. False) demo_pipeline @ hs_items s"
proof -
  have run: "run_events (http_step demo_serve (\<lambda>_. False)) demo_pipeline (http_run False http_session_new) =
      Some (Inr \<lparr>hs_items = [bad_request ''Unknown HTTP-method'' (demo_request\<lparr>rq_verb := ''PUT''\<rparr>)],
        hs_ops = [Http_timer, Http_read, Http_write (bad_request ''Unknown HTTP-method'' (demo_request\<lparr>rq_verb := ''PUT''\<rparr>))],
        hs_open = True\<rparr>)"
    by (simp add: demo_pipeline_def http_run_def http_session_new_def http_defs demo_served queue_limit_def)
  from pipeline_bounded [OF run] show ?thesis unfolding run by auto
qed

text \<open>
  One request without the field \<open>Host\<close> ends the loop of the process, whatever the
  session has done before: its answer raises, and the handler of the read lets it out.
\<close>

lemma request_without_host_raises:
  assumes "rq_verb req \<in> {''GET'', ''HEAD''}" "rq_target req = CHR ''/'' # rest"
    "\<not> sublist ''..'' (rq_target req)" "rq_host req = None" "Http_read \<in> set (hs_ops s)"
  shows "http_step (http_respond fs doc_root) need_eof (Read_done None req) s = Some (Inl Out_of_range)"
  using assms by (simp add: http_on_read_def respond_without_host [OF assms(1-4)])

lemma request_without_host_raises_witness:
  "http_step (http_respond (\<lambda>_. No_such_file) ''www'') (\<lambda>_. False)
      (Read_done None (demo_request \<lparr>rq_host := None\<rparr>)) (http_run False http_session_new) = Some (Inl Out_of_range)"
proof (rule request_without_host_raises)
  show "\<not> sublist ''..'' (rq_target (demo_request \<lparr>rq_host := None\<rparr>))" by code_simp
qed (simp_all add: demo_request_def http_run_def http_session_new_def http_defs)

section \<open>The listener and the provider\<close>

record http_listener =
  hl_open :: bool
  hl_accepts :: nat
  hl_trusted :: "string list"
  hl_doc_root :: string

definition http_listener_new :: "bool \<Rightarrow> string \<Rightarrow> http_listener" where
  "http_listener_new is_open doc_root =
     \<lparr>hl_open = is_open, hl_accepts = 0, hl_trusted = [], hl_doc_root = doc_root\<rparr>"

definition http_do_accept :: "http_listener \<Rightarrow> http_listener" where
  "http_do_accept l = l \<lparr>hl_accepts := hl_accepts l + 1\<rparr>"

definition http_listener_run :: "http_listener \<Rightarrow> http_listener" where
  "http_listener_run l = (if \<not> hl_open l then l else http_do_accept l)"

text \<open>The session that is started, if the accept did not fail, and the next accept.\<close>

definition http_on_accept :: "net_error option \<Rightarrow> bool \<Rightarrow> http_listener \<Rightarrow> http_session option \<times> http_listener" where
  "http_on_accept ec expired l =
     (if ec \<noteq> None then None else Some (http_run expired http_session_new),
      http_do_accept (l \<lparr>hl_accepts := hl_accepts l - 1\<rparr>))"

definition add_trusted_url :: "string \<Rightarrow> http_listener \<Rightarrow> http_listener" where
  "add_trusted_url name l = l \<lparr>hl_trusted := us_emplace name (hl_trusted l)\<rparr>"

definition remove_trusted_url :: "string \<Rightarrow> http_listener \<Rightarrow> http_listener" where
  "remove_trusted_url name l = l \<lparr>hl_trusted := us_erase name (hl_trusted l)\<rparr>"

text \<open>The first character is skipped without a look at the length.\<close>

definition check_url :: "string \<Rightarrow> http_listener \<Rightarrow> bool result" where
  "check_url url l = (case url of [] \<Rightarrow> Inl Undefined | _ # name \<Rightarrow> Inr (name \<in> set (hl_trusted l)))"

text \<open>\<open>print\<close> writes the name of the transport to the console; \<open>write\<close> and \<open>close\<close> do nothing.\<close>

definition http_handle :: "string \<Rightarrow> body \<Rightarrow> http_listener \<Rightarrow> http_listener result" where
  "http_handle command b l =
     (if command = ''print'' then bindE (body_transport b) (\<lambda>_. Inr l)
      else if command = ''add_trusted_url'' then bindE (body_string b) (\<lambda>name. Inr (add_trusted_url name l))
      else if command = ''remove_trusted_url'' then bindE (body_string b) (\<lambda>name. Inr (remove_trusted_url name l))
      else Inr l)"

text \<open>The trusted urls after any sequence of messages are those added last and not removed since.\<close>

fun trusted_after :: "string \<Rightarrow> (string \<times> body) list \<Rightarrow> bool \<Rightarrow> bool" where
  "trusted_after name [] t = t"
| "trusted_after name ((command, b) # ms) t =
     trusted_after name ms
       (if b = B_string name \<and> command = ''add_trusted_url'' then True
        else if b = B_string name \<and> command = ''remove_trusted_url'' then False else t)"

fun http_messages :: "(string \<times> body) list \<Rightarrow> http_listener \<Rightarrow> http_listener result" where
  "http_messages [] l = Inr l"
| "http_messages ((command, b) # ms) l = bindE (http_handle command b l) (http_messages ms)"

lemma trusted_urls:
  "http_messages ms l = Inr l' \<Longrightarrow>
     check_url (c # name) l' = Inr (trusted_after name ms (name \<in> set (hl_trusted l)))"
proof (induction ms arbitrary: l)
  case Nil
  then show ?case by (simp add: check_url_def)
next
  case (Cons m ms)
  obtain command b where m: "m = (command, b)" by fastforce
  with Cons.prems obtain l1 where l1: "http_handle command b l = Inr l1" "http_messages ms l1 = Inr l'"
    by (auto simp: bindE_Inr_iff)
  have "name \<in> set (hl_trusted l1) \<longleftrightarrow>
      (if b = B_string name \<and> command = ''add_trusted_url'' then True
       else if b = B_string name \<and> command = ''remove_trusted_url'' then False else name \<in> set (hl_trusted l))"
    using l1(1) by (cases b) (auto simp: http_handle_def add_trusted_url_def remove_trusted_url_def
        us_emplace_def us_erase_def split: if_splits)
  with Cons.IH [OF l1(2)] m show ?case by simp
qed

end
