(* ===== verification/Http_Websocket.thy ===== *)
theory Http_Websocket
  imports Prelude
begin

text \<open>
  \<open>stream-providers/src/http/websocket_session.cpp\<close>: the web socket session of the http
  server, which echoes the frames it reads and keeps the connection alive with a timer and
  pings. The http session that would hand a connection over to it answers every request
  itself, so that no program starts one; the class is compiled into the provider.
  \<open>boost::beast\<close> and the clock are outside: their completions are the events of the model.
\<close>

section \<open>The session\<close>

text \<open>
  A wait on the timer is pending; fired, with its handler queued; or cancelled by a new
  expiry, with its handler queued and the error \<open>operation_aborted\<close>. A wait that has fired
  is not cancelled any more.
\<close>

datatype wait = Pending | Fired | Cancelled

datatype completion = Done | Aborted | Closed_by_peer | Failed

text \<open>
  The operations under way: the one of the chain accept, read, write, read; the pings; the
  waits. \<open>expiry\<close> is \<open>None\<close> for \<open>time_point::max\<close>; times are seconds.
\<close>

datatype chain = Idle_chain | Accepting | Reading_frame | Writing_frame string

record echo_session =
  ping_state :: nat
  ws_open :: bool
  socket_closed :: bool
  expiry :: "nat option"
  buffer :: string
  chain :: chain
  pings :: nat
  waits :: "wait list"

definition expires_after :: "nat \<Rightarrow> nat \<Rightarrow> echo_session \<Rightarrow> echo_session" where
  "expires_after now d s =
     s\<lparr>expiry := Some (now + d), waits := map (\<lambda>w. if w = Pending then Cancelled else w) (waits s)\<rparr>"

definition async_wait :: "echo_session \<Rightarrow> echo_session" where
  "async_wait s = s\<lparr>waits := waits s @ [Pending]\<rparr>"

definition expired :: "nat \<Rightarrow> echo_session \<Rightarrow> bool" where
  "expired now s \<longleftrightarrow> (case expiry s of None \<Rightarrow> False | Some t \<Rightarrow> t \<le> now)"

definition on_timer :: "completion \<Rightarrow> nat \<Rightarrow> echo_session \<Rightarrow> echo_session" where
  "on_timer ec now s =
     (if ec \<noteq> Done \<and> ec \<noteq> Aborted then s
      else if expired now s then
        (if ws_open s \<and> ping_state s = 0
         then (let s = expires_after now 15 (s\<lparr>ping_state := 1\<rparr>) in async_wait (s\<lparr>pings := pings s + 1\<rparr>))
         else s\<lparr>ws_open := False, socket_closed := True\<rparr>)
      else async_wait s)"

definition activity :: "nat \<Rightarrow> echo_session \<Rightarrow> echo_session" where
  "activity now s = expires_after now 15 (s\<lparr>ping_state := 0\<rparr>)"

definition new_session :: echo_session where
  "new_session = \<lparr>ping_state = 0, ws_open = False, socket_closed = False, expiry = None, buffer = [],
     chain = Idle_chain, pings = 0, waits = []\<rparr>"

definition do_accept :: "nat \<Rightarrow> echo_session \<Rightarrow> echo_session" where
  "do_accept now s = (expires_after now 15 (on_timer Done now s))\<lparr>chain := Accepting\<rparr>"

definition do_read :: "echo_session \<Rightarrow> echo_session" where
  "do_read s = s\<lparr>chain := Reading_frame\<rparr>"

definition on_accept :: "completion \<Rightarrow> echo_session \<Rightarrow> echo_session" where
  "on_accept ec s = (if ec = Done then do_read (s\<lparr>ws_open := True\<rparr>) else s\<lparr>chain := Idle_chain\<rparr>)"

text \<open>The assertion of \<open>on_ping\<close>: \<open>None\<close> is an aborted program, with assertions compiled in.\<close>

definition on_ping :: "completion \<Rightarrow> echo_session \<Rightarrow> echo_session option" where
  "on_ping ec s =
     (if ec \<noteq> Done then Some s
      else if ping_state s = 1 then Some (s\<lparr>ping_state := 2\<rparr>)
      else if ping_state s = 0 then Some s else None)"

definition on_control_callback :: "nat \<Rightarrow> echo_session \<Rightarrow> echo_session" where
  "on_control_callback now s = activity now s"

definition on_read :: "completion \<Rightarrow> string \<Rightarrow> nat \<Rightarrow> echo_session \<Rightarrow> echo_session" where
  "on_read ec frame now s =
     (if ec = Done
      then (let s = activity now (s\<lparr>buffer := buffer s @ frame\<rparr>) in s\<lparr>chain := Writing_frame (buffer s)\<rparr>)
      else s\<lparr>chain := Idle_chain\<rparr>)"

definition on_write :: "completion \<Rightarrow> echo_session \<Rightarrow> echo_session" where
  "on_write ec s = (if ec = Done then do_read (s\<lparr>buffer := []\<rparr>) else s\<lparr>chain := Idle_chain\<rparr>)"

section \<open>Events\<close>

text \<open>
  The clock goes on; a wait fires or its handler runs; an operation completes; a control
  frame comes in while the session reads. On a socket that was closed nothing completes
  without an error. The state of the model is the time, the session, and the time at which
  the peer was last heard of, which the code does not keep.
\<close>

datatype echo_event =
    Tick
  | Timer_fires
  | Timer_handled
  | Timer_fails
  | Accept_done completion
  | Ping_done completion
  | Control_frame
  | Read_done completion string
  | Write_done completion

type_synonym echo_state = "nat \<times> echo_session \<times> nat"

definition may_complete :: "completion \<Rightarrow> echo_session \<Rightarrow> bool" where
  "may_complete ec s \<longleftrightarrow> (socket_closed s \<longrightarrow> ec \<noteq> Done)"

text \<open>\<open>is_open\<close> of the library is false once an operation failed or the peer closed.\<close>

definition after_completion :: "completion \<Rightarrow> echo_session \<Rightarrow> echo_session" where
  "after_completion ec s = (if ec = Done then s else s\<lparr>ws_open := False\<rparr>)"

text \<open>An event that is not enabled gives \<open>None\<close>, one that aborts the program \<open>Some None\<close>.\<close>

fun echo_step :: "echo_event \<Rightarrow> echo_state \<Rightarrow> echo_state option option" where
  "echo_step Tick (now, s, heard) = Some (Some (now + 1, s, heard))"
| "echo_step Timer_fires (now, s, heard) =
     (case waits s of
        Pending # ws \<Rightarrow> if expired now s then Some (Some (now, s\<lparr>waits := Fired # ws\<rparr>, heard)) else None
      | _ \<Rightarrow> None)"
| "echo_step Timer_handled (now, s, heard) =
     (case waits s of
        Fired # ws \<Rightarrow> Some (Some (now, on_timer Done now (s\<lparr>waits := ws\<rparr>), heard))
      | Cancelled # ws \<Rightarrow> Some (Some (now, on_timer Aborted now (s\<lparr>waits := ws\<rparr>), heard))
      | _ \<Rightarrow> None)"
| "echo_step Timer_fails (now, s, heard) =
     (case waits s of
        Pending # ws \<Rightarrow> Some (Some (now, on_timer Failed now (s\<lparr>waits := ws\<rparr>), heard))
      | _ \<Rightarrow> None)"
| "echo_step (Accept_done ec) (now, s, heard) =
     (if chain s = Accepting \<and> may_complete ec s then Some (Some (now, on_accept ec s, heard)) else None)"
| "echo_step (Ping_done ec) (now, s, heard) =
     (if 0 < pings s \<and> may_complete ec s
      then Some (map_option (\<lambda>s. (now, s, heard)) (on_ping ec (after_completion ec s\<lparr>pings := pings s - 1\<rparr>))) else None)"
| "echo_step Control_frame (now, s, heard) =
     (if chain s = Reading_frame \<and> \<not> socket_closed s then Some (Some (now, on_control_callback now s, now)) else None)"
| "echo_step (Read_done ec frame) (now, s, heard) =
     (if chain s = Reading_frame \<and> may_complete ec s
      then Some (Some (now, on_read ec frame now (after_completion ec s), if ec = Done then now else heard)) else None)"
| "echo_step (Write_done ec) (now, s, heard) =
     (case chain s of
        Writing_frame f \<Rightarrow> if may_complete ec s then Some (Some (now, on_write ec (after_completion ec s), heard)) else None
      | _ \<Rightarrow> None)"

definition echo_start :: "nat \<Rightarrow> echo_state" where
  "echo_start now = (now, do_accept now new_session, now)"

inductive echo_reachable :: "nat \<Rightarrow> echo_state \<Rightarrow> bool" for t0 where
  start: "echo_reachable t0 (echo_start t0)"
| step: "echo_reachable t0 c \<Longrightarrow> echo_step e c = Some (Some c') \<Longrightarrow> e \<noteq> Timer_fails \<Longrightarrow> echo_reachable t0 c'"

fun echo_exec :: "echo_event list \<Rightarrow> echo_state \<Rightarrow> echo_state option" where
  "echo_exec [] c = Some c"
| "echo_exec (e # es) c = (case echo_step e c of Some (Some c') \<Rightarrow> echo_exec es c' | _ \<Rightarrow> None)"

lemma echo_reachable_exec:
  "echo_reachable t0 c \<Longrightarrow> echo_exec es c = Some c' \<Longrightarrow> Timer_fails \<notin> set es \<Longrightarrow> echo_reachable t0 c'"
proof (induction es arbitrary: c)
  case (Cons e es)
  then obtain c1 where c1: "echo_step e c = Some (Some c1)" "echo_exec es c1 = Some c'"
    by (auto split: option.splits)
  moreover have "e \<noteq> Timer_fails" using Cons.prems(3) by auto
  ultimately have "echo_reachable t0 c1" using echo_reachable.step [OF Cons.prems(1)] by blast
  with Cons c1 show ?case by simp
qed simp

section \<open>The invariant\<close>

text \<open>
  While the socket is open there is exactly one wait. The expiry is fifteen seconds after the
  last activity, and at least thirty once a ping was sent for want of it. The buffer holds the
  frame that is being written and is empty otherwise.
\<close>

definition timer_inv :: "nat \<Rightarrow> echo_session \<Rightarrow> nat \<Rightarrow> bool" where
  "timer_inv now s heard \<longleftrightarrow>
     heard \<le> now \<and> ping_state s \<le> 2 \<and>
     (\<exists>e. expiry s = Some e \<and> (if ping_state s = 0 then e = heard + 15 else heard + 30 \<le> e))"

definition wait_inv :: "echo_session \<Rightarrow> bool" where
  "wait_inv s \<longleftrightarrow> length (waits s) \<le> 1 \<and> (\<not> socket_closed s \<longrightarrow> length (waits s) = 1)"

fun echo_inv :: "echo_state \<Rightarrow> bool" where
  "echo_inv (now, s, heard) \<longleftrightarrow>
     timer_inv now s heard \<and> wait_inv s \<and>
     (case chain s of Reading_frame \<Rightarrow> buffer s = [] | Accepting \<Rightarrow> buffer s = [] | Writing_frame f \<Rightarrow> buffer s = f | Idle_chain \<Rightarrow> True)"

lemmas echo_defs =
  expires_after_def async_wait_def expired_def on_timer_def activity_def do_accept_def do_read_def
  on_accept_def on_ping_def after_completion_def on_control_callback_def on_read_def on_write_def

lemma echo_inv_start: "echo_inv (echo_start t0)"
  by (simp add: echo_start_def echo_defs new_session_def timer_inv_def wait_inv_def)

lemma echo_inv_step:
  assumes "echo_inv c" "echo_step e c = Some (Some c')" "e \<noteq> Timer_fails"
  shows "echo_inv c'"
proof -
  obtain now s heard where c: "c = (now, s, heard)" by (cases c)
  show ?thesis
    using assms unfolding c
    by (cases e)
      (auto simp: echo_defs timer_inv_def wait_inv_def Let_def may_complete_def
        split: if_splits list.splits wait.splits chain.splits option.splits)
qed

lemma echo_inv_reachable: "echo_reachable t0 c \<Longrightarrow> echo_inv c"
  by (induction rule: echo_reachable.induct) (auto intro: echo_inv_start echo_inv_step simp del: echo_inv.simps)

section \<open>What the timer does\<close>

lemma closing_step:
  assumes "echo_step e (now, s, heard) = Some (Some (now', s', heard'))"
    "\<not> socket_closed s" "socket_closed s'"
  shows "expired now s \<and> (ws_open s \<longrightarrow> ping_state s \<noteq> 0) \<and> now' = now"
  using assms
  by (cases e)
    (auto simp: echo_defs Let_def split: if_splits list.splits wait.splits chain.splits option.splits)

text \<open>
  Keep-alive. The timer of a web socket session never runs out of waits while the socket
  is open, and it closes an open web socket only when the peer was not heard of for thirty
  seconds, in the middle of which a ping was sent.
\<close>

lemma echo_keeps_alive:
  assumes "echo_reachable t0 (now, s, heard)" "\<not> socket_closed s"
  shows "length (waits s) = 1 \<and>
    (\<forall>e now' s' heard'. echo_step e (now, s, heard) = Some (Some (now', s', heard')) \<and> socket_closed s' \<and> ws_open s
       \<longrightarrow> heard + 30 \<le> now \<and> ping_state s \<noteq> 0)"
proof -
  have inv: "echo_inv (now, s, heard)" by (rule echo_inv_reachable [OF assms(1)])
  show ?thesis
  proof (intro conjI allI impI)
    show "length (waits s) = 1" using inv assms(2) by (simp add: wait_inv_def)
    fix e now' s' heard'
    assume "echo_step e (now, s, heard) = Some (Some (now', s', heard')) \<and> socket_closed s' \<and> ws_open s"
    then have "expired now s" "ping_state s \<noteq> 0" using closing_step assms(2) by blast+
    then show "heard + 30 \<le> now" "ping_state s \<noteq> 0"
      using inv by (auto simp: timer_inv_def expired_def)
  qed
qed

text \<open>A frame is echoed as it came, and the next is read when it was written.\<close>

lemma echo_frame:
  assumes "echo_reachable t0 (now, s, heard)" "chain s = Reading_frame"
  shows "chain (on_read Done frame now s) = Writing_frame frame"
  using echo_inv_reachable [OF assms(1)] assms(2) by (simp add: on_read_def activity_def expires_after_def Let_def)

text \<open>
  A peer that stays silent is closed: when the wait is handled after the expiry with a ping
  already sent, or before the handshake ended.
\<close>

lemma silent_peer_closed:
  assumes "expired now s" "\<not> ws_open s \<or> ping_state s \<noteq> 0"
  shows "socket_closed (on_timer Done now s)"
  using assms by (auto simp: on_timer_def)

text \<open>
  A session with a silent peer: it sends a ping after fifteen seconds, and closes the socket
  after thirty.
\<close>

definition handshaken :: "echo_event list" where
  "handshaken = [Timer_handled, Accept_done Done]"

definition silence :: "echo_event list" where
  "silence = replicate 15 Tick @ [Timer_fires, Timer_handled, Ping_done Done] @ replicate 15 Tick @ [Timer_fires]"

lemma silence_run:
  "echo_exec (handshaken @ silence) (echo_start 0) =
     Some (30, \<lparr>ping_state = 2, ws_open = True, socket_closed = False, expiry = Some 30, buffer = [],
               chain = Reading_frame, pings = 0, waits = [Fired]\<rparr>, 0)"
  by code_simp

lemma echo_keeps_alive_witness:
  "length (waits \<lparr>ping_state = 2, ws_open = True, socket_closed = False, expiry = Some 30, buffer = [],
               chain = Reading_frame, pings = 0, waits = [Fired]\<rparr>) = 1"
proof -
  have "Timer_fails \<notin> set (handshaken @ silence)" by (simp add: handshaken_def silence_def)
  from echo_reachable_exec [OF echo_reachable.start silence_run this]
  show ?thesis by (intro echo_keeps_alive [THEN conjunct1]) simp_all
qed

text \<open>
  The assertion of \<open>on_ping\<close> does not hold when a ping takes longer than the next one needs to
  be sent: both complete, and the second finds the state 2.
\<close>

lemma late_ping_breaks_assertion:
  "\<exists>es c. echo_exec es (echo_start 0) = Some c \<and> Timer_fails \<notin> set es \<and> echo_step (Ping_done Done) c = Some None"
proof -
  let ?es = "handshaken @ replicate 15 Tick @ [Timer_fires, Timer_handled, Control_frame, Timer_handled]
    @ replicate 15 Tick @ [Timer_fires, Timer_handled, Ping_done Done]"
  let ?c = "(30, \<lparr>ping_state = 2, ws_open = True, socket_closed = False, expiry = Some 45, buffer = [],
               chain = Reading_frame, pings = 1, waits = [Pending]\<rparr>, 15)"
  have "echo_exec ?es (echo_start 0) = Some ?c" by code_simp
  moreover have "echo_step (Ping_done Done) ?c = Some None" by code_simp
  moreover have "Timer_fails \<notin> set ?es" by (simp add: handshaken_def)
  ultimately show ?thesis by blast
qed

end
