(* ===== verification/Config.thy ===== *)
theory Config
  imports Ws_Server Ws_Client Http_Server Device
begin

text \<open>
  \<open>stream-config/src\<close>: the configuration and its defaults (\<open>configuration.cpp\<close>), the
  environment that holds the providers and the services of a program
  (\<open>dynamic_environment.cpp\<close>), the constructors of the providers \<open>ws\<close> and \<open>http\<close>, which read
  the configuration, and the providers that each program starts.
\<close>

section \<open>The configuration\<close>

record configuration =
  dynamic_configuration :: json_map
  path_app :: string

definition default_config :: json_map where
  "default_config = make_map
       [(''http-port'', JStr ''8080''), (''http-ip'', JStr ''0.0.0.0''), (''num_worker_threads'', JInt 0),
        (''max_throughput_param_worker'', JInt 1000), (''ws-port'', JStr ''8081''), (''profile-key'', JStr []),
        (''manager-key'', JStr []), (''db'', JStr []),
        (''client'', JMap (make_map [(''ip'', JStr ''127.0.0.1''), (''port'', JStr ''8081'')]))]"

definition generate_config :: "configuration \<Rightarrow> configuration" where
  "generate_config c = c \<lparr>dynamic_configuration := default_config\<rparr>"

definition load_config :: "(u16 list \<Rightarrow> string) \<Rightarrow> string \<Rightarrow> configuration \<Rightarrow> configuration result" where
  "load_config utf text c = bindE (parse_map utf text) (\<lambda>m. Inr (c \<lparr>dynamic_configuration := m\<rparr>))"

text \<open>The file system gives the text of a file that exists.\<close>

definition load_or_generate_config ::
    "(u16 list \<Rightarrow> string) \<Rightarrow> (string \<Rightarrow> string option) \<Rightarrow> string \<Rightarrow> configuration \<Rightarrow> configuration result" where
  "load_or_generate_config utf files path c =
     (let c = c \<lparr>path_app := path\<rparr> in
      case files (path @ ''/config.json'') of
        Some text \<Rightarrow> load_config utf text c
      | None \<Rightarrow> Inr (generate_config c))"

text \<open>\<open>config()[k].as<std::string>()\<close>; the map is left with a null entry when there was none.\<close>

definition config_string :: "string \<Rightarrow> json_map \<Rightarrow> (string \<times> json_map) result" where
  "config_string k config =
     (let (v, config) = map_index k config in bindE (as_string v) (\<lambda>s. Inr (s, config)))"

definition config_int :: "string \<Rightarrow> json_map \<Rightarrow> (i64 \<times> json_map) result" where
  "config_int k config =
     (let (v, config) = map_index k config in bindE (as_int v) (\<lambda>i. Inr (i, config)))"

section \<open>The constructors of the providers\<close>

text \<open>\<open>std::stoul\<close>: white space, a sign, digits; the sign is applied modulo the width.\<close>

definition stoul :: "string \<Rightarrow> 64 word result" where
  "stoul s =
     (let t = dropWhile is_space s;
          (neg, u) = (case t of c # cs \<Rightarrow> if c = CHR ''-'' then (True, cs)
                                  else if c = CHR ''+'' then (False, cs) else (False, t)
                      | [] \<Rightarrow> (False, []));
          digits = takeWhile is_digit u; n = nat_of_digits digits
      in if digits = [] then Inl Invalid_argument
         else if n \<ge> 2 ^ 64 then Inl Out_of_range
         else Inr (if neg then - of_nat n else of_nat n))"

text \<open>\<open>static_cast<unsigned short>\<close> keeps the low sixteen bits.\<close>

definition port_of :: "string \<Rightarrow> u16 result" where
  "port_of s = bindE (stoul s) (\<lambda>n. Inr (ucast n))"

text \<open>
  Of boost.asio: \<open>make_address\<close>, which raises when the text is no address, and whether the
  acceptor can be opened, bound and set to listen.
\<close>

record net =
  net_make_address :: "string \<Rightarrow> unit result"
  net_listens :: "string \<Rightarrow> u16 \<Rightarrow> bool"

definition ws_server_new :: "net \<Rightarrow> string list \<Rightarrow> json_map \<Rightarrow> (ws_listener \<times> json_map) result" where
  "ws_server_new N pipe config =
     bindE (config_string ''ws-ip'' config) (\<lambda>(ip, config).
     bindE (net_make_address N ip) (\<lambda>_.
     bindE (config_string ''ws-port'' config) (\<lambda>(port, config).
     bindE (port_of port) (\<lambda>port.
     Inr (ws_listener_new (net_listens N ip port) pipe, config)))))"

definition http_server_new :: "net \<Rightarrow> json_map \<Rightarrow> (http_listener \<times> json_map) result" where
  "http_server_new N config =
     bindE (config_string ''http-ip'' config) (\<lambda>(ip, config).
     bindE (net_make_address N ip) (\<lambda>_.
     bindE (config_string ''http-port'' config) (\<lambda>(port, config).
     bindE (config_string ''http-dir'' config) (\<lambda>(dir, config).
     bindE (port_of port) (\<lambda>port.
     Inr (http_listener_new (net_listens N ip port) dir, config))))))"

section \<open>The environment\<close>

datatype provider = Ws_provider ws_listener | Http_provider http_listener | Client_provider ws_client

record environment =
  env_config :: json_map
  env_workers :: "64 word"
  env_throughput :: "64 word"
  env_providers :: "(string \<times> provider) list"
  env_services :: "string list"
  env_running :: bool

text \<open>
  The number of workers: twice the hardware threads less one, in \<open>unsigned int\<close>, when none is
  given.
\<close>

definition num_workers :: "u32 \<Rightarrow> 64 word \<Rightarrow> 64 word" where
  "num_workers hardware n = (if n = 0 then ucast (hardware * 2 - 1) else n)"

definition environment_new :: "u32 \<Rightarrow> json_map \<Rightarrow> environment result" where
  "environment_new hardware config =
     bindE (config_int ''num_worker_threads'' config) (\<lambda>(workers, config).
     bindE (config_int ''max_throughput_param_worker'' config) (\<lambda>(throughput, config).
     let (workers, throughput) = (if sint workers < 0 \<or> sint throughput < 0 then (0, 1000) else (workers, throughput))
     in Inr \<lparr>env_config = config, env_workers = num_workers hardware workers, env_throughput = throughput,
             env_providers = [], env_services = [], env_running = False\<rparr>))"

text \<open>
  \<open>emplace\<close> keeps a provider of the same name; the new one is destroyed. The result is the
  provider that is registered.
\<close>

definition add_data_provider :: "string \<Rightarrow> provider \<Rightarrow> environment \<Rightarrow> environment" where
  "add_data_provider name p env = env \<lparr>env_providers := um_emplace name p (env_providers env)\<rparr>"

definition add_service :: "string \<Rightarrow> environment \<Rightarrow> environment" where
  "add_service name env = env \<lparr>env_services := us_emplace name (env_services env)\<rparr>"

definition provider_startup :: "json_map \<Rightarrow> provider \<Rightarrow> provider result" where
  "provider_startup config p =
     (case p of
        Ws_provider l \<Rightarrow> Inr (Ws_provider (ws_startup l))
      | Http_provider l \<Rightarrow> Inr (Http_provider (http_listener_run l))
      | Client_provider c \<Rightarrow> bindE (client_startup config c) (\<lambda>c. Inr (Client_provider c)))"

definition provider_shutdown :: "provider \<Rightarrow> provider" where
  "provider_shutdown p =
     (case p of
        Ws_provider l \<Rightarrow> Ws_provider (ws_shutdown l)
      | Http_provider l \<Rightarrow> Http_provider l
      | Client_provider c \<Rightarrow> Client_provider (client_shutdown c))"

fun startup_providers :: "json_map \<Rightarrow> (string \<times> provider) list \<Rightarrow> (string \<times> provider) list result" where
  "startup_providers config [] = Inr []"
| "startup_providers config ((name, p) # ps) =
     bindE (provider_startup config p) (\<lambda>p.
     bindE (startup_providers config ps) (\<lambda>ps. Inr ((name, p) # ps)))"

text \<open>
  \<open>startup\<close> first starts the providers, in the order of the table, then the services (the
  actions \<open>_startup\<close> of their theories), and then enters the loop.
\<close>

definition environment_startup :: "environment \<Rightarrow> environment result" where
  "environment_startup env =
     bindE (startup_providers (env_config env) (env_providers env)) (\<lambda>ps.
     Inr (env \<lparr>env_providers := ps, env_running := True\<rparr>))"

definition environment_shutdown :: "environment \<Rightarrow> environment" where
  "environment_shutdown env =
     env \<lparr>env_providers := map (\<lambda>(name, p). (name, provider_shutdown p)) (env_providers env), env_running := False\<rparr>"

section \<open>The providers of the programs\<close>

text \<open>The constructors run in the order of \<open>init_service\<close>; \<open>now\<close> names the client.\<close>

definition add_ws :: "net \<Rightarrow> string list \<Rightarrow> environment \<Rightarrow> environment result" where
  "add_ws N pipe env =
     bindE (ws_server_new N pipe (env_config env)) (\<lambda>(l, config).
     Inr (add_data_provider ''ws'' (Ws_provider l) (env \<lparr>env_config := config\<rparr>)))"

definition add_http :: "net \<Rightarrow> environment \<Rightarrow> environment result" where
  "add_http N env =
     bindE (http_server_new N (env_config env)) (\<lambda>(l, config).
     Inr (add_data_provider ''http'' (Http_provider l) (env \<lparr>env_config := config\<rparr>)))"

definition add_client :: "string \<Rightarrow> environment \<Rightarrow> environment" where
  "add_client now env = add_data_provider ''client'' (Client_provider (ws_client_new now)) env"

definition manager_init :: "net \<Rightarrow> string \<Rightarrow> environment \<Rightarrow> environment result" where
  "manager_init N now env =
     (let env = fold add_service [''router'', ''users'', ''groups'', ''subscriptions'', ''connections'',
                  ''devices'', ''platform'', ''manager''] env
      in bindE (add_ws N [''platform''] (add_client now env)) (add_http N))"

definition platform_init :: "net \<Rightarrow> environment \<Rightarrow> environment result" where
  "platform_init N env =
     (let env = add_service ''router'' env
      in bindE (bindE (add_http N env) (add_ws N []))
           (\<lambda>env. Inr (fold add_service [''profile'', ''managers'', ''manager''] env)))"

definition device_init :: "string \<Rightarrow> environment \<Rightarrow> environment" where
  "device_init now env = add_client now (fold add_service [''manager'', ''control''] env)"

section \<open>The number of workers\<close>

lemma num_workers_pos: "num_workers hardware n \<noteq> 0"
proof -
  have "hardware * 2 - 1 \<noteq> 0"
  proof
    assume "hardware * 2 - 1 = 0"
    then have "even (1 :: u32)" by (metis dvd_triv_right right_minus_eq)
    then show False by simp
  qed
  then have "(ucast (hardware * 2 - 1) :: 64 word) \<noteq> 0"
    by transfer simp
  then show ?thesis by (auto simp: num_workers_def)
qed

lemma config_int_found:
  "config_int k config = Inr (i, config') \<Longrightarrow> om_find k config = Some (JInt i) \<and> config' = config"
proof (cases "om_find k config")
  case (Some v)
  then show "config_int k config = Inr (i, config') \<Longrightarrow> ?thesis" by (cases v) (auto simp: config_int_def map_index_def)
qed (simp add: config_int_def map_index_def)

text \<open>
  Whatever the configuration says, there is at least one worker and the bound on the
  messages of a run is not negative; a positive number of workers is taken as it is, and
  without one it is twice the hardware threads less one, which is the largest value of 32
  bits when the number of hardware threads is not known.
\<close>

lemma worker_count:
  assumes "environment_new hardware config = Inr env"
  shows "0 < env_workers env \<and> 0 \<le> sint (env_throughput env)
    \<and> (if om_find ''num_worker_threads'' config = Some (JInt n) \<and> 0 < sint n
          \<and> om_find ''max_throughput_param_worker'' config = Some (JInt t) \<and> 0 \<le> sint t
       then env_workers env = n \<and> env_throughput env = t
       else if om_find ''num_worker_threads'' config = Some (JInt 0) \<and> hardware = 0
       then env_workers env = 2 ^ 32 - 1
       else True)"
proof -
  obtain w c1 t' c2 where c: "config_int ''num_worker_threads'' config = Inr (w, c1)"
    "config_int ''max_throughput_param_worker'' c1 = Inr (t', c2)"
    using assms by (auto simp: environment_new_def bindE_Inr_iff)
  define p where "p = (if sint w < 0 \<or> sint t' < 0 then (0, 1000) else (w, t'))"
  have env: "env_workers env = num_workers hardware (fst p)" "env_throughput env = snd p"
    using assms c by (auto simp: environment_new_def p_def split: if_splits)
  have "0 < env_workers env" using num_workers_pos by (simp add: env word_gt_0)
  moreover have "0 \<le> sint (snd p)" by (auto simp: p_def)
  moreover have find: "om_find ''num_worker_threads'' config = Some (JInt w)"
    "om_find ''max_throughput_param_worker'' c1 = Some (JInt t')" "c1 = config"
    using config_int_found [OF c(1)] config_int_found [OF c(2)] by simp_all
  moreover have "num_workers 0 0 = 2 ^ 32 - 1" by code_simp
  ultimately show ?thesis
    by (auto simp: env p_def num_workers_def)
qed

definition demo_config :: json_map where
  "demo_config = [(''max_throughput_param_worker'', JInt 1000), (''num_worker_threads'', JInt 1)]"

lemma worker_count_witness:
  "\<exists>env. environment_new 8 demo_config = Inr env \<and> env_workers env = 1 \<and> env_throughput env = 1000"
proof -
  have new: "environment_new 8 demo_config = Inr \<lparr>env_config = demo_config, env_workers = 1, env_throughput = 1000,
      env_providers = [], env_services = [], env_running = False\<rparr>"
    by (simp add: environment_new_def config_int_def map_index_def demo_config_def om_find_Cons num_workers_def)
  from worker_count [OF new, of 1 1000] show ?thesis unfolding new by (simp add: demo_config_def om_find_Cons)
qed

section \<open>A configuration without the address of the web sockets\<close>

lemma config_string_keeps:
  "config_string k config = Inr (s, config') \<Longrightarrow> config' = config"
  by (auto simp: config_string_def map_index_def bindE_Inr_iff split: option.splits)

lemma add_ws_missing:
  "om_find ''ws-ip'' (env_config env) = None \<Longrightarrow> add_ws N pipe env = Inl Bad_get"
  by (simp add: add_ws_def ws_server_new_def config_string_def map_index_def)

lemma manager_needs_ws_ip:
  assumes "om_find ''ws-ip'' (env_config env) = None"
  shows "manager_init N now env = Inl Bad_get"
proof -
  have "env_config (fold add_service ss e) = env_config e" for ss e
    by (induction ss arbitrary: e) (auto simp: add_service_def)
  with assms have "om_find ''ws-ip'' (env_config (add_client now (fold add_service ss env))) = None" for ss
    by (simp add: add_client_def add_data_provider_def)
  from add_ws_missing [OF this] show ?thesis by (simp only: manager_init_def Let_def bindE_simps)
qed

lemma platform_needs_ws_ip:
  assumes "om_find ''ws-ip'' (env_config env) = None"
  shows "platform_init N env \<noteq> Inr env'"
proof
  assume init: "platform_init N env = Inr env'"
  then obtain e1 where e1: "add_http N (add_service ''router'' env) = Inr e1" "\<exists>e2. add_ws N [] e1 = Inr e2"
    by (auto simp: platform_init_def Let_def bindE_Inr_iff)
  have "env_config e1 = env_config env"
    using e1(1) by (auto simp: add_http_def http_server_new_def add_data_provider_def add_service_def bindE_Inr_iff
        dest!: config_string_keeps)
  with assms e1(2) add_ws_missing [of e1 N "[]"] show False by auto
qed

text \<open>
  Without a configuration file no program starts: the defaults are taken and the
  environment is made, but the constructors of the manager and of the platform raise, for
  the defaults have no \<open>ws-ip\<close>, and the device raises at its start, for they have no
  \<open>device-key\<close>.
\<close>

lemma default_config_starts_nothing:
  "\<exists>cfg env. load_or_generate_config utf (\<lambda>_. None) path c = Inr cfg
    \<and> environment_new hardware (dynamic_configuration cfg) = Inr env
    \<and> manager_init N now env = Inl Bad_get
    \<and> (\<forall>env'. platform_init N env \<noteq> Inr env')
    \<and> fst (device_startup (env_config env) w) = Inl Bad_get"
proof -
  define m where "m = default_config"
  have m: "om_find ''ws-ip'' m = None" "om_find ''device-key'' m = None"
    "om_find ''num_worker_threads'' m = Some (JInt 0)" "om_find ''max_throughput_param_worker'' m = Some (JInt 1000)"
    unfolding m_def by code_simp+
  define env where "env = \<lparr>env_config = m, env_workers = num_workers hardware 0, env_throughput = 1000,
    env_providers = [], env_services = [], env_running = False\<rparr>"
  have "load_or_generate_config utf (\<lambda>_. None) path c = Inr (generate_config (c \<lparr>path_app := path\<rparr>))"
    "dynamic_configuration (generate_config (c \<lparr>path_app := path\<rparr>)) = m"
    by (simp_all add: load_or_generate_config_def generate_config_def m_def)
  moreover have "environment_new hardware m = Inr env"
    using m(3,4) by (simp add: environment_new_def config_int_def map_index_def env_def)
  moreover have "fst (device_startup (env_config env) w) = Inl Bad_get"
    using m(2) by (simp add: device_startup_def env_def map_index_def)
  ultimately show ?thesis
    using manager_needs_ws_ip [of env N now] platform_needs_ws_ip [of env N] m(1) by (auto simp: env_def)
qed

end
