(* ===== verification/Network.thy ===== *)
theory Network
  imports Service
begin

text \<open>
  A program as a network of its services: the messages between them that are under way, the
  step in which one of them is handled, its runs, and the interface \<open>network_invariant\<close> for
  what holds in every run. Any message under way may be the next one, which includes the
  order of the mailboxes and every choice of the executor. A handler is one step: services
  share nothing but the database, so this is the program with one worker, or with several
  when the statements of two handlers do not interleave.
\<close>

section \<open>Rules for what handlers send\<close>

lemma spec_lift_any: "spec I Q (lift r) (\<lambda>_. True)"
  by (rule spec_lift) simp

lemma spec_ret_any: "spec I Q (ret x) (\<lambda>_. True)"
  by (rule spec_ret) simp

lemma spec_case_prod_eq:
  "(\<And>x y. p = (x, y) \<Longrightarrow> spec I Q (f x y) V) \<Longrightarrow> spec I Q (case p of (x, y) \<Rightarrow> f x y) V"
  by (cases p) simp

lemma spec_if_cases:
  "(P \<Longrightarrow> spec I Q m V) \<Longrightarrow> (\<not> P \<Longrightarrow> spec I Q n V) \<Longrightarrow> spec I Q (if P then m else n) V"
  by simp

lemma spec_not_task: "body_task b = Inl e \<Longrightarrow> spec I Q (bindA (lift (body_task b)) f) V"
  by (simp add: spec_def)

lemmas spec_message_rules =
  spec_get_priv spec_any_bind_lift spec_then spec_answer spec_caught spec_any_bind spec_try
  spec_put_priv spec_reply_error spec_respond spec_sql_exec spec_sql_each spec_sql_int
  spec_if spec_case_prod_eq spec_skip spec_lift_any spec_ret_any spec_send

lemma um_find_storage:
  "um_find j (tk_storage (storage_emplace k v t)) =
     (if j = k then (case um_find k (tk_storage t) of None \<Rightarrow> Some v | Some x \<Rightarrow> Some x) else um_find j (tk_storage t))"
  "um_find j (tk_storage (storage_set k v t)) = (if j = k then Some v else um_find j (tk_storage t))"
  by (simp_all add: storage_emplace_def storage_set_def um_find_emplace um_find_set)

lemma storage_index_keeps:
  "storage_index k t = (v, u) \<Longrightarrow> um_find j (tk_storage t) = Some x \<Longrightarrow> um_find j (tk_storage u) = Some x"
  by (auto simp: storage_index_def um_find_set split: option.splits)

lemma storage_index_value: "storage_index k t = (v, u) \<Longrightarrow> um_find k (tk_storage t) = Some x \<Longrightarrow> v = x"
  by (auto simp: storage_index_def)

lemma storage_index_request: "storage_index k t = (v, u) \<Longrightarrow> tk_request u = tk_request t"
  by (auto simp: storage_index_def split: option.splits)

lemma request_storage [simp]:
  "tk_request (storage_emplace k v t) = tk_request t" "tk_request (storage_set k v t) = tk_request t"
  by (simp_all add: storage_emplace_def storage_set_def)

lemma spec_run:
  "spec I Q act V \<Longrightarrow> act w = (r, w') \<Longrightarrow> I (w_priv w) \<Longrightarrow> w_sent w = [] \<Longrightarrow> I (w_priv w') \<and> list_all Q (w_sent w')"
  by (erule (1) spec_elim [of I Q act V w]) auto

text \<open>Sending leaves the private state alone.\<close>

lemma send_priv:
  "w_priv (snd (send Y d c b w)) = w_priv w" "w_priv (snd (reply_error Y t text w)) = w_priv w"
  by (auto simp: send_def reply_error_def respond_def write_ws_def split: option.splits)

lemma tryA_priv:
  assumes "\<And>e w. w_priv (snd (h e w)) = w_priv w"
  shows "w_priv (snd (tryA m h w)) = w_priv (snd (m w))"
proof -
  obtain r w' where "m w = (r, w')" by fastforce
  then show ?thesis using assms by (cases r) simp_all
qed

lemma answer_priv: "w_priv (snd (answer X t m w)) = w_priv (snd (m w))"
proof -
  obtain r w' where "m w = (r, w')" by fastforce
  then show ?thesis by (cases r) (auto simp: answer_def respond_def write_ws_def send_priv)
qed

lemma caught_priv: "w_priv (snd (caught X r m w)) = w_priv (snd (m w))"
  unfolding caught_def by (rule tryA_priv) simp

section \<open>The types of bodies\<close>

text \<open>
  A body is an \<open>any\<close>, and \<open>message::body<T>\<close> is an unchecked cast: a handler that reads
  another type than the sender put in is undefined.
\<close>

datatype body_kind = Kind_transport | Kind_task | Kind_string | Kind_address | Kind_channel

fun kind_of :: "body \<Rightarrow> body_kind" where
  "kind_of (B_transport _) = Kind_transport"
| "kind_of (B_task _) = Kind_task"
| "kind_of (B_string _) = Kind_string"

text \<open>
  A table has, for each actor, the handlers that read the body of their message. Every actor also has the standard handlers, of which \<open>skip\<close> reads no
  body.
\<close>

definition reads_in :: "(string \<times> (string \<times> body_kind) list) list \<Rightarrow> string \<Rightarrow> string \<Rightarrow> body_kind option" where
  "reads_in readers dest command =
     (if command = ''sync_contacts'' then Some Kind_address
      else if command = ''add_channel'' then Some Kind_channel
      else (case map_of readers dest of None \<Rightarrow> None | Some table \<Rightarrow> map_of table command))"

definition typed_in :: "(string \<times> (string \<times> body_kind) list) list \<Rightarrow> sent \<Rightarrow> bool" where
  "typed_in readers m \<longleftrightarrow> (case m of (dest, command, b) \<Rightarrow>
     (case reads_in readers dest command of None \<Rightarrow> True | Some k \<Rightarrow> kind_of b = k))"

lemma bad_body:
  "kind_of b \<noteq> Kind_task \<Longrightarrow> body_task b = Inl Undefined"
  "kind_of b \<noteq> Kind_transport \<Longrightarrow> body_transport b = Inl Undefined"
  by (cases b; simp)+

lemma bad_task: "kind_of b \<noteq> Kind_task \<Longrightarrow> bindA (lift (body_task b)) f w = (Inl Undefined, w)"
  by (simp add: bad_body)

lemma bad_transport: "kind_of b \<noteq> Kind_transport \<Longrightarrow> bindA (lift (body_transport b)) f w = (Inl Undefined, w)"
  by (simp add: bad_body)

section \<open>Handlers in the program\<close>

text \<open>
  The private state of the program holds those of its services. A handler works on its part
  of it.
\<close>

definition part :: "('st \<Rightarrow> 'p) \<Rightarrow> ('db, 'st) world \<Rightarrow> ('db, 'p) world" where
  "part sel w = \<lparr>w_db = w_db w, w_priv = sel (w_priv w), w_sent = w_sent w\<rparr>"

definition inside :: "('st \<Rightarrow> 'p) \<Rightarrow> ('p \<Rightarrow> 'st \<Rightarrow> 'st) \<Rightarrow> ('db, 'p, 'a) act \<Rightarrow> ('db, 'st, 'a) act" where
  "inside sel upd act w =
     (let (r, w') = act (part sel w)
      in (r, \<lparr>w_db = w_db w', w_priv = upd (w_priv w') (w_priv w), w_sent = w_sent w'\<rparr>))"

lemma spec_inside:
  fixes act :: "('db, 'p, 'a) act" and sel :: "'st \<Rightarrow> 'p"
  assumes "spec I Q act V" "\<And>p st. J st \<Longrightarrow> I p \<Longrightarrow> J (upd p st)" "\<And>st. J st \<Longrightarrow> I (sel st)"
  shows "spec J Q (inside sel upd act) V"
proof (rule specI)
  fix w :: "('db, 'st) world"
  assume J: "J (w_priv w)"
  obtain r w' where out: "act (part sel w) = (r, w')" by fastforce
  from spec_elim [OF assms(1), of "part sel w"] assms(3) [OF J] out obtain ms where
    "I (w_priv w')" "w_sent w' = w_sent w @ ms" "list_all Q ms" "\<And>x. r = Inr x \<Longrightarrow> V x"
    by (auto simp: part_def)
  then show "J (w_priv (snd (inside sel upd act w))) \<and>
    (\<exists>ms. w_sent (snd (inside sel upd act w)) = w_sent w @ ms \<and> list_all Q ms) \<and>
    (\<forall>x. fst (inside sel upd act w) = Inr x \<longrightarrow> V x)"
    using J assms(2) out by (simp add: inside_def)
qed

lemma inside_run:
  "act (part sel w) = (r, w') \<Longrightarrow>
     inside sel upd act w = (r, \<lparr>w_db = w_db w', w_priv = upd (w_priv w') (w_priv w), w_sent = w_sent w'\<rparr>)"
  by (simp add: inside_def)

section \<open>Steps and runs\<close>

text \<open>
  The database, the private states, the messages under way, and what went to the providers.
\<close>

record ('db, 'st) network =
  net_db :: 'db
  net_state :: 'st
  net_pending :: "sent list"
  net_out :: "sent list"

definition providers :: "string list" where
  "providers = [''ws'', ''client'', ''http'']"

definition post :: "sent list \<Rightarrow> ('db, 'st) network \<Rightarrow> ('db, 'st) network" where
  "post ms s = s \<lparr>net_pending := net_pending s @ filter (\<lambda>m. fst m \<notin> set providers) ms,
     net_out := net_out s @ filter (\<lambda>m. fst m \<in> set providers) ms\<rparr>"

definition world_of :: "('db, 'st) network \<Rightarrow> ('db, 'st) world" where
  "world_of s = \<lparr>w_db = net_db s, w_priv = net_state s, w_sent = []\<rparr>"

text \<open>An exception that leaves a handler ends the process: there is no next state.\<close>

definition deliver :: "(sent \<Rightarrow> ('db, 'st, unit) act) \<Rightarrow> sent \<Rightarrow> ('db, 'st) network \<Rightarrow> ('db, 'st) network option" where
  "deliver handle m s =
     (case handle m (world_of s) of
        (Inl e, w) \<Rightarrow> None
      | (Inr _, w) \<Rightarrow> Some (post (w_sent w) (s \<lparr>net_db := w_db w, net_state := w_priv w\<rparr>)))"

definition taken :: "sent \<Rightarrow> ('db, 'st) network \<Rightarrow> ('db, 'st) network" where
  "taken m s = s \<lparr>net_pending := remove1 m (net_pending s)\<rparr>"

lemma world_of_taken [simp]: "world_of (taken m s) = world_of s"
  by (simp add: world_of_def taken_def)

lemma deliverE:
  assumes "deliver handle m (taken m s) = Some s'"
  obtains u w' where "handle m (world_of s) = (Inr u, w')"
    "s' = post (w_sent w') ((taken m s) \<lparr>net_db := w_db w', net_state := w_priv w'\<rparr>)"
  using assms by (auto simp: deliver_def split: prod.splits sum.splits)

text \<open>
  A run: a provider sends a transport to a handler in \<open>arrivals\<close>, or one of the messages
  under way is handled. The history has each message handled and the world in which it was.
\<close>

type_synonym ('db, 'st) history = "(sent \<times> ('db, 'st) world) list"

inductive net_run :: "(sent \<Rightarrow> ('db, 'st, unit) act) \<Rightarrow> (string \<times> string) list \<Rightarrow> ('db, 'st) network
    \<Rightarrow> ('db, 'st) history \<Rightarrow> ('db, 'st) network \<Rightarrow> bool"
  for handle :: "sent \<Rightarrow> ('db, 'st, unit) act" and arrivals :: "(string \<times> string) list"
    and s0 :: "('db, 'st) network" where
  start: "net_run handle arrivals s0 [] s0"
| arrive: "net_run handle arrivals s0 h s \<Longrightarrow> (dest, command) \<in> set arrivals \<Longrightarrow>
    net_run handle arrivals s0 h (s \<lparr>net_pending := net_pending s @ [(dest, command, B_transport tr)]\<rparr>)"
| handle: "net_run handle arrivals s0 h s \<Longrightarrow> m \<in> set (net_pending s) \<Longrightarrow> deliver handle m (taken m s) = Some s' \<Longrightarrow>
    net_run handle arrivals s0 (h @ [(m, world_of s)]) s'"

text \<open>The relation as a function of what happens: an arrival, or the handling of the nth message.\<close>

datatype event = Arrive string string transport | Handle nat

fun net_exec :: "(sent \<Rightarrow> ('db, 'st, unit) act) \<Rightarrow> (string \<times> string) list \<Rightarrow> event list
    \<Rightarrow> ('db, 'st) history \<times> ('db, 'st) network \<Rightarrow> (('db, 'st) history \<times> ('db, 'st) network) option" where
  "net_exec handle arrivals [] hs = Some hs"
| "net_exec handle arrivals (Arrive dest command tr # es) (h, s) =
     (if (dest, command) \<in> set arrivals
      then net_exec handle arrivals es (h, s \<lparr>net_pending := net_pending s @ [(dest, command, B_transport tr)]\<rparr>)
      else None)"
| "net_exec handle arrivals (Handle n # es) (h, s) =
     (if n < length (net_pending s) then
        (let m = net_pending s ! n in
         case deliver handle m (taken m s) of
           None \<Rightarrow> None
         | Some s' \<Rightarrow> net_exec handle arrivals es (h @ [(m, world_of s)], s'))
      else None)"

lemma net_exec_run:
  assumes "net_exec handle arrivals es (h, s) = Some (h', s')" "net_run handle arrivals s0 h s"
  shows "net_run handle arrivals s0 h' s'"
  using assms
proof (induction es arbitrary: h s)
  case Nil
  then show ?case by simp
next
  case (Cons e es)
  show ?case
  proof (cases e)
    case (Arrive dest command tr)
    with Cons.prems(1) have "(dest, command) \<in> set arrivals"
      "net_exec handle arrivals es (h, s \<lparr>net_pending := net_pending s @ [(dest, command, B_transport tr)]\<rparr>) = Some (h', s')"
      by (simp_all split: if_splits)
    then show ?thesis using Cons.IH net_run.arrive [OF Cons.prems(2)] by blast
  next
    case (Handle n)
    with Cons.prems(1) have n: "n < length (net_pending s)" by (simp split: if_splits)
    with Handle Cons.prems(1) obtain s1 where
      "deliver handle (net_pending s ! n) (taken (net_pending s ! n) s) = Some s1"
      "net_exec handle arrivals es (h @ [(net_pending s ! n, world_of s)], s1) = Some (h', s')"
      by (auto simp: Let_def split: option.splits)
    with Cons.IH net_run.handle [OF Cons.prems(2) nth_mem [OF n]] show ?thesis by blast
  qed
qed

text \<open>The only message under way is handled.\<close>

lemma deliver_run:
  assumes "handle m (world_of s) = (Inr u, w)" "net_pending s = [m]"
  shows "deliver handle m (taken m s) = Some (s \<lparr>net_db := w_db w, net_state := w_priv w,
    net_pending := filter (\<lambda>m. fst m \<notin> set providers) (w_sent w),
    net_out := net_out s @ filter (\<lambda>m. fst m \<in> set providers) (w_sent w)\<rparr>)"
  using assms by (simp add: deliver_def) (simp add: post_def taken_def)

section \<open>The interface of what holds in every run\<close>

text \<open>
  \<open>I\<close> holds of the private states and \<open>Q\<close> of the messages, after the history given. A
  handler keeps \<open>I\<close> and sends messages with \<open>Q\<close>, with the message it handles in the history.
\<close>

locale network_invariant =
  fixes handle :: "sent \<Rightarrow> ('db, 'st, unit) act"
    and arrivals :: "(string \<times> string) list"
    and I :: "('db, 'st) history \<Rightarrow> 'st \<Rightarrow> bool"
    and Q :: "('db, 'st) history \<Rightarrow> sent \<Rightarrow> bool"
  assumes arrival: "(dest, command) \<in> set arrivals \<Longrightarrow> Q h (dest, command, B_transport tr)"
    and later: "Q h m \<Longrightarrow> Q (h @ [x]) m"
    and step: "I h (w_priv w) \<Longrightarrow> Q h m \<Longrightarrow> w_sent w = [] \<Longrightarrow> handle m w = (Inr u, w') \<Longrightarrow>
      I (h @ [(m, w)]) (w_priv w') \<and> list_all (Q (h @ [(m, w)])) (w_sent w')"
begin

lemma deliver_keeps:
  assumes "I h (net_state s)" "list_all (Q h) (net_pending s @ net_out s)" "m \<in> set (net_pending s)"
    and "deliver handle m (taken m s) = Some s'"
  shows "I (h @ [(m, world_of s)]) (net_state s') \<and> list_all (Q (h @ [(m, world_of s)])) (net_pending s' @ net_out s')"
proof -
  let ?h = "h @ [(m, world_of s)]"
  from assms(4) obtain u w' where out: "handle m (world_of s) = (Inr u, w')"
    and s': "s' = post (w_sent w') ((taken m s) \<lparr>net_db := w_db w', net_state := w_priv w'\<rparr>)"
    by (rule deliverE)
  have "Q h m" using assms(2,3) by (simp add: list_all_iff)
  from step [OF _ this _ out] assms(1) have new: "I ?h (w_priv w')" "list_all (Q ?h) (w_sent w')"
    by (simp_all add: world_of_def)
  have "list_all (Q ?h) (net_pending (taken m s) @ net_out s)"
    unfolding list_all_iff
  proof
    fix x assume "x \<in> set (net_pending (taken m s) @ net_out s)"
    then have "x \<in> set (net_pending s @ net_out s)"
      using set_remove1_subset [of m "net_pending s"] by (auto simp: taken_def)
    then have "Q h x" using assms(2) by (simp only: list_all_iff)
    then show "Q ?h x" by (rule later)
  qed
  with new show ?thesis by (auto simp: s' post_def list_all_iff taken_def)
qed

lemma run_keeps:
  assumes "net_run handle arrivals s0 h s" "I [] (net_state s0)" "net_pending s0 = []" "net_out s0 = []"
  shows "I h (net_state s) \<and> list_all (Q h) (net_pending s @ net_out s)"
  using assms(1)
proof induction
  case start
  then show ?case using assms(2-4) by simp
next
  case (arrive h s dest command tr)
  then show ?case using arrival by simp
next
  case (handle h s m s')
  then show ?case using deliver_keeps by blast
qed

end


text \<open>No message under way is addressed to a provider.\<close>

lemma pending_not_provider:
  assumes "net_run handle arrivals s0 h s" "net_pending s0 = []" "set (map fst arrivals) \<inter> set providers = {}"
    and "m \<in> set (net_pending s)"
  shows "fst m \<notin> set providers"
  using assms(1,4)
proof (induction arbitrary: m)
  case start
  then show ?case using assms(2) by simp
next
  case (arrive h s dest command tr)
  have "dest \<notin> set providers" using arrive.hyps(2) assms(3) by force
  then show ?case using arrive.IH [of m] arrive.prems by (cases "m \<in> set (net_pending s)") auto
next
  case (handle h s m' s')
  from handle.hyps(3) obtain u w where "handle m' (world_of s) = (Inr u, w)" and "s' = post (w_sent w) (taken m' s \<lparr>net_db := w_db w, net_state := w_priv w\<rparr>)"
    by (rule deliverE)
  from this(2) have "m \<in> set (net_pending s) \<or> fst m \<notin> set providers"
    using handle.prems set_remove1_subset [of m' "net_pending s"] by (auto simp: post_def taken_def)
  with handle.IH show ?case by blast
qed

end
