(* ===== verification/Manager.thy ===== *)
theory Manager
  imports Network Users Router Group_Service Subscriptions Devices Platform_Link Device
begin

text \<open>
  The manager as a network of its eight services: \<open>init_service\<close> of
  \<open>stream-manager/src/manager.cpp\<close>.
\<close>

section \<open>The program\<close>

record manager_state =
  st_users :: users_impl
  st_router :: router_impl
  st_subscriptions :: subscriptions_impl
  st_devices :: devices_impl
  st_link :: link_impl
  st_info :: info_impl

text \<open>Every service has its own contacts, so its own parameter.\<close>

definition manager_services :: "(string \<Rightarrow> 'db ext) \<Rightarrow> sent \<Rightarrow> ('db, manager_state, unit) act" where
  "manager_services X m =
     (case m of (dest, command, b) \<Rightarrow>
      if dest = ''users'' then
        inside st_users (\<lambda>p st. st \<lparr>st_users := p\<rparr>) (users_handle (X dest) command b)
      else if dest = ''router'' then
        inside st_router (\<lambda>p st. st \<lparr>st_router := p\<rparr>) (router_handle (X dest) command b)
      else if dest = ''groups'' then inside (\<lambda>_. ()) (\<lambda>_ st. st) (groups_handle (X dest) command b)
      else if dest = ''connections'' then inside (\<lambda>_. ()) (\<lambda>_ st. st) (connections_handle (X dest) command b)
      else if dest = ''subscriptions'' then
        inside st_subscriptions (\<lambda>p st. st \<lparr>st_subscriptions := p\<rparr>) (subscriptions_handle (X dest) command b)
      else if dest = ''devices'' then
        inside st_devices (\<lambda>p st. st \<lparr>st_devices := p\<rparr>) (devices_handle (X dest) command b)
      else if dest = ''platform'' then inside st_link (\<lambda>p st. st \<lparr>st_link := p\<rparr>) (link_handle (X dest) command b)
      else if dest = ''manager'' then inside st_info (\<lambda>p st. st \<lparr>st_info := p\<rparr>) (info_handle (X dest) command b)
      else skipA)"

text \<open>The state after the services have started, see \<open>startup_states\<close>.\<close>

definition manager_initial :: "string \<Rightarrow> string \<Rightarrow> manager_state" where
  "manager_initial profile manager =
     \<lparr>st_users = \<lparr>users_auth = []\<rparr>, st_router = \<lparr>profile_key = profile, manager_key = manager\<rparr>,
      st_subscriptions = \<lparr>subscribe_reg = []\<rparr>, st_devices = no_devices,
      st_link = \<lparr>link_profile_key = profile, link_manager_key = manager\<rparr>, st_info = \<lparr>info_manager_key = manager\<rparr>\<rparr>"

definition manager_start :: "string \<Rightarrow> string \<Rightarrow> 'db \<Rightarrow> ('db, manager_state) network" where
  "manager_start profile manager db =
     \<lparr>net_db = db, net_state = manager_initial profile manager, net_pending = [], net_out = []\<rparr>"

lemma startup_states:
  "users_startup Y w = (Inr (), w') \<Longrightarrow> w_priv w' = st_users (manager_initial profile manager)"
  "subscriptions_startup Y w2 = (Inr (), w2') \<Longrightarrow> w_priv w2' = st_subscriptions (manager_initial profile manager)"
  "devices_startup Y w3 = (Inr (), w3') \<Longrightarrow> w_priv w3' = st_devices (manager_initial profile manager)"
  "om_find ''profile-key'' config = Some (JStr profile) \<Longrightarrow> om_find ''manager-key'' config = Some (JStr manager) \<Longrightarrow>
     w_priv (snd (router_startup config w4)) = st_router (manager_initial profile manager)
     \<and> w_priv (snd (link_startup config w5)) = st_link (manager_initial profile manager)
     \<and> w_priv (snd (info_startup config w6)) = st_info (manager_initial profile manager)"
  by (auto simp: manager_initial_def users_startup_def subscriptions_startup_def devices_startup_def
      router_startup_def link_startup_def info_startup_def thenA_def bindA_def put_priv_def lift_def
      entry_def contains_def split: prod.splits sum.splits)

text \<open>
  What the providers send: the sessions of the server their frames and errors to the router,
  its listener the frames for connections it does not know to the link, the client what it
  gets from the platform to the link.
\<close>

definition manager_arrivals :: "(string \<times> string) list" where
  "manager_arrivals =
     [(''router'', ''dispatcher''), (''router'', ''error''), (''platform'', ''dispatcher''), (''platform'', ''handshake''),
      (''platform'', ''error''), (''platform'', ''write'')]"

lemma manager_start_simps [simp]:
  "net_pending (manager_start profile manager db) = []" "net_out (manager_start profile manager db) = []"
  "net_state (manager_start profile manager db) = manager_initial profile manager"
  by (simp_all add: manager_start_def)

text \<open>By which service a message is handled.\<close>

lemma manager_dests:
  obtains "dest = ''users''" | "dest = ''router''" | "dest = ''groups''" | "dest = ''connections''"
    | "dest = ''subscriptions''" | "dest = ''devices''" | "dest = ''platform''" | "dest = ''manager''"
    | "dest \<notin> {''users'', ''router'', ''groups'', ''connections'', ''subscriptions'', ''devices'', ''platform'', ''manager''}"
  unfolding insert_iff empty_iff by argo

section \<open>A run\<close>

definition demo_frame :: transport where
  "demo_frame = T_ws ''t'' ''{\"id\":\"1\",\"method\":\"groups.list\",\"metadata\":{\"user-key\":\"bob.pw\"}}''"

definition demo_start :: "(string list \<Rightarrow> sql_row list, manager_state) network" where
  "demo_start = manager_start ''adm.x'' ''m'' (w_db demo_users)"

definition demo_events :: "event list" where
  "demo_events = [Arrive ''router'' ''dispatcher'' demo_frame, Handle 0, Handle 0]"

definition demo_fresh :: task where
  "demo_fresh =
     \<lparr>tk_request = \<lparr>req_id = JStr ''1'', req_method = ''groups.list'', req_params = JNull,
        req_metadata = [(''user-key'', JStr ''bob.pw'')]\<rparr>,
      tk_transport = ''t'',
      tk_storage = [(''profile.key'', ''adm.x''), (''service.method'', ''list''), (''service.name'', ''groups'')]\<rparr>"

lemma demo_dispatch:
  "router_handle demo_ext ''dispatcher'' (B_transport demo_frame) (part st_router (world_of demo_start))
     = (Inr (), part st_router (world_of demo_start) \<lparr>w_sent := [(''users'', ''auth'', B_task demo_fresh)]\<rparr>)"
proof -
  define m where "m = [(''id'', JStr ''1''), (''metadata'', JMap [(''user-key'', JStr ''bob.pw'')]),
    (''method'', JStr ''groups.list'')]"
  have parse: "parse_map (x_utf demo_ext) ''{\"id\":\"1\",\"method\":\"groups.list\",\"metadata\":{\"user-key\":\"bob.pw\"}}'' = Inr m"
    unfolding m_def by code_simp
  have is_req: "is_request m" unfolding m_def by code_simp
  have req: "fst (parse_request m) = Inr (tk_request demo_fresh)" unfolding m_def demo_fresh_def by code_simp
  have contact: "x_contacts demo_ext ''users'' = Some [''list'']" by code_simp
  have split: "x_split demo_ext ''groups.list'' ''.'' = [''groups'', ''list'']" by code_simp
  have "contains (req_metadata (tk_request demo_fresh)) ''user-key''" unfolding demo_fresh_def by code_simp
  moreover have "storage_emplace ''profile.key'' ''adm.x'' (storage_emplace ''service.method'' ''list''
      (storage_emplace ''service.name'' ''groups'' (new_task ''t'' (tk_request demo_fresh)))) = demo_fresh"
    by (simp add: demo_fresh_def new_task_def storage_emplace_def um_emplace_def um_find_Cons)
  moreover have "req_method (tk_request demo_fresh) = ''groups.list''" by (simp add: demo_fresh_def)
  moreover have "profile_key (st_router (net_state demo_start)) = ''adm.x''" by (simp add: demo_start_def manager_start_def manager_initial_def)
  ultimately show ?thesis
    by (simp add: router_handle_def router_dispatcher_def demo_frame_def read_message_def parse is_req dispatch_request_def req
        split Let_def send_def contact part_def world_of_def)
qed

lemma demo_auth:
  "users_handle demo_ext ''auth'' (B_task demo_fresh) (part st_users (world_of demo_start))
     = (Inr (), part st_users (world_of demo_start)
          \<lparr>w_priv := add_auth ''bob.pw'' ''bob'' (st_users (net_state demo_start)),
            w_sent := [(''router'', ''service'', B_task (checked_task ''bob.pw'' ''bob'' demo_fresh))]\<rparr>)"
proof -
  define w where "w = part st_users (world_of demo_start)"
  have key: "metadata_string ''user-key'' demo_fresh = Inr ''bob.pw''"
    and prof: "storage_index ''profile.key'' demo_fresh = (''adm.x'', demo_fresh)"
    by (simp_all add: demo_fresh_def metadata_string_def map_index_def om_find_Cons storage_index_def um_find_Cons)
  have split: "x_split demo_ext ''bob.pw'' ''.'' = [''bob'', ''pw'']" "x_contacts demo_ext ''router'' = Some [''list'']"
    by code_simp+
  have sel: "select_user demo_ext ''bob'' w = (Inr (''bob'', ''pw''), w)"
    by (simp add: select_user_def sql_each_def demo_ext_def demo_users_def col_ptr_def w_def part_def world_of_def
        demo_start_def manager_start_def manager_initial_def)
  have "\<not> is_auth ''bob.pw'' (w_priv w)" "w_sent w = []" "w_priv w = st_users (net_state demo_start)"
    by (simp_all add: w_def part_def world_of_def demo_start_def manager_start_def manager_initial_def is_auth_def)
  then show ?thesis unfolding w_def [symmetric]
    by (simp add: users_handle_def auth_cases [OF key prof] split sel send_def checked_task_def prof)
qed

lemma demo_deliver:
  "deliver (manager_services (\<lambda>_. demo_ext)) (''router'', ''dispatcher'', B_transport demo_frame)
       (taken (''router'', ''dispatcher'', B_transport demo_frame)
         (demo_start \<lparr>net_pending := [(''router'', ''dispatcher'', B_transport demo_frame)]\<rparr>))
     = Some (demo_start \<lparr>net_pending := [(''users'', ''auth'', B_task demo_fresh)]\<rparr>)"
  "deliver (manager_services (\<lambda>_. demo_ext)) (''users'', ''auth'', B_task demo_fresh)
       (taken (''users'', ''auth'', B_task demo_fresh) (demo_start \<lparr>net_pending := [(''users'', ''auth'', B_task demo_fresh)]\<rparr>))
     = Some (demo_start
         \<lparr>net_state := net_state demo_start \<lparr>st_users := add_auth ''bob.pw'' ''bob'' (st_users (net_state demo_start))\<rparr>,
          net_pending := [(''router'', ''service'', B_task (checked_task ''bob.pw'' ''bob'' demo_fresh))]\<rparr>)"
proof -
  have world: "world_of (demo_start \<lparr>net_pending := ms\<rparr>) = world_of demo_start" for ms by (simp add: world_of_def)
  show "deliver (manager_services (\<lambda>_. demo_ext)) (''router'', ''dispatcher'', B_transport demo_frame)
       (taken (''router'', ''dispatcher'', B_transport demo_frame)
         (demo_start \<lparr>net_pending := [(''router'', ''dispatcher'', B_transport demo_frame)]\<rparr>))
     = Some (demo_start \<lparr>net_pending := [(''users'', ''auth'', B_task demo_fresh)]\<rparr>)"
    by (simp add: deliver_def manager_services_def inside_def world demo_dispatch post_def providers_def taken_def)
      (simp add: part_def world_of_def demo_start_def manager_start_def manager_initial_def)
  show "deliver (manager_services (\<lambda>_. demo_ext)) (''users'', ''auth'', B_task demo_fresh)
       (taken (''users'', ''auth'', B_task demo_fresh) (demo_start \<lparr>net_pending := [(''users'', ''auth'', B_task demo_fresh)]\<rparr>))
     = Some (demo_start
         \<lparr>net_state := net_state demo_start \<lparr>st_users := add_auth ''bob.pw'' ''bob'' (st_users (net_state demo_start))\<rparr>,
          net_pending := [(''router'', ''service'', B_task (checked_task ''bob.pw'' ''bob'' demo_fresh))]\<rparr>)"
    by (simp add: deliver_def manager_services_def inside_def world demo_auth post_def providers_def taken_def)
      (simp add: part_def world_of_def demo_start_def manager_start_def manager_initial_def)
qed

lemma demo_exec:
  "net_exec (manager_services (\<lambda>_. demo_ext)) manager_arrivals demo_events ([], demo_start) =
     Some ([((''router'', ''dispatcher'', B_transport demo_frame), world_of demo_start),
          ((''users'', ''auth'', B_task demo_fresh), world_of demo_start)],
       demo_start
         \<lparr>net_state := net_state demo_start \<lparr>st_users := add_auth ''bob.pw'' ''bob'' (st_users (net_state demo_start))\<rparr>,
          net_pending := [(''router'', ''service'', B_task (checked_task ''bob.pw'' ''bob'' demo_fresh))]\<rparr>)"
proof -
  have "net_pending demo_start = []" by (simp add: demo_start_def)
  moreover have "world_of (demo_start \<lparr>net_pending := ms\<rparr>) = world_of demo_start" for ms by (simp add: world_of_def)
  ultimately show ?thesis by (simp add: demo_events_def demo_deliver Let_def manager_arrivals_def)
qed

lemmas demo_run = net_exec_run [OF demo_exec net_run.start]

end
