(* ===== verification/Manager_Access.thy ===== *)
theory Manager_Access
  imports Manager
begin

text \<open>
  Who reaches the services of the manager: in every run, a task on its way to a service has
  passed the authentication with a key that was proved, and bears the login and the flag of
  that key. The requests for the login, the authentication and the information are the only
  ones that need none.
\<close>

section \<open>Authenticated tasks\<close>

text \<open>
  A task that the authentication has let pass: the login and the flag of the manager in its
  storage are those of the key in its metadata, and the key is one that was accepted.
\<close>

definition authentic :: "'db ext \<Rightarrow> string \<Rightarrow> string set \<Rightarrow> task \<Rightarrow> bool" where
  "authentic X profile grants t \<longleftrightarrow>
     (\<exists>key login rest. metadata_string ''user-key'' t = Inr key \<and> x_split X key ''.'' = login # rest
        \<and> key \<in> grants
        \<and> um_find ''user.login'' (tk_storage t) = Some login
        \<and> um_find ''user.admin'' (tk_storage t) = Some (bool_digit (profile = key))
        \<and> um_find ''profile.key'' (tk_storage t) = Some profile)"

text \<open>A task as the router makes it from a frame.\<close>

definition fresh_task :: "string \<Rightarrow> task \<Rightarrow> bool" where
  "fresh_task profile t \<longleftrightarrow>
     um_find ''profile.key'' (tk_storage t) = Some profile
     \<and> um_find ''user.login'' (tk_storage t) = None \<and> um_find ''user.admin'' (tk_storage t) = None"

definition guest_task :: "task \<Rightarrow> bool" where
  "guest_task t \<longleftrightarrow> \<not> contains (req_metadata (tk_request t)) ''user-key''
     \<and> req_method (tk_request t) \<in> set get_quest_method_list"

definition task_ok :: "'db ext \<Rightarrow> string \<Rightarrow> string set \<Rightarrow> string \<Rightarrow> string \<Rightarrow> task \<Rightarrow> bool" where
  "task_ok X profile grants dest command t \<longleftrightarrow>
     (if (dest, command) = (''users'', ''auth'') then fresh_task profile t \<or> authentic X profile grants t
      else if (dest, command) \<in> {(''users'', ''login''), (''manager'', ''info'')}
        then guest_task t \<or> authentic X profile grants t
      else authentic X profile grants t)"

definition message_ok :: "'db ext \<Rightarrow> string \<Rightarrow> string set \<Rightarrow> sent \<Rightarrow> bool" where
  "message_ok X profile grants m \<longleftrightarrow>
     (case m of (dest, command, b) \<Rightarrow>
        dest \<in> set providers \<or> (case b of B_task t \<Rightarrow> task_ok X profile grants dest command t | _ \<Rightarrow> True))"

lemma message_ok_other [simp]:
  "message_ok X profile grants (''ws'', c, b)" "message_ok X profile grants (''client'', c, b)"
  "message_ok X profile grants (d, c, B_transport tr)" "message_ok X profile grants (d, c, B_string s)"
  by (simp_all add: message_ok_def providers_def)

lemma message_ok_authentic: "authentic X profile grants t \<Longrightarrow> message_ok X profile grants (d, c, B_task t)"
  by (simp add: message_ok_def task_ok_def)

lemma authentic_index:
  "authentic X profile grants t \<Longrightarrow> storage_index k t = (v, u) \<Longrightarrow> authentic X profile grants u"
proof -
  assume a: "authentic X profile grants t" and i: "storage_index k t = (v, u)"
  from i have "um_find j (tk_storage u) = um_find j (tk_storage t)" if "um_find j (tk_storage t) \<noteq> None" for j
    using that by (auto simp: storage_index_def um_find_set split: option.splits)
  moreover have "metadata_string ''user-key'' u = metadata_string ''user-key'' t"
    using storage_index_find [OF i] by (simp add: metadata_string_def)
  ultimately show ?thesis using a by (fastforce simp: authentic_def)
qed

lemma authentic_metadata:
  assumes "authentic X profile grants t" "tk_storage u = tk_storage t"
    "fst (map_index ''user-key'' (req_metadata (tk_request u))) = fst (map_index ''user-key'' (req_metadata (tk_request t)))"
  shows "authentic X profile grants u"
  using assms by (simp add: authentic_def metadata_string_def)

lemma authentic_edit:
  assumes "authentic X profile grants t"
  shows "authentic X profile grants (set_task_params v t)" "authentic X profile grants (with_groups gs t)"
    "authentic X profile grants (without_groups t)"
  by (rule authentic_metadata [OF assms]; simp add: set_task_params_def with_groups_def without_groups_def
      set_task_metadata_def entry_def om_find_set om_find_erase)+

lemma authentic_mono: "authentic X profile grants t \<Longrightarrow> grants \<subseteq> grants' \<Longrightarrow> authentic X profile grants' t"
  unfolding authentic_def by blast

lemma message_ok_mono: "message_ok X profile grants m \<Longrightarrow> grants \<subseteq> grants' \<Longrightarrow> message_ok X profile grants' m"
  using authentic_mono [of X profile grants _ grants']
  by (auto simp: message_ok_def task_ok_def split: prod.splits body.splits if_splits)

section \<open>What each service sends\<close>

text \<open>A task that is handed on stays authentic.\<close>

named_theorems authentic_intros

declare message_ok_authentic [authentic_intros] authentic_index [rotated, authentic_intros]
  authentic_edit [authentic_intros]

lemma groups_sends: "spec (\<lambda>_. True) (message_ok X profile grants) (groups_handle Y c b) (\<lambda>_. True)"
  by (unfold groups_handle_def groups_add_def groups_delete_def groups_list_def Let_def)
    (rule spec_message_rules TrueI message_ok_other | assumption)+

lemma info_sends: "spec (\<lambda>_. True) (message_ok X profile grants) (info_handle Y c b) (\<lambda>_. True)"
  by (unfold info_handle_def info_handler_def Let_def) (rule spec_message_rules TrueI message_ok_other | assumption)+

lemma link_sends: "spec (\<lambda>_. True) (message_ok X profile grants) (link_handle Y c b) (\<lambda>_. True)"
  by (unfold link_handle_def link_dispatcher_def link_handshake_def link_error_def link_write_def
      read_message_def Let_def)
    (rule spec_message_rules TrueI message_ok_other | assumption)+

text \<open>The keys in the cache of the authentication are among \<open>grants\<close>.\<close>

definition cache_ok :: "string set \<Rightarrow> users_impl \<Rightarrow> bool" where
  "cache_ok grants p \<longleftrightarrow> users_inv p \<and> fst ` set (users_auth p) \<subseteq> grants"

lemma cache_ok_remove: "cache_ok grants p \<Longrightarrow> cache_ok grants (remove_auth_login l p)"
  using users_inv_step(2) [of p l] erase_first_sub [of "\<lambda>e. snd e = l" "users_auth p"]
  by (simp add: cache_ok_def remove_auth_login_def) (erule conjE, erule (1) subset_trans)

lemma cache_ok_add: "cache_ok grants p \<Longrightarrow> k \<in> grants \<Longrightarrow> cache_ok grants (add_auth k l p)"
  using users_inv_step(1) [of p k l]
  by (simp add: cache_ok_def add_auth_def um_emplace_def split: option.split)

lemma users_sends:
  assumes "c \<noteq> ''auth''"
  shows "spec (cache_ok grants') (message_ok X profile grants) (users_handle Y c b) (\<lambda>_. True)"
  using assms
  by (simp add: users_handle_def)
    ((unfold users_add_def users_delete_def users_list_def users_login_def select_user_def Let_def)?,
     intro conjI impI; (rule spec_message_rules TrueI message_ok_other cache_ok_remove | assumption)+)

lemma connections_sends:
  assumes "\<And>t. b = B_task t \<Longrightarrow> authentic X profile grants t"
  shows "spec (\<lambda>_. True) (message_ok X profile grants) (connections_handle Y c b) (\<lambda>_. True)"
proof (cases b)
  case (B_task t)
  have a: "authentic X profile grants t" using assms B_task by simp
  show ?thesis
    unfolding B_task connections_handle_def connections_add_def connections_delete_def connections_list_def
      connections_groups_def connections_devices_def connections_subscribe_def connections_unsubscribe_def
      device_groups_def body_task.simps bindA_lift Let_def
    by (rule spec_message_rules TrueI message_ok_other authentic_intros a | assumption)+
qed (simp_all add: connections_handle_def connections_add_def connections_delete_def connections_list_def
      connections_groups_def connections_devices_def connections_subscribe_def connections_unsubscribe_def
      spec_def)

lemma devices_sends:
  assumes "\<And>t. b = B_task t \<Longrightarrow> authentic X profile grants t"
  shows "spec devices_inv (message_ok X profile grants) (devices_handle Y c b) (\<lambda>_. True)"
proof (cases b)
  case (B_task t)
  have a: "authentic X profile grants t" using assms B_task by simp
  show ?thesis
    unfolding B_task devices_handle_def devices_add_def devices_delete_def devices_list_def devices_detail_def
      devices_control_def devices_connect_def devices_disconnect_def devices_request_def devices_response_def
      devices_notify_def devices_subscribe_def devices_unsubscribe_def read_message_def write_ws_def
      body_task.simps bindA_lift Let_def
    by (rule spec_message_rules TrueI message_ok_other authentic_intros a devices_inv_add devices_inv_remove
        | assumption)+
next
  case (B_transport tr)
  show ?thesis
    unfolding B_transport devices_handle_def devices_add_def devices_delete_def devices_list_def devices_detail_def
      devices_control_def devices_connect_def devices_disconnect_def devices_request_def devices_response_def
      devices_notify_def devices_subscribe_def devices_unsubscribe_def read_message_def write_ws_def Let_def
    by (rule spec_not_task [OF body_task.simps(2)] spec_message_rules TrueI message_ok_other
        devices_inv_add devices_inv_remove | assumption)+
next
  case (B_string str)
  show ?thesis
    unfolding B_string devices_handle_def devices_add_def devices_delete_def devices_list_def devices_detail_def
      devices_control_def devices_connect_def devices_disconnect_def devices_request_def devices_response_def
      devices_notify_def devices_subscribe_def devices_unsubscribe_def read_message_def write_ws_def Let_def
    by (rule spec_not_task [OF body_task.simps(3)] spec_message_rules TrueI message_ok_other
        devices_inv_add devices_inv_remove | assumption)+
qed

lemma subscriptions_sends:
  assumes "\<And>t. b = B_task t \<Longrightarrow> authentic X profile grants t"
  shows "spec subs_inv (message_ok X profile grants) (subscriptions_handle Y c b) (\<lambda>_. True)"
proof (cases b)
  case (B_task t)
  have a: "authentic X profile grants t" using assms B_task by simp
  show ?thesis
    unfolding B_task subscriptions_handle_def subscriptions_add_def subscriptions_delete_def
      subscriptions_list_def subscriptions_devices_def subscriptions_groups_def subscriptions_on_def
      subscriptions_off_def subscriptions_emit_def read_message_def body_task.simps bindA_lift Let_def
    by (rule spec_subscribe_transport spec_emit_all spec_off_update spec_message_rules TrueI
        message_ok_other authentic_intros a | assumption)+
next
  case (B_transport tr)
  show ?thesis
    unfolding B_transport subscriptions_handle_def subscriptions_add_def subscriptions_delete_def
      subscriptions_list_def subscriptions_devices_def subscriptions_groups_def subscriptions_on_def
      subscriptions_off_def subscriptions_emit_def read_message_def Let_def
    by (rule spec_not_task [OF body_task.simps(2)] spec_subscribe_transport spec_emit_all spec_off_update
        spec_message_rules TrueI message_ok_other | assumption)+
next
  case (B_string str)
  show ?thesis
    unfolding B_string subscriptions_handle_def subscriptions_add_def subscriptions_delete_def
      subscriptions_list_def subscriptions_devices_def subscriptions_groups_def subscriptions_on_def
      subscriptions_off_def subscriptions_emit_def read_message_def Let_def
    by (rule spec_not_task [OF body_task.simps(3)] spec_subscribe_transport spec_emit_all spec_off_update
        spec_message_rules TrueI message_ok_other | assumption)+
qed

section \<open>The router and the authentication\<close>

text \<open>Of \<open>boost::algorithm::split\<close>: the two methods of guests are split at their dot.\<close>

definition splits_guests :: "'db ext \<Rightarrow> bool" where
  "splits_guests Y \<longleftrightarrow>
     x_split Y ''users.login'' ''.'' = [''users'', ''login''] \<and> x_split Y ''manager.info'' ''.'' = [''manager'', ''info'']"

lemma dispatched_tasks:
  fixes profile transport :: string
  assumes "splits_guests Y" "x_split Y (req_method r) ''.'' = svc # meth # rest"
  defines "t \<equiv> storage_emplace ''profile.key'' profile (storage_emplace ''service.method'' meth
    (storage_emplace ''service.name'' svc (new_task transport r)))"
  shows "message_ok X profile grants (''users'', ''auth'', B_task t)"
    and "\<not> contains (req_metadata r) ''user-key'' \<Longrightarrow> req_method r \<in> set get_quest_method_list \<Longrightarrow>
      message_ok X profile grants (svc, meth, B_task t)"
proof -
  have "fresh_task profile t" by (simp add: t_def fresh_task_def um_find_storage new_task_def)
  then show "message_ok X profile grants (''users'', ''auth'', B_task t)"
    by (simp add: message_ok_def task_ok_def)
  assume guest: "\<not> contains (req_metadata r) ''user-key''" "req_method r \<in> set get_quest_method_list"
  then have "guest_task t" by (simp add: guest_task_def t_def new_task_def)
  moreover have "(svc, meth) \<in> {(''users'', ''login''), (''manager'', ''info'')}"
    using assms(1,2) guest(2) by (auto simp: splits_guests_def get_quest_method_list_def)
  ultimately show "message_ok X profile grants (svc, meth, B_task t)"
    by (auto simp: message_ok_def task_ok_def)
qed

lemma dispatch_sends:
  assumes "splits_guests Y"
  shows "spec (\<lambda>p. profile_key p = profile) (message_ok X profile grants) (dispatch_request Y i m) (\<lambda>_. True)"
proof -
  have "spec (\<lambda>p. profile_key p = profile) (message_ok X profile grants)
      (let t = new_task i r; dispatcher = x_split Y (req_method r) ''.'' in
       if length dispatcher > 1 then
         bindA get_priv (\<lambda>p.
         let service_name = dispatcher ! 0;
             method_name = dispatcher ! 1;
             t = storage_emplace ''service.name'' service_name t;
             t = storage_emplace ''service.method'' method_name t;
             t = storage_emplace ''profile.key'' (profile_key p) t
         in if contains (req_metadata r) ''user-key'' then send Y ''users'' ''auth'' (B_task t)
            else if req_method r \<in> set get_quest_method_list then send Y service_name method_name (B_task t)
            else reply_error Y t ''access is denied'')
       else reply_error Y t ''not specified correctly method'') (\<lambda>_. True)" for r
  proof (cases "length (x_split Y (req_method r) ''.'') > 1")
    case True
    then obtain svc meth rest where split: "x_split Y (req_method r) ''.'' = svc # meth # rest"
      using split_parts by blast
    note tasks = dispatched_tasks [OF assms split]
    show ?thesis
      unfolding Let_def using True split
      by (simp del: One_nat_def) (rule spec_get_priv, simp,
        intro conjI impI spec_send spec_reply_error tasks message_ok_other; simp)
  next
    case False
    then show ?thesis by (simp add: Let_def spec_reply_error)
  qed
  then show ?thesis unfolding dispatch_request_def by (rule spec_any_bind_lift)
qed

lemma router_sends:
  assumes "splits_guests Y" "\<And>t. b = B_task t \<Longrightarrow> authentic X profile grants t"
  shows "spec (\<lambda>p. profile_key p = profile) (message_ok X profile grants) (router_handle Y c b) (\<lambda>_. True)"
proof (cases b)
  case (B_task t)
  have a: "authentic X profile grants t" using assms(2) B_task by simp
  show ?thesis
    unfolding B_task router_handle_def router_dispatcher_def router_service_def router_error_def
      body_task.simps body_transport.simps bindA_lift Let_def
    by (rule dispatch_sends [OF assms(1)] spec_case_option spec_message_rules TrueI
        message_ok_other authentic_intros a | assumption)+
next
  case (B_transport tr)
  show ?thesis
    unfolding B_transport router_handle_def router_dispatcher_def router_service_def router_error_def
      read_message_def Let_def
    by (rule spec_not_task [OF body_task.simps(2)] dispatch_sends [OF assms(1)] spec_message_rules TrueI
        message_ok_other | assumption)+
next
  case (B_string str)
  show ?thesis
    unfolding B_string router_handle_def router_dispatcher_def router_service_def router_error_def
      read_message_def Let_def
    by (rule spec_not_task [OF body_task.simps(3)] dispatch_sends [OF assms(1)] spec_message_rules TrueI
        message_ok_other | assumption)+
qed

lemma checked_authentic:
  assumes "fresh_task profile t \<or> authentic X profile grants t"
    and "metadata_string ''user-key'' t = Inr key" "x_split X key ''.'' = login # rest" "key \<in> grants'"
  shows "authentic X profile grants' (checked_task key login t)"
proof -
  have "um_find ''profile.key'' (tk_storage t) = Some profile"
    using assms(1) by (auto simp: fresh_task_def authentic_def)
  then have index: "storage_index ''profile.key'' t = (profile, t)" by (simp add: storage_index_def)
  have login: "um_find ''user.login'' (tk_storage t) \<in> {None, Some login}"
    using assms by (auto simp: fresh_task_def authentic_def)
  show ?thesis
    using assms(2-4) login \<open>um_find ''profile.key'' (tk_storage t) = Some profile\<close>
    by (auto simp: authentic_def checked_task_def index um_find_storage metadata_string_def)
qed

text \<open>What the authentication sends, what it adds to its cache, and why.\<close>

lemma auth_caches:
  assumes key: "metadata_string ''user-key'' t = Inr key"
    and w'_def: "w' = snd (users_handle Y ''auth'' (B_task t) w)"
  shows "w_priv w' = w_priv w
    \<or> (key_proved Y (fst (storage_index ''profile.key'' t)) key w \<and> (\<exists>login. w_priv w' = add_auth key login (w_priv w)))"
proof -
  obtain profile_key t' where prof: "storage_index ''profile.key'' t = (profile_key, t')" by fastforce
  note cases = auth_cases [OF key prof, of Y w]
  have w': "w' = snd (users_auth_handler Y (B_task t) w)" by (simp add: w'_def users_handle_def)
  show ?thesis
  proof (cases "\<exists>user0 user1 us login password w1. x_split Y key ''.'' = user0 # user1 # us
      \<and> select_user Y user0 w = (Inr (login, password), w1) \<and> user1 = password")
    case True
    then obtain user0 user1 us login w1 where u: "x_split Y key ''.'' = user0 # user1 # us"
      "select_user Y user0 w = (Inr (login, user1), w1)" by blast
    then have "key_proved Y profile_key key w" using select_user_says [OF u(2)] by (simp add: key_proved_def)
    moreover have "w_priv w' \<in> {w_priv w, add_auth key login (w_priv w)}"
      by (simp add: w' cases u tryA_priv send_priv)
    ultimately show ?thesis using prof by auto
  next
    case False
    have frame: "w_priv (snd (select_user Y user0 w)) = w_priv w" for user0 using select_user_frame [of Y user0 w] by simp
    have "w_priv w' = w_priv w"
      using False frame
      by (auto simp: w' cases send_priv tryA_priv split: list.split prod.split sum.split) (metis snd_conv)+
    then show ?thesis ..
  qed
qed

lemma auth_sends:
  assumes run: "users_handle Y ''auth'' (B_task t) w = (res, w')" and cache: "cache_ok grants (w_priv w)"
    and proved: "\<And>key. metadata_string ''user-key'' t = Inr key \<Longrightarrow>
      key_proved Y (fst (storage_index ''profile.key'' t)) key w \<Longrightarrow> key \<in> grants"
  shows "cache_ok grants (w_priv w') \<and> (\<exists>ms. w_sent w' = w_sent w @ ms \<and>
    (\<forall>m \<in> set ms. fst m = ''ws'' \<or>
      (\<exists>key login rest. m = (''router'', ''service'', B_task (checked_task key login t))
        \<and> metadata_string ''user-key'' t = Inr key \<and> x_split Y key ''.'' = login # rest \<and> key \<in> grants)))"
proof -
  from users_service.handle_spec [of Y "''auth''" "B_task t"] run cache obtain ms where
    ms: "w_sent w' = w_sent w @ ms"
    by (auto simp: spec_def cache_ok_def)
  have "cache_ok grants (w_priv w')"
  proof (cases "metadata_string ''user-key'' t")
    case (Inl e)
    then show ?thesis using run cache metadata_string_Inl [OF Inl, of Y w] by (simp add: users_handle_def)
  next
    case (Inr key)
    from auth_caches [OF this refl, of Y w] run proved [OF this] cache show ?thesis
      using cache_ok_add [of grants "w_priv w" key] by (cases "w_priv w' = w_priv w") auto
  qed
  moreover have "\<forall>m \<in> set ms. fst m = ''ws'' \<or>
      (\<exists>key login rest. m = (''router'', ''service'', B_task (checked_task key login t))
        \<and> metadata_string ''user-key'' t = Inr key \<and> x_split Y key ''.'' = login # rest \<and> key \<in> grants)"
  proof (cases "foreign ms = []")
    case True
    then show ?thesis by (simp add: foreign_def filter_empty_conv)
  next
    case False
    then have "foreign (w_sent w') \<noteq> foreign (w_sent w)" using ms by simp
    from auth_hands_on [OF run this] obtain key login rest where
      k: "metadata_string ''user-key'' t = Inr key" "x_split Y key ''.'' = login # rest"
        "key_accepted Y (fst (storage_index ''profile.key'' t)) key w"
        "foreign ms = [(''router'', ''service'', B_task (checked_task key login t))]"
      using ms by auto
    have "key \<in> grants"
      using k(1,3) proved cache
      by (auto simp: key_accepted_def is_auth_def cache_ok_def um_find_None_iff)
    moreover have "fst m = ''ws'' \<or> m = (''router'', ''service'', B_task (checked_task key login t))"
      if "m \<in> set ms" for m
    proof -
      have "fst m \<noteq> ''ws'' \<Longrightarrow> m \<in> set (foreign ms)" using that by (simp add: foreign_def)
      then show ?thesis using k(4) by auto
    qed
    ultimately show ?thesis using k(1,2) by blast
  qed
  ultimately show ?thesis using ms by blast
qed

section \<open>What holds in every run\<close>

text \<open>
  The message is a request for the authentication of \<open>key\<close>, and in that world it is the key
  of the manager, or a login and the password the database has for it.
\<close>

definition proves :: "(string \<Rightarrow> 'db ext) \<Rightarrow> string \<Rightarrow> string \<Rightarrow> sent \<times> ('db, manager_state) world \<Rightarrow> bool" where
  "proves X profile key = (\<lambda>(m, w).
     case m of
       (dest, command, B_task t) \<Rightarrow>
         (dest, command) = (''users'', ''auth'') \<and> metadata_string ''user-key'' t = Inr key
         \<and> key_proved (X ''users'') profile key (part st_users w)
     | _ \<Rightarrow> False)"

definition proved_keys :: "(string \<Rightarrow> 'db ext) \<Rightarrow> string \<Rightarrow> ('db, manager_state) history \<Rightarrow> string set" where
  "proved_keys X profile h = {key. list_ex (proves X profile key) h}"

lemma proved_keys_later: "proved_keys X profile h \<subseteq> proved_keys X profile (h @ [x])"
  by (auto simp: proved_keys_def)

definition manager_inv :: "string \<Rightarrow> string set \<Rightarrow> manager_state \<Rightarrow> bool" where
  "manager_inv profile grants st \<longleftrightarrow>
     cache_ok grants (st_users st) \<and> subs_inv (st_subscriptions st) \<and> devices_inv (st_devices st)
     \<and> profile_key (st_router st) = profile"

lemma manager_inv_initial: "manager_inv profile grants (manager_initial profile manager)"
  by (simp add: manager_inv_def manager_initial_def users_inv_def subs_inv_def devices_inv_empty cache_ok_def)

lemma manager_inv_mono: "manager_inv profile grants st \<Longrightarrow> grants \<subseteq> grants' \<Longrightarrow> manager_inv profile grants' st"
  by (auto simp: manager_inv_def cache_ok_def)

lemma auth_spec:
  assumes ok: "fresh_task profile t \<or> authentic X profile grants t"
    and start: "cache_ok grants (w_priv w0)" "w_sent w0 = []"
    and proved: "\<And>key. metadata_string ''user-key'' t = Inr key \<Longrightarrow> key_proved X profile key w0 \<Longrightarrow> key \<in> grants"
    and out: "users_handle X ''auth'' (B_task t) w0 = (r, w)"
  shows "cache_ok grants (w_priv w) \<and> list_all (message_ok X profile grants) (w_sent w)"
proof -
  have "um_find ''profile.key'' (tk_storage t) = Some profile" using ok by (auto simp: fresh_task_def authentic_def)
  then have index: "fst (storage_index ''profile.key'' t) = profile" by (simp add: storage_index_def)
  from auth_sends [OF out start(1)] proved start(2) index have w: "cache_ok grants (w_priv w)"
    "\<And>m. m \<in> set (w_sent w) \<Longrightarrow> fst m = ''ws'' \<or>
      (\<exists>key login rest. m = (''router'', ''service'', B_task (checked_task key login t))
        \<and> metadata_string ''user-key'' t = Inr key \<and> x_split X key ''.'' = login # rest \<and> key \<in> grants)"
    by auto
  have "message_ok X profile grants m" if m: "m \<in> set (w_sent w)" for m
  proof (cases "fst m = ''ws''")
    case True
    then show ?thesis by (cases m) simp
  next
    case False
    with w(2) [OF m] obtain key login rest where
      k: "m = (''router'', ''service'', B_task (checked_task key login t))"
        "metadata_string ''user-key'' t = Inr key" "x_split X key ''.'' = login # rest" "key \<in> grants"
      by blast
    from checked_authentic [OF ok k(2,3,4)] k(1) show ?thesis by (simp add: message_ok_authentic)
  qed
  with w(1) show ?thesis by (simp add: list_all_iff)
qed


lemma auth_not_task: "body_task b = Inl e \<Longrightarrow> spec I Q (users_handle Y ''auth'' b) V"
  by (simp add: users_handle_def users_auth_handler_def spec_def)

lemma message_task:
  "message_ok Y profile grants (d, c, B_task t) \<Longrightarrow> d \<notin> set providers \<Longrightarrow>
     (d, c) \<notin> {(''users'', ''auth''), (''users'', ''login''), (''manager'', ''info'')} \<Longrightarrow> authentic Y profile grants t"
  by (auto simp: message_ok_def task_ok_def)

lemma program_sends:
  assumes ok: "message_ok (X ''users'') profile grants (dest, c, b)" and split: "splits_guests (X ''router'')"
    and "(dest, c) \<noteq> (''users'', ''auth'')"
  shows "spec (manager_inv profile grants) (message_ok (X ''users'') profile grants) (manager_services X (dest, c, b)) (\<lambda>_. True)"
proof -
  have task: "authentic (X ''users'') profile grants t" if "b = B_task t"
    "dest \<in> {''router'', ''connections'', ''subscriptions'', ''devices''}" for t
    using message_task [OF ok [unfolded that(1)]] that(2) by (auto simp: providers_def)
  show ?thesis
  proof (rule manager_dests [of dest])
    assume "dest = ''users''"
    with assms(3) show ?thesis
      by (simp add: manager_services_def) (rule spec_inside [OF users_sends [where grants' = grants]], simp_all add: manager_inv_def)
  next
    assume dest: "dest = ''router''"
    have "spec (\<lambda>p. profile_key p = profile) (message_ok (X ''users'') profile grants) (router_handle (X ''router'') c b) (\<lambda>_. True)"
      by (rule router_sends [OF split]) (simp add: task dest)
    then show ?thesis
      by (simp add: manager_services_def dest) (rule spec_inside, assumption, simp_all add: manager_inv_def)
  next
    assume "dest = ''groups''"
    then show ?thesis
      by (simp add: manager_services_def) (rule spec_inside [OF groups_sends], simp_all)
  next
    assume "dest = ''connections''"
    with task show ?thesis
      by (simp add: manager_services_def) (rule spec_inside [OF connections_sends], simp_all)
  next
    assume "dest = ''subscriptions''"
    with task show ?thesis
      by (simp add: manager_services_def) (rule spec_inside [OF subscriptions_sends], simp_all add: manager_inv_def)
  next
    assume "dest = ''devices''"
    with task show ?thesis
      by (simp add: manager_services_def) (rule spec_inside [OF devices_sends], simp_all add: manager_inv_def)
  next
    assume "dest = ''platform''"
    then show ?thesis
      by (simp add: manager_services_def) (rule spec_inside [OF link_sends], simp_all add: manager_inv_def)
  next
    assume "dest = ''manager''"
    then show ?thesis
      by (simp add: manager_services_def) (rule spec_inside [OF info_sends], simp_all add: manager_inv_def)
  qed (simp add: manager_services_def spec_skip)
qed

lemma auth_program:
  assumes inv: "manager_inv profile grants (w_priv w)" and sent: "w_sent w = []"
    and ok: "message_ok (X ''users'') profile grants (''users'', ''auth'', b)"
    and proved: "\<And>key. proves X profile key ((''users'', ''auth'', b), w) \<Longrightarrow> key \<in> grants"
    and run: "manager_services X (''users'', ''auth'', b) w = (Inr u, w')"
  shows "manager_inv profile grants (w_priv w') \<and> list_all (message_ok (X ''users'') profile grants) (w_sent w')"
proof -
  obtain r v where out: "users_handle (X ''users'') ''auth'' b (part st_users w) = (r, v)" by fastforce
  have w': "r = Inr u" "w_priv w' = w_priv w \<lparr>st_users := w_priv v\<rparr>" "w_sent w' = w_sent v"
    using run by (auto simp: manager_services_def inside_def out)
  obtain t where b: "b = B_task t"
    using out w'(1) by (cases b) (simp_all add: users_handle_def users_auth_handler_def)
  have "fresh_task profile t \<or> authentic (X ''users'') profile grants t"
    using ok by (simp add: b message_ok_def task_ok_def providers_def)
  moreover have "cache_ok grants (w_priv (part st_users w))" "w_sent (part st_users w) = []"
    using inv sent by (simp_all add: manager_inv_def part_def)
  moreover have "key \<in> grants" if "metadata_string ''user-key'' t = Inr key"
    "key_proved (X ''users'') profile key (part st_users w)" for key
    using that proved by (simp add: proves_def b)
  ultimately have "cache_ok grants (w_priv v) \<and> list_all (message_ok (X ''users'') profile grants) (w_sent v)"
    using auth_spec out [unfolded b] by metis
  with inv w' show ?thesis by (simp add: manager_inv_def)
qed

interpretation manager_net: network_invariant "manager_services X" manager_arrivals
  "\<lambda>h st. splits_guests (X ''router'') \<longrightarrow> manager_inv profile (proved_keys X profile h) st"
  "\<lambda>h m. splits_guests (X ''router'') \<longrightarrow> message_ok (X ''users'') profile (proved_keys X profile h) m"
  for X :: "string \<Rightarrow> 'db ext" and profile
proof (unfold_locales, goal_cases)
  case (2 h m x)
  then show ?case using message_ok_mono [OF _ proved_keys_later] by blast
next
  case (3 h w m u w')
  let ?grants = "proved_keys X profile (h @ [(m, w)])"
  obtain dest c b where m: "m = (dest, c, b)" by (cases m) auto
  have "manager_inv profile ?grants (w_priv w') \<and> list_all (message_ok (X ''users'') profile ?grants) (w_sent w')"
    if split: "splits_guests (X ''router'')"
  proof -
    have inv: "manager_inv profile ?grants (w_priv w)" using 3(1) split manager_inv_mono [OF _ proved_keys_later] by blast
    have ok: "message_ok (X ''users'') profile ?grants (dest, c, b)"
      using 3(2) split message_ok_mono [OF _ proved_keys_later] unfolding m by blast
    show ?thesis
    proof (cases "(dest, c) = (''users'', ''auth'')")
      case True
      with auth_program [OF inv 3(3), of X b u w'] ok 3(4) show ?thesis by (simp add: m proved_keys_def)
    next
      case False
      from spec_run [OF program_sends [OF ok split this] 3(4) [unfolded m] inv 3(3)] show ?thesis .
    qed
  qed
  then show ?case by (simp add: list_all_iff)
qed simp

text \<open>
  C1: no access without a key that was proved. In every state the manager can reach, each
  task on its way to a service, other than the requests for the authentication itself and the
  two that guests may send (login and information), carries a key for which the run has an
  earlier request of the authentication, at a time when it was the key of the manager, a login
  with the password the database answered for it, or a login for which the database had no
  row, with the empty password; the login in the task is that of the key, and the task bears
  the flag of the manager exactly when the key is the key of the manager. The library call that
  splits names is assumed to split the two names open to guests at the dot.
\<close>

theorem manager_access:
  assumes "net_run (manager_services X) manager_arrivals (manager_start profile manager db) h s"
    "splits_guests (X ''router'')" "(dest, command, B_task t) \<in> set (net_pending s)"
    "(dest, command) \<notin> {(''users'', ''auth''), (''users'', ''login''), (''manager'', ''info'')}"
  shows "\<exists>key login rest t1 w1. metadata_string ''user-key'' t = Inr key
    \<and> x_split (X ''users'') key ''.'' = login # rest
    \<and> um_find ''user.login'' (tk_storage t) = Some login
    \<and> um_find ''user.admin'' (tk_storage t) = Some (bool_digit (profile = key))
    \<and> ((''users'', ''auth'', B_task t1), w1) \<in> set h \<and> metadata_string ''user-key'' t1 = Inr key
    \<and> key_proved (X ''users'') profile key (part st_users w1)"
proof -
  have "dest \<notin> set providers"
    using pending_not_provider [OF assms(1) _ _ assms(3)] by (simp add: providers_def manager_arrivals_def)
  moreover have "message_ok (X ''users'') profile (proved_keys X profile h) (dest, command, B_task t)"
    using manager_net.run_keeps [OF assms(1), of profile] assms(2,3) manager_inv_initial
    by (auto simp: list_all_iff)
  ultimately have "authentic (X ''users'') profile (proved_keys X profile h) t"
    using message_task assms(4) by blast
  then obtain key login rest where k: "metadata_string ''user-key'' t = Inr key"
    "x_split (X ''users'') key ''.'' = login # rest" "um_find ''user.login'' (tk_storage t) = Some login"
    "um_find ''user.admin'' (tk_storage t) = Some (bool_digit (profile = key))" "key \<in> proved_keys X profile h"
    unfolding authentic_def by blast
  from k(5) obtain m w1 where m: "(m, w1) \<in> set h" "proves X profile key (m, w1)"
    by (auto simp: proved_keys_def list_ex_iff)
  then obtain t1 where "m = (''users'', ''auth'', B_task t1)" "metadata_string ''user-key'' t1 = Inr key"
    "key_proved (X ''users'') profile key (part st_users w1)"
    by (cases m; cases "snd (snd m)") (simp_all add: proves_def)
  with k(1-4) m(1) show ?thesis by blast
qed

lemma manager_access_witness:
  "\<exists>h s t. net_run (manager_services (\<lambda>_. demo_ext)) manager_arrivals (manager_start ''adm.x'' ''m'' (w_db demo_users)) h s
    \<and> (''router'', ''service'', B_task t) \<in> set (net_pending s)
    \<and> (\<exists>key login rest t1 w1. metadata_string ''user-key'' t = Inr key
      \<and> x_split demo_ext key ''.'' = login # rest
      \<and> um_find ''user.login'' (tk_storage t) = Some login
      \<and> um_find ''user.admin'' (tk_storage t) = Some (bool_digit (''adm.x'' = key))
      \<and> ((''users'', ''auth'', B_task t1), w1) \<in> set h \<and> metadata_string ''user-key'' t1 = Inr key
      \<and> key_proved demo_ext ''adm.x'' key (part st_users w1))"
proof -
  note run = demo_run [unfolded demo_start_def]
  have "splits_guests demo_ext" unfolding splits_guests_def by code_simp
  from manager_access [OF run this] show ?thesis using run by fastforce
qed

end
