(* ===== verification/Manager_Bodies.thy ===== *)
theory Manager_Bodies
  imports Manager_Access
begin

text \<open>
  The bodies of the messages of the manager. A body is an \<open>any\<close>, and \<open>message::body<T>\<close> is an
  unchecked cast: a handler that reads another type than the sender put in is undefined.
  Shown here: which type each handler reads, and that every message of a run has it, except
  those that a request with the key of the manager can address to handlers that read frames.
\<close>

section \<open>What the handlers read\<close>

text \<open>The handlers of each actor that read the body of their message, in the order of the code.\<close>

definition readers :: "(string \<times> (string \<times> body_kind) list) list" where
  "readers =
     [(''router'', [(''dispatcher'', Kind_transport), (''error'', Kind_transport),
         (''service'', Kind_task)]),
      (''users'', [(''add'', Kind_task), (''delete'', Kind_task), (''list'', Kind_task),
         (''login'', Kind_task), (''auth'', Kind_task)]),
      (''groups'', [(''add'', Kind_task), (''delete'', Kind_task), (''list'', Kind_task)]),
      (''connections'', [(''add'', Kind_task), (''delete'', Kind_task), (''list'', Kind_task),
         (''groups'', Kind_task), (''devices'', Kind_task), (''subscribe'', Kind_task),
         (''unsubscribe'', Kind_task)]),
      (''subscriptions'', [(''add'', Kind_task), (''delete'', Kind_task), (''list'', Kind_task),
         (''devices'', Kind_task), (''groups'', Kind_task), (''on'', Kind_task), (''off'', Kind_task),
         (''emit'', Kind_transport)]),
      (''devices'', [(''add'', Kind_task), (''delete'', Kind_task), (''list'', Kind_task),
         (''detail'', Kind_task), (''control'', Kind_task), (''connect'', Kind_task),
         (''disconnect'', Kind_task), (''request'', Kind_task), (''response'', Kind_transport),
         (''notify'', Kind_transport), (''subscribe'', Kind_task), (''unsubscribe'', Kind_task)]),
      (''platform'', [(''dispatcher'', Kind_transport), (''handshake'', Kind_transport),
         (''error'', Kind_transport), (''write'', Kind_transport)]),
      (''manager'', [(''info'', Kind_task)]),
      (''ws'', [(''write'', Kind_transport), (''close'', Kind_transport), (''remove'', Kind_transport)]),
      (''client'', [(''write'', Kind_transport), (''set_closing_message'', Kind_string)]),
      (''http'', [(''print'', Kind_transport), (''add_trusted_url'', Kind_string),
         (''remove_trusted_url'', Kind_string)])]"

definition reads :: "string \<Rightarrow> string \<Rightarrow> body_kind option" where
  "reads dest command = reads_in readers dest command"

definition typed :: "sent \<Rightarrow> bool" where
  "typed m \<longleftrightarrow> typed_in readers m"

lemma users_bad_task:
  assumes "kind_of b \<noteq> Kind_task"
  shows "users_add X b w = (Inl Undefined, w)"
    "users_delete X b w = (Inl Undefined, w)"
    "users_list X b w = (Inl Undefined, w)"
    "users_login X b w = (Inl Undefined, w)"
    "users_auth_handler X b w = (Inl Undefined, w)"
  by (unfold users_add_def users_delete_def users_list_def users_login_def users_auth_handler_def)
    (rule bad_task [OF assms])+

lemma router_bad_task:
  assumes "kind_of b \<noteq> Kind_task"
  shows "router_service X b w = (Inl Undefined, w)"
  by (unfold router_service_def)
    (rule bad_task [OF assms])+

lemma groups_bad_task:
  assumes "kind_of b \<noteq> Kind_task"
  shows "groups_add X b w = (Inl Undefined, w)"
    "groups_delete X b w = (Inl Undefined, w)"
    "groups_list X b w = (Inl Undefined, w)"
  by (unfold groups_add_def groups_delete_def groups_list_def)
    (rule bad_task [OF assms])+

lemma connections_bad_task:
  assumes "kind_of b \<noteq> Kind_task"
  shows "connections_add X b w = (Inl Undefined, w)"
    "connections_delete X b w = (Inl Undefined, w)"
    "connections_list X b w = (Inl Undefined, w)"
    "connections_groups X b w = (Inl Undefined, w)"
    "connections_devices X b w = (Inl Undefined, w)"
    "connections_subscribe X b w = (Inl Undefined, w)"
    "connections_unsubscribe X b w = (Inl Undefined, w)"
  by (unfold connections_add_def connections_delete_def connections_list_def connections_groups_def
    connections_devices_def connections_subscribe_def connections_unsubscribe_def)
    (rule bad_task [OF assms])+

lemma subscriptions_bad_task:
  assumes "kind_of b \<noteq> Kind_task"
  shows "subscriptions_add X b w = (Inl Undefined, w)"
    "subscriptions_delete X b w = (Inl Undefined, w)"
    "subscriptions_list X b w = (Inl Undefined, w)"
    "subscriptions_devices X b w = (Inl Undefined, w)"
    "subscriptions_groups X b w = (Inl Undefined, w)"
    "subscriptions_on X b w = (Inl Undefined, w)"
    "subscriptions_off X b w = (Inl Undefined, w)"
  by (unfold subscriptions_add_def subscriptions_delete_def subscriptions_list_def subscriptions_devices_def
    subscriptions_groups_def subscriptions_on_def subscriptions_off_def)
    (rule bad_task [OF assms])+

lemma devices_bad_task:
  assumes "kind_of b \<noteq> Kind_task"
  shows "devices_add X b w = (Inl Undefined, w)"
    "devices_delete X b w = (Inl Undefined, w)"
    "devices_list X b w = (Inl Undefined, w)"
    "devices_detail X b w = (Inl Undefined, w)"
    "devices_control X b w = (Inl Undefined, w)"
    "devices_connect X b w = (Inl Undefined, w)"
    "devices_disconnect X b w = (Inl Undefined, w)"
    "devices_request X b w = (Inl Undefined, w)"
    "devices_subscribe X b w = (Inl Undefined, w)"
    "devices_unsubscribe X b w = (Inl Undefined, w)"
  by (unfold devices_add_def devices_delete_def devices_list_def devices_detail_def devices_control_def
    devices_connect_def devices_disconnect_def devices_request_def devices_subscribe_def
    devices_unsubscribe_def)
    (rule bad_task [OF assms])+

lemma info_bad_task:
  assumes "kind_of b \<noteq> Kind_task"
  shows "info_handler X b w = (Inl Undefined, w)"
  by (unfold info_handler_def)
    (rule bad_task [OF assms])+

lemma router_bad_transport:
  assumes "kind_of b \<noteq> Kind_transport"
  shows "router_dispatcher X b w = (Inl Undefined, w)"
    "router_error X b w = (Inl Undefined, w)"
  by (unfold router_dispatcher_def router_error_def)
    (rule bad_transport [OF assms])+

lemma subscriptions_bad_transport:
  assumes "kind_of b \<noteq> Kind_transport"
  shows "subscriptions_emit X b w = (Inl Undefined, w)"
  by (unfold subscriptions_emit_def)
    (rule bad_transport [OF assms])+

lemma devices_bad_transport:
  assumes "kind_of b \<noteq> Kind_transport"
  shows "devices_response X b w = (Inl Undefined, w)"
    "devices_notify X b w = (Inl Undefined, w)"
  by (unfold devices_response_def devices_notify_def)
    (rule bad_transport [OF assms])+

lemma link_bad_transport:
  assumes "kind_of b \<noteq> Kind_transport"
  shows "link_dispatcher X b w = (Inl Undefined, w)"
    "link_handshake X b w = (Inl Undefined, w)"
    "link_error X b w = (Inl Undefined, w)"
    "link_write X b w = (Inl Undefined, w)"
  by (unfold link_dispatcher_def link_handshake_def link_error_def link_write_def)
    (rule bad_transport [OF assms])+

text \<open>
  Each service reads what \<open>reads\<close> says: a body of another type is undefined at once. The
  standard handlers belong to the actor, not to the service.
\<close>

lemmas bad_bodies =
  users_bad_task router_bad_task groups_bad_task connections_bad_task subscriptions_bad_task
  devices_bad_task info_bad_task router_bad_transport subscriptions_bad_transport
  devices_bad_transport link_bad_transport

lemma untyped_undefined:
  assumes "kind_of b \<noteq> k" "command \<notin> {''sync_contacts'', ''add_channel''}"
  shows "reads ''users'' command = Some k \<Longrightarrow> users_handle X command b w1 = (Inl Undefined, w1)"
    "reads ''router'' command = Some k \<Longrightarrow> router_handle X command b w2 = (Inl Undefined, w2)"
    "reads ''groups'' command = Some k \<Longrightarrow> groups_handle X command b w3 = (Inl Undefined, w3)"
    "reads ''connections'' command = Some k \<Longrightarrow> connections_handle X command b w3 = (Inl Undefined, w3)"
    "reads ''subscriptions'' command = Some k \<Longrightarrow> subscriptions_handle X command b w4 = (Inl Undefined, w4)"
    "reads ''devices'' command = Some k \<Longrightarrow> devices_handle X command b w5 = (Inl Undefined, w5)"
    "reads ''platform'' command = Some k \<Longrightarrow> link_handle X command b w6 = (Inl Undefined, w6)"
    "reads ''manager'' command = Some k \<Longrightarrow> info_handle X command b w7 = (Inl Undefined, w7)"
  using assms
  by (auto simp: reads_def reads_in_def readers_def bad_bodies users_handle_def router_handle_def groups_handle_def
      connections_handle_def subscriptions_handle_def devices_handle_def link_handle_def info_handle_def
      split: if_splits)


section \<open>What the services send\<close>

text \<open>Of \<open>boost::algorithm::split\<close>: the methods of guests and users are cut at their dots.\<close>

definition splits_methods :: "'db ext \<Rightarrow> bool" where
  "splits_methods Y \<longleftrightarrow>
     list_all (\<lambda>m. x_split Y m ''.'' = split_at (CHR ''.'') m) (get_quest_method_list @ get_user_method_list)"

text \<open>The storage of the task names the two parts of its method.\<close>

definition addressed :: "'db ext \<Rightarrow> task \<Rightarrow> bool" where
  "addressed Y t \<longleftrightarrow>
     (case x_split Y (req_method (tk_request t)) ''.'' of
        svc # meth # _ \<Rightarrow> um_find ''service.name'' (tk_storage t) = Some svc
          \<and> um_find ''service.method'' (tk_storage t) = Some meth
      | _ \<Rightarrow> False)"

text \<open>Tasks a request with the key of the manager can send to handlers that read something else.\<close>

definition misaddressed :: "sent \<Rightarrow> bool" where
  "misaddressed m \<longleftrightarrow>
     (case m of
        (dest, command, B_task t) \<Rightarrow>
          um_find ''user.admin'' (tk_storage t) = Some ''1''
          \<and> ((dest, command) \<in> {(''devices'', ''response''), (''devices'', ''notify''), (''subscriptions'', ''emit'')}
             \<or> command \<in> {''sync_contacts'', ''add_channel''})
      | _ \<Rightarrow> False)"

definition flows :: "'db ext \<Rightarrow> sent \<Rightarrow> bool" where
  "flows Y m \<longleftrightarrow>
     (typed m \<or> misaddressed m)
     \<and> (case m of
          (dest, command, B_task t) \<Rightarrow>
            (dest, command) \<in> {(''users'', ''auth''), (''router'', ''service'')} \<longrightarrow> addressed Y t
        | _ \<Rightarrow> True)"

lemmas flow_defs = flows_def typed_def typed_in_def reads_in_def readers_def

lemma flows_ws [simp]:
  "flows Y (''ws'', ''write'', B_transport tr)" "flows Y (''ws'', ''close'', B_transport tr)"
  "flows Y (''ws'', ''remove'', B_transport tr)"
  by (simp_all add: flow_defs)

lemma flows_client [simp]:
  "flows Y (''client'', ''write'', B_transport tr)" "flows Y (''client'', ''close'', b)"
  "flows Y (''client'', ''reconnect'', B_string str)" "flows Y (''client'', ''set_closing_message'', B_string str)"
  by (simp_all add: flow_defs split: body.split)

lemma flows_transport [simp]:
  "flows Y (''router'', ''dispatcher'', B_transport tr)" "flows Y (''devices'', ''response'', B_transport tr)"
  "flows Y (''devices'', ''notify'', B_transport tr)" "flows Y (''subscriptions'', ''emit'', B_transport tr)"
  by (simp_all add: flow_defs)

lemma flows_task [simp]:
  "flows Y (''subscriptions'', ''groups'', B_task t)" "flows Y (''subscriptions'', ''on'', B_task t)"
  "flows Y (''subscriptions'', ''off'', B_task t)" "flows Y (''devices'', ''request'', B_task t)"
  "flows Y (''connections'', ''groups'', B_task t)" "flows Y (''connections'', ''devices'', B_task t)"
  "flows Y (''connections'', ''subscribe'', B_task t)" "flows Y (''connections'', ''unsubscribe'', B_task t)"
  by (simp_all add: flow_defs)

lemma flows_arrival: "(dest, command) \<in> set manager_arrivals \<Longrightarrow> flows Y (dest, command, B_transport tr)"
  by (simp add: manager_arrivals_def) (elim disjE; simp add: flow_defs)

lemmas flow_rules = flows_ws flows_client flows_transport flows_task

lemma groups_flow: "spec (\<lambda>_. True) (flows Z) (groups_handle Y c b) (\<lambda>_. True)"
  by (unfold groups_handle_def groups_add_def groups_delete_def groups_list_def Let_def)
    (rule spec_message_rules TrueI flow_rules | assumption)+

lemma info_flow: "spec (\<lambda>_. True) (flows Z) (info_handle Y c b) (\<lambda>_. True)"
  by (unfold info_handle_def info_handler_def Let_def) (rule spec_message_rules TrueI flow_rules | assumption)+

lemma link_flow: "spec (\<lambda>_. True) (flows Z) (link_handle Y c b) (\<lambda>_. True)"
  by (unfold link_handle_def link_dispatcher_def link_handshake_def link_error_def link_write_def
      read_message_def Let_def)
    (rule spec_message_rules TrueI flow_rules | assumption)+

lemma connections_flow: "spec (\<lambda>_. True) (flows Z) (connections_handle Y c b) (\<lambda>_. True)"
  by (unfold connections_handle_def connections_add_def connections_delete_def connections_list_def
      connections_groups_def connections_devices_def connections_subscribe_def connections_unsubscribe_def
      device_groups_def Let_def)
    (rule spec_message_rules TrueI flow_rules | assumption)+

lemma devices_flow: "spec devices_inv (flows Z) (devices_handle Y c b) (\<lambda>_. True)"
  by (unfold devices_handle_def devices_add_def devices_delete_def devices_list_def devices_detail_def
      devices_control_def devices_connect_def devices_disconnect_def devices_request_def devices_response_def
      devices_notify_def devices_subscribe_def devices_unsubscribe_def read_message_def write_ws_def Let_def)
    (rule spec_message_rules TrueI flow_rules devices_inv_add devices_inv_remove | assumption)+

lemma subscriptions_flow: "spec subs_inv (flows Z) (subscriptions_handle Y c b) (\<lambda>_. True)"
  by (unfold subscriptions_handle_def subscriptions_add_def subscriptions_delete_def
      subscriptions_list_def subscriptions_devices_def subscriptions_groups_def subscriptions_on_def
      subscriptions_off_def subscriptions_emit_def read_message_def Let_def)
    (rule spec_subscribe_transport spec_emit_all spec_off_update spec_message_rules TrueI flow_rules | assumption)+


text \<open>What keeps the request and these entries of the storage keeps the address.\<close>

lemma addressedE:
  assumes "addressed Y t"
  obtains svc meth rest where "x_split Y (req_method (tk_request t)) ''.'' = svc # meth # rest"
    "um_find ''service.name'' (tk_storage t) = Some svc" "um_find ''service.method'' (tk_storage t) = Some meth"
  using assms by (auto simp: addressed_def split: list.splits)

lemma addressedI:
  "x_split Y (req_method (tk_request t)) ''.'' = svc # meth # rest \<Longrightarrow> um_find ''service.name'' (tk_storage t) = Some svc \<Longrightarrow>
     um_find ''service.method'' (tk_storage t) = Some meth \<Longrightarrow> addressed Y t"
  by (simp add: addressed_def)

lemma addressed_index: "storage_index k t = (v, u) \<Longrightarrow> addressed Y t \<Longrightarrow> addressed Y u"
  by (elim addressedE, rule addressedI) (simp_all add: storage_index_request storage_index_keeps)

lemma addressed_checked:
  assumes "addressed Y t" shows "addressed Y (checked_task key login t)"
proof -
  obtain profile u where u: "storage_index ''profile.key'' t = (profile, u)" by fastforce
  from addressed_index [OF u assms] obtain svc meth rest where
    "x_split Y (req_method (tk_request u)) ''.'' = svc # meth # rest"
    "um_find ''service.name'' (tk_storage u) = Some svc" "um_find ''service.method'' (tk_storage u) = Some meth"
    by (rule addressedE)
  then show ?thesis
    by (intro addressedI) (simp_all add: checked_task_def u um_find_storage)
qed

lemma addressed_names:
  assumes "addressed Y t" "storage_index ''service.name'' t = (svc, t1)" "storage_index ''service.method'' t1 = (meth, t2)"
  shows "\<exists>rest. x_split Y (req_method (tk_request t)) ''.'' = svc # meth # rest"
proof -
  from assms(1) obtain s m rest where a: "x_split Y (req_method (tk_request t)) ''.'' = s # m # rest"
    "um_find ''service.name'' (tk_storage t) = Some s" "um_find ''service.method'' (tk_storage t) = Some m"
    by (rule addressedE)
  have "svc = s" using storage_index_value [OF assms(2) a(2)] .
  moreover have "meth = m" using storage_index_value [OF assms(3) storage_index_keeps [OF assms(2) a(3)]] .
  ultimately show ?thesis using a(1) by simp
qed

lemma user_methods_typed:
  assumes "splits_methods Y" "m \<in> set get_user_method_list \<union> set get_quest_method_list" "x_split Y m ''.'' = svc # meth # rest"
  shows "reads svc meth = Some Kind_task \<and> (svc, meth) \<notin> {(''users'', ''auth''), (''router'', ''service'')}"
proof -
  have "svc # meth # rest = split_at (CHR ''.'') m" using assms by (auto simp: splits_methods_def list_all_iff)
  with assms(2) show ?thesis
    by (simp add: get_user_method_list_def get_quest_method_list_def)
      (elim disjE; simp add: reads_def reads_in_def readers_def)
qed


lemma admin_flow:
  assumes "svc \<in> set get_service_list" "um_find ''user.admin'' (tk_storage u) = Some ''1''" "addressed Y u"
  shows "flows Y (svc, meth, B_task u)"
proof -
  have "svc \<in> {''users'', ''devices'', ''groups'', ''subscriptions'', ''connections''}"
    using assms(1) by (auto simp: get_service_list_def)
  then have "reads svc meth \<in> {None, Some Kind_task}
      \<or> ((svc, meth) \<in> {(''devices'', ''response''), (''devices'', ''notify''), (''subscriptions'', ''emit'')}
          \<or> meth \<in> {''sync_contacts'', ''add_channel''})"
    by (simp only: insert_iff empty_iff) (elim disjE FalseE; simp add: reads_def reads_in_def readers_def)
  then have "typed (svc, meth, B_task u) \<or> misaddressed (svc, meth, B_task u)"
    using assms(2) unfolding typed_def typed_in_def reads_def misaddressed_def by (elim disjE) auto
  with assms(3) show ?thesis by (simp add: flows_def)
qed

lemma user_flow:
  assumes "splits_methods Y" "req_method (tk_request u) \<in> set get_user_method_list \<union> set get_quest_method_list"
    "x_split Y (req_method (tk_request u)) ''.'' = svc # meth # rest"
  shows "flows Y (svc, meth, B_task u)"
  using user_methods_typed [OF assms] by (auto simp: flows_def typed_def typed_in_def reads_def)

lemma dispatch_flow:
  assumes "splits_methods Y"
  shows "spec (\<lambda>_. True) (flows Y) (dispatch_request Y i m) (\<lambda>_. True)"
proof -
  have "spec (\<lambda>_. True) (flows Y)
      (let t = new_task i r; dispatcher = x_split Y (req_method r) ''.'' in
       if length dispatcher > 1 then
         bindA get_priv (\<lambda>p.
         let service_name = dispatcher ! 0;
             method_name = dispatcher ! 1;
             t = storage_emplace ''service.name'' service_name t;
             t = storage_emplace ''service.method'' method_name t;
             t = storage_emplace ''profile.key'' (profile_key p) t
         in if contains (req_metadata r) ''user-key'' then send Y ''users'' ''auth'' (B_task t)
            else if req_method r \<in> set get_quest_method_list then send Y service_name method_name (B_task t)
            else reply_error Y t ''access is denied'')
       else reply_error Y t ''not specified correctly method'') (\<lambda>_. True)" for r
  proof (cases "length (x_split Y (req_method r) ''.'') > 1")
    case True
    then obtain svc meth rest where split: "x_split Y (req_method r) ''.'' = svc # meth # rest"
      using split_parts by blast
    have auth: "flows Y (''users'', ''auth'', B_task (storage_emplace ''profile.key'' p (storage_emplace ''service.method'' meth
        (storage_emplace ''service.name'' svc (new_task i r)))))" for p
      using split by (simp add: flow_defs addressed_def um_find_storage new_task_def)
    have guest: "flows Y (svc, meth, B_task (storage_emplace ''profile.key'' p (storage_emplace ''service.method'' meth
        (storage_emplace ''service.name'' svc (new_task i r)))))" if "req_method r \<in> set get_quest_method_list" for p
      using that split by (intro user_flow [OF assms]) (simp_all add: new_task_def)
    show ?thesis
      unfolding Let_def using True split
      by (simp del: One_nat_def) (rule spec_get_priv, simp,
        intro conjI impI spec_send spec_reply_error auth guest flow_rules; simp)
  next
    case False
    then show ?thesis by (simp add: Let_def spec_reply_error)
  qed
  then show ?thesis unfolding dispatch_request_def by (rule spec_any_bind_lift)
qed

lemma service_flow:
  assumes "splits_methods Y" "addressed Y t"
  shows "spec (\<lambda>_. True) (flows Y) (router_service Y (B_task t)) (\<lambda>_. True)"
proof -
  obtain svc t1 where s1: "storage_index ''service.name'' t = (svc, t1)" by fastforce
  obtain meth t2 where s2: "storage_index ''service.method'' t1 = (meth, t2)" by fastforce
  obtain admin t3 where s3: "storage_index ''user.admin'' t2 = (admin, t3)" by fastforce
  note t3 = addressed_index [OF s3 addressed_index [OF s2 addressed_index [OF s1 assms(2)]]]
  obtain rest where split: "x_split Y (req_method (tk_request t)) ''.'' = svc # meth # rest"
    using addressed_names [OF assms(2) s1 s2] by blast
  have req: "tk_request t3 = tk_request t" by (simp add: storage_index_request [OF s1] storage_index_request [OF s2] storage_index_request [OF s3])
  have manager: "flows Y (svc, meth, B_task t3)" if "svc \<in> set get_service_list" "admin = ''1''"
  proof (rule admin_flow [OF that(1) _ t3])
    show "um_find ''user.admin'' (tk_storage t3) = Some ''1''"
      using s3 that(2) by (auto simp: storage_index_def split: option.splits)
  qed
  have user: "flows Y (svc, meth, B_task t3)" if "req_method (tk_request t3) \<in> set get_user_method_list"
    using that split req by (intro user_flow [OF assms(1)]) simp_all
  show ?thesis
    unfolding router_service_def body_task.simps bindA_lift Let_def s1 s2 s3 prod.case
    by (rule spec_if_cases spec_case_option spec_lift_any spec_reply_error spec_send manager user flow_rules TrueI
        | assumption)+
qed

lemma router_flow:
  assumes "splits_methods Y" "\<And>t. c = ''service'' \<Longrightarrow> b = B_task t \<Longrightarrow> addressed Y t"
  shows "spec (\<lambda>_. True) (flows Y) (router_handle Y c b) (\<lambda>_. True)"
proof -
  have dispatcher: "spec (\<lambda>_. True) (flows Y) (router_dispatcher Y b) (\<lambda>_. True)"
    unfolding router_dispatcher_def read_message_def
    by (rule dispatch_flow [OF assms(1)] spec_message_rules TrueI flow_rules | assumption)+
  have service: "spec (\<lambda>_. True) (flows Y) (router_service Y b) (\<lambda>_. True)" if "c = ''service''"
    using that assms service_flow [OF assms(1)] by (cases b) (auto simp: router_service_def spec_def)
  have "spec (\<lambda>_. True) (flows Y) (router_error Y b) (\<lambda>_. True)"
    unfolding router_error_def by (rule spec_message_rules TrueI flow_rules | assumption)+
  with dispatcher service show ?thesis by (simp add: router_handle_def spec_skip)
qed

lemma users_flow:
  assumes "c \<noteq> ''auth''"
  shows "spec users_inv (flows Z) (users_handle Y c b) (\<lambda>_. True)"
  using assms
  by (simp add: users_handle_def)
    ((unfold users_add_def users_delete_def users_list_def users_login_def select_user_def Let_def)?,
     intro conjI impI; (rule spec_message_rules TrueI flow_rules users_inv_step | assumption)+)


lemma auth_flow:
  assumes "addressed Z t"
  shows "spec users_inv (flows Z) (users_handle Y ''auth'' (B_task t)) (\<lambda>_. True)"
proof -
  obtain profile u where u: "storage_index ''profile.key'' t = (profile, u)" by fastforce
  from addressed_index [OF u assms] have "addressed Z (storage_emplace ''user.login'' l (storage_set ''user.admin'' a u))" for l a
    by (elim addressedE, intro addressedI) (simp_all add: um_find_storage)
  then have router: "flows Z (''router'', ''service'', B_task (storage_emplace ''user.login'' l (storage_set ''user.admin'' a u)))" for l a
    by (simp add: flow_defs)
  have "spec users_inv (flows Z) (users_auth_handler Y (B_task t)) (\<lambda>_. True)"
    unfolding users_auth_handler_def body_task.simps bindA_lift u prod.case Let_def select_user_def
    by (rule spec_message_rules TrueI flow_rules users_inv_step router | assumption)+
  then show ?thesis by (simp add: users_handle_def)
qed

section \<open>Every message of a run\<close>

definition states_inv :: "manager_state \<Rightarrow> bool" where
  "states_inv st \<longleftrightarrow> users_inv (st_users st) \<and> subs_inv (st_subscriptions st) \<and> devices_inv (st_devices st)"

lemma states_inv_initial: "states_inv (manager_initial profile manager)"
  by (simp add: states_inv_def manager_initial_def users_inv_def subs_inv_def devices_inv_empty)

lemma program_flow:
  assumes ok: "flows (X ''router'') (dest, c, b)" and split: "splits_methods (X ''router'')"
  shows "spec states_inv (flows (X ''router'')) (manager_services X (dest, c, b)) (\<lambda>_. True)"
proof -
  have task: "addressed (X ''router'') t" if "b = B_task t" "(dest, c) \<in> {(''users'', ''auth''), (''router'', ''service'')}" for t
    using ok that by (auto simp: flows_def)
  show ?thesis
  proof (rule manager_dests [of dest])
    assume dest: "dest = ''users''"
    have "spec users_inv (flows (X ''router'')) (users_handle (X ''users'') c b) (\<lambda>_. True)"
    proof (cases "c = ''auth''")
      case True
      show ?thesis
      proof (cases "body_task b")
        case (Inl e)
        then show ?thesis using auth_not_task True by simp
      next
        case (Inr t)
        then have "b = B_task t" by (cases b) simp_all
        with True dest task auth_flow show ?thesis by blast
      qed
    qed (rule users_flow)
    then show ?thesis
      by (simp add: manager_services_def dest) (rule spec_inside, assumption, simp_all add: states_inv_def)
  next
    assume dest: "dest = ''router''"
    have "spec (\<lambda>_. True) (flows (X ''router'')) (router_handle (X ''router'') c b) (\<lambda>_. True)"
      using router_flow [OF split] task dest by blast
    then show ?thesis
      by (simp add: manager_services_def dest) (rule spec_inside, assumption, simp_all add: states_inv_def)
  next
    assume "dest = ''groups''"
    then show ?thesis by (simp add: manager_services_def) (rule spec_inside [OF groups_flow], simp_all)
  next
    assume "dest = ''connections''"
    then show ?thesis by (simp add: manager_services_def) (rule spec_inside [OF connections_flow], simp_all)
  next
    assume "dest = ''subscriptions''"
    then show ?thesis
      by (simp add: manager_services_def) (rule spec_inside [OF subscriptions_flow], simp_all add: states_inv_def)
  next
    assume "dest = ''devices''"
    then show ?thesis
      by (simp add: manager_services_def) (rule spec_inside [OF devices_flow], simp_all add: states_inv_def)
  next
    assume "dest = ''platform''"
    then show ?thesis
      by (simp add: manager_services_def) (rule spec_inside [OF link_flow], simp_all add: states_inv_def)
  next
    assume "dest = ''manager''"
    then show ?thesis
      by (simp add: manager_services_def) (rule spec_inside [OF info_flow], simp_all add: states_inv_def)
  qed (simp add: manager_services_def spec_skip)
qed

interpretation manager_flow: network_invariant "manager_services X" manager_arrivals
  "\<lambda>h st. splits_methods (X ''router'') \<longrightarrow> states_inv st"
  "\<lambda>h m. splits_methods (X ''router'') \<longrightarrow> flows (X ''router'') m"
  for X :: "string \<Rightarrow> 'db ext"
proof (unfold_locales, goal_cases)
  case (1 dest command h tr)
  then show ?case by (simp add: flows_arrival)
next
  case (3 h w m u w')
  obtain dest c b where m: "m = (dest, c, b)" by (cases m) auto
  from program_flow [of X dest c b] 3 show ?case by (fastforce simp: spec_def m list_all_iff)
qed simp

text \<open>
  C4: the bodies of the messages have the types their handlers read. In every state the
  manager can reach, each message under way, and each message that went to a provider, has
  the body type that its handler takes out by an unchecked cast. The only exceptions are
  tasks that bear the flag of the manager and are addressed to the three handlers of
  services that read frames, or to a standard handler of an actor.
\<close>

theorem messages_typed:
  assumes "net_run (manager_services X) manager_arrivals (manager_start profile manager db) h s"
    "splits_methods (X ''router'')" "m \<in> set (net_pending s @ net_out s)"
  shows "typed m \<or> misaddressed m"
proof -
  have "flows (X ''router'') m"
    using manager_flow.run_keeps [OF assms(1)] assms(2,3) states_inv_initial by (simp add: list_all_iff)
  then show ?thesis by (simp add: flows_def)
qed

lemma messages_typed_witness:
  "\<exists>h s m. net_run (manager_services (\<lambda>_. demo_ext)) manager_arrivals (manager_start ''adm.x'' ''m'' (w_db demo_users)) h s
     \<and> m \<in> set (net_pending s @ net_out s) \<and> (typed m \<or> misaddressed m)"
proof -
  note run = demo_run [unfolded demo_start_def]
  have "splits_methods demo_ext" unfolding splits_methods_def by code_simp
  from messages_typed [OF run this] show ?thesis using run by fastforce
qed

text \<open>
  Those exceptions happen. With the key of the manager, a request for
  \<open>devices.response\<close> passes the router, which knows the handler from the commands of the
  service, and the handler reads the task as a transport: undefined behaviour.
\<close>

lemma task_reaches_frame_handler:
  assumes "um_find ''service.name'' (tk_storage t) = Some ''devices''"
    "um_find ''service.method'' (tk_storage t) = Some ''response''"
    "um_find ''user.admin'' (tk_storage t) = Some ''1''"
    "x_contacts X ''devices'' = Some types" "''response'' \<in> set types"
  shows "router_handle X ''service'' (B_task t) w =
      (Inr (), w \<lparr>w_sent := w_sent w @ [(''devices'', ''response'', B_task t)]\<rparr>)
    \<and> devices_handle Y ''response'' (B_task t) w2 = (Inl Undefined, w2)"
proof
  have "storage_index ''service.name'' t = (''devices'', t)" "storage_index ''service.method'' t = (''response'', t)"
    "storage_index ''user.admin'' t = (''1'', t)"
    using assms(1-3) by (simp_all add: storage_index_def)
  then show "router_handle X ''service'' (B_task t) w =
      (Inr (), w \<lparr>w_sent := w_sent w @ [(''devices'', ''response'', B_task t)]\<rparr>)"
    using assms(4,5) by (simp add: router_handle_def router_service_def Let_def get_service_list_def send_def)
  show "devices_handle Y ''response'' (B_task t) w2 = (Inl Undefined, w2)"
    by (rule untyped_undefined(6) [of _ Kind_transport]) (simp_all add: reads_def reads_in_def readers_def)
qed

lemma task_reaches_frame_handler_witness:
  "let t = demo_task [] JNull [(''service.name'', ''devices''), (''service.method'', ''response''), (''user.admin'', ''1'')];
       Z = demo_ext \<lparr>x_contacts := (\<lambda>_. Some [''list'', ''response''])\<rparr> in
   router_handle Z ''service'' (B_task t) demo_router =
      (Inr (), demo_router \<lparr>w_sent := w_sent demo_router @ [(''devices'', ''response'', B_task t)]\<rparr>)
    \<and> devices_handle Z ''response'' (B_task t) demo_devices = (Inl Undefined, demo_devices)"
  unfolding Let_def
  by (rule task_reaches_frame_handler [where types = "[''list'', ''response'']"])
    (simp_all add: demo_task_def um_find_Cons)

end
