(* ===== verification/Platform_Net.thy ===== *)
theory Platform_Net
  imports Network Platform Device
begin

text \<open>
  The platform as a network of its four services: \<open>init_service\<close> of
  \<open>stream-platform/src/platform.cpp\<close>. In every run, a task on its way to a service has a
  profile key that was proved, and every manager that is registered was connected by the
  profile that owns it.
\<close>

section \<open>The program\<close>

record platform_state =
  pl_profile :: profile_impl
  pl_managers :: managers_impl
  pl_info :: info_impl

definition platform_services :: "(string \<Rightarrow> 'db ext) \<Rightarrow> sent \<Rightarrow> ('db, platform_state, unit) act" where
  "platform_services X m =
     (case m of (dest, command, b) \<Rightarrow>
      if dest = ''router'' then inside (\<lambda>_. ()) (\<lambda>_ st. st) (platform_handle (X dest) command b)
      else if dest = ''profile'' then
        inside pl_profile (\<lambda>p st. st \<lparr>pl_profile := p\<rparr>) (profile_handle (X dest) command b)
      else if dest = ''managers'' then
        inside pl_managers (\<lambda>p st. st \<lparr>pl_managers := p\<rparr>) (managers_handle (X dest) command b)
      else if dest = ''manager'' then inside pl_info (\<lambda>p st. st \<lparr>pl_info := p\<rparr>) (info_handle (X dest) command b)
      else skipA)"

definition platform_initial :: "string \<Rightarrow> platform_state" where
  "platform_initial manager =
     \<lparr>pl_profile = \<lparr>profiles_auth = []\<rparr>, pl_managers = \<lparr>managers_reg = []\<rparr>, pl_info = \<lparr>info_manager_key = manager\<rparr>\<rparr>"

definition platform_start :: "string \<Rightarrow> 'db \<Rightarrow> ('db, platform_state) network" where
  "platform_start manager db = \<lparr>net_db = db, net_state = platform_initial manager, net_pending = [], net_out = []\<rparr>"

definition platform_arrivals :: "(string \<times> string) list" where
  "platform_arrivals = [(''router'', ''dispatcher''), (''router'', ''error'')]"

lemma platform_startup_states:
  "profile_startup Y w = (Inr (), w') \<Longrightarrow> w_priv w' = pl_profile (platform_initial manager)"
  "managers_startup Y w2 = (Inr (), w2') \<Longrightarrow> w_priv w2' = pl_managers (platform_initial manager)"
  by (auto simp: platform_initial_def profile_startup_def managers_startup_def thenA_def bindA_def put_priv_def
      split: prod.splits sum.splits)

lemma platform_start_simps [simp]:
  "net_pending (platform_start manager db) = []" "net_out (platform_start manager db) = []"
  "net_state (platform_start manager db) = platform_initial manager"
  by (simp_all add: platform_start_def)

lemma platform_dests:
  obtains "dest = ''router''" | "dest = ''profile''" | "dest = ''managers''" | "dest = ''manager''"
    | "dest \<notin> {''router'', ''profile'', ''managers'', ''manager''}"
  unfolding insert_iff empty_iff by argo

section \<open>Authenticated tasks\<close>

definition profile_password :: "'db ext \<Rightarrow> string \<Rightarrow> ('db, profile_impl) world \<Rightarrow> string option" where
  "profile_password X login w =
     (case fst (select_profile X login w) of Inr (_, password) \<Rightarrow> Some password | Inl _ \<Rightarrow> None)"

text \<open>The key is a login and the password the database has for it.\<close>

definition profile_proved :: "'db ext \<Rightarrow> string \<Rightarrow> ('db, profile_impl) world \<Rightarrow> bool" where
  "profile_proved X key w \<longleftrightarrow>
     (case x_split X key ''.'' of
        login # password # _ \<Rightarrow> profile_password X login w = Some password
      | _ \<Rightarrow> False)"

definition of_profile :: "'db ext \<Rightarrow> string set \<Rightarrow> task \<Rightarrow> bool" where
  "of_profile X grants t \<longleftrightarrow>
     (\<exists>key login rest. metadata_string ''profile-key'' t = Inr key \<and> x_split X key ''.'' = login # rest
        \<and> key \<in> grants \<and> um_find ''profile.login'' (tk_storage t) = Some login)"

definition open_handlers :: "(string \<times> string) list" where
  "open_handlers =
     [(''profile'', ''auth''), (''profile'', ''signup''), (''profile'', ''login''), (''manager'', ''info''), (''managers'', ''request'')]"

text \<open>A task for the check has no login yet, or has been checked.\<close>

definition platform_ok :: "'db ext \<Rightarrow> string set \<Rightarrow> sent \<Rightarrow> bool" where
  "platform_ok X grants m \<longleftrightarrow>
     (case m of
        (dest, command, B_task t) \<Rightarrow>
          dest \<in> set providers
          \<or> (if (dest, command) = (''profile'', ''auth'')
              then um_find ''profile.login'' (tk_storage t) = None \<or> of_profile X grants t
              else (dest, command) \<in> set open_handlers \<or> of_profile X grants t)
      | _ \<Rightarrow> True)"

lemma platform_ok_other [simp]:
  "platform_ok X grants (''ws'', c, b)" "platform_ok X grants (''http'', c, b)"
  "platform_ok X grants (d, c, B_transport tr)" "platform_ok X grants (d, c, B_string s)"
  "platform_ok X grants (''managers'', ''request'', B_task t)"
  by (simp_all add: platform_ok_def providers_def open_handlers_def split: body.split)

lemma platform_ok_profile: "of_profile X grants t \<Longrightarrow> platform_ok X grants (d, c, B_task t)"
  by (simp add: platform_ok_def)

lemma of_profile_mono: "of_profile X grants t \<Longrightarrow> grants \<subseteq> grants' \<Longrightarrow> of_profile X grants' t"
  unfolding of_profile_def by blast

lemma platform_ok_mono: "platform_ok X grants m \<Longrightarrow> grants \<subseteq> grants' \<Longrightarrow> platform_ok X grants' m"
  using of_profile_mono [of X grants _ grants']
  by (auto simp: platform_ok_def split: prod.splits body.splits if_splits)

lemma of_profile_index:
  assumes "of_profile X grants t" "storage_index k t = (v, u)"
  shows "of_profile X grants u"
proof -
  have "metadata_string key u = metadata_string key t" for key
    using storage_index_request [OF assms(2)] by (simp add: metadata_string_def)
  with assms(1) storage_index_keeps [OF assms(2)] show ?thesis unfolding of_profile_def by metis
qed


section \<open>What each service sends\<close>

text \<open>Of \<open>boost::algorithm::split\<close>: the methods of guests are cut at their dots.\<close>

definition splits_open :: "'db ext \<Rightarrow> bool" where
  "splits_open Y \<longleftrightarrow> list_all (\<lambda>m. x_split Y m ''.'' = split_at (CHR ''.'') m) platform_quest_list"

lemma open_parts:
  assumes "splits_open Y" "m \<in> set platform_quest_list" "x_split Y m ''.'' = svc # meth # rest"
  shows "(svc, meth) \<in> {(''profile'', ''signup''), (''profile'', ''login''), (''manager'', ''info'')}"
proof -
  have "svc # meth # rest = split_at (CHR ''.'') m" using assms by (auto simp: splits_open_def list_all_iff)
  with assms(2) show ?thesis by (simp add: platform_quest_list_def) (elim disjE; simp)
qed

lemmas platform_rules = spec_message_rules TrueI platform_ok_other

lemma platform_dispatch_sends:
  assumes "splits_open Y"
  shows "spec (\<lambda>_. True) (platform_ok X grants) (platform_dispatch Y i m) (\<lambda>_. True)"
proof -
  have "spec (\<lambda>_. True) (platform_ok X grants)
     (let t = platform_task i r in
     if contains (req_metadata r) ''manager-key'' then send Y ''managers'' ''request'' (B_task t)
     else
       (let dispatcher = x_split Y (req_method r) ''.'' in
        if length dispatcher > 1 then
          (let service_name = dispatcher ! 0;
               method_name = dispatcher ! 1;
               t = storage_emplace ''service.name'' service_name t;
               t = storage_emplace ''service.method'' method_name t
           in if contains (req_metadata r) ''profile-key'' then send Y ''profile'' ''auth'' (B_task t)
              else if req_method r \<in> set platform_quest_list then send Y service_name method_name (B_task t)
              else reply_error Y t ''access is denied'')
        else reply_error Y t ''not specified correctly method'')) (\<lambda>_. True)" for r
  proof (cases "length (x_split Y (req_method r) ''.'') > 1")
    case True
    then obtain rest where split: "x_split Y (req_method r) ''.'' =
        x_split Y (req_method r) ''.'' ! 0 # x_split Y (req_method r) ''.'' ! 1 # rest"
      using platform_split by blast
    have auth: "platform_ok X grants (''profile'', ''auth'', B_task (storage_emplace ''service.method'' meth
        (storage_emplace ''service.name'' svc (platform_task i r))))" for svc meth
      by (simp add: platform_ok_def um_find_storage platform_task_def)
    have guest: "platform_ok X grants (x_split Y (req_method r) ''.'' ! 0, x_split Y (req_method r) ''.'' ! 1, B_task t)"
      if "req_method r \<in> set platform_quest_list" for t
      using open_parts [OF assms that split] by (auto simp: platform_ok_def open_handlers_def)
    show ?thesis
      unfolding Let_def by (rule spec_if_cases spec_send spec_reply_error auth guest platform_rules | assumption)+
  next
    case False
    then show ?thesis
      unfolding Let_def by (intro spec_if_cases spec_send spec_reply_error platform_rules) simp_all
  qed
  then show ?thesis unfolding platform_dispatch_def by (rule spec_any_bind_lift)
qed

lemma platform_router_sends:
  assumes "splits_open Y" "\<And>t. b = B_task t \<Longrightarrow> of_profile X grants t"
  shows "spec (\<lambda>_. True) (platform_ok X grants) (platform_handle Y c b) (\<lambda>_. True)"
proof -
  have dispatcher: "spec (\<lambda>_. True) (platform_ok X grants) (platform_dispatcher Y b) (\<lambda>_. True)"
    unfolding platform_dispatcher_def read_message_def
    by (rule platform_dispatch_sends [OF assms(1)] platform_rules | assumption)+
  have service: "spec (\<lambda>_. True) (platform_ok X grants) (platform_service Y b) (\<lambda>_. True)"
  proof (cases "body_task b")
    case (Inl e)
    then show ?thesis unfolding platform_service_def by (simp add: spec_def)
  next
    case (Inr t)
    then have b: "b = B_task t" by (cases b) simp_all
    obtain svc t1 where s1: "storage_index ''service.name'' t = (svc, t1)" by fastforce
    obtain meth t2 where s2: "storage_index ''service.method'' t1 = (meth, t2)" by fastforce
    have "of_profile X grants t2" using of_profile_index [OF of_profile_index [OF assms(2) [OF b] s1] s2] .
    then show ?thesis
      unfolding platform_service_def b body_task.simps bindA_lift Let_def s1 s2 prod.case
      by (intro spec_if spec_case_option spec_lift_any spec_reply_error spec_send platform_ok_profile platform_rules)
  qed
  have "spec (\<lambda>_. True) (platform_ok X grants) (platform_error Y b) (\<lambda>_. True)"
    unfolding platform_error_def by (rule platform_rules | assumption)+
  with dispatcher service show ?thesis by (simp add: platform_handle_def spec_skip)
qed

lemma managers_sends: "spec (\<lambda>p. um_inv (managers_reg p)) (platform_ok X grants) (managers_handle Y c b) (\<lambda>_. True)"
  by (unfold managers_handle_def managers_add_def managers_delete_def managers_list_def managers_connect_def
      managers_disconnect_def managers_request_def managers_response_def write_ws_def read_message_def Let_def)
    (rule platform_rules managers_inv_step | assumption)+

lemma platform_info_sends: "spec (\<lambda>_. True) (platform_ok X grants) (info_handle Y c b) (\<lambda>_. True)"
  by (unfold info_handle_def info_handler_def Let_def) (rule platform_rules | assumption)+

lemma profile_sends:
  assumes "c \<noteq> ''auth''"
  shows "spec I (platform_ok X grants) (profile_handle Y c b) (\<lambda>_. True)"
  using assms
  by (simp add: profile_handle_def)
    ((unfold profile_signup_def profile_login_def select_profile_def Let_def)?,
     intro conjI impI; (rule platform_rules | assumption)+)


section \<open>The check of a profile\<close>

text \<open>Only replies are sent, and the private state stays.\<close>

definition only_replies :: "('db, 'p) world \<Rightarrow> ('db, 'p) world \<Rightarrow> bool" where
  "only_replies w w' \<longleftrightarrow> w_priv w' = w_priv w \<and> (\<exists>ms. w_sent w' = w_sent w @ ms \<and> (\<forall>m \<in> set ms. fst m = ''ws''))"

lemma only_replies_refl: "w_priv w' = w_priv w \<Longrightarrow> w_sent w' = w_sent w \<Longrightarrow> only_replies w w'"
  by (auto simp: only_replies_def)

lemma only_replies_trans: "only_replies u v \<Longrightarrow> only_replies v w \<Longrightarrow> only_replies u w"
  by (fastforce simp: only_replies_def)

lemma only_replies_error: "only_replies w (snd (reply_error X t text w))"
  by (auto simp: only_replies_def reply_error_def respond_def write_ws_def send_def split: option.split)

lemma only_replies_try:
  assumes "only_replies w (snd (m w))" "\<And>e w. only_replies w (snd (h e w))"
  shows "only_replies w (snd (tryA m h w))"
proof -
  obtain r w' where "m w = (r, w')" by fastforce
  then show ?thesis using assms(1) only_replies_trans [OF _ assms(2)] by (cases r) auto
qed

lemma select_profile_frame:
  "select_profile X l w = (r, w') \<Longrightarrow> w_priv w' = w_priv w \<and> w_sent w' = w_sent w"
  unfolding select_profile_def by (rule sql_each_frame)

lemma profile_password_Some:
  "select_profile X login w = (Inr (l, password), w1) \<Longrightarrow> profile_password X login w = Some password"
  by (simp add: profile_password_def)

text \<open>A send to the router whose failure is answered.\<close>

lemma try_send_router:
  assumes "tryA (send X ''router'' ''service'' (B_task u)) (\<lambda>e. reply_error X t (x_what X e)) w = (r, w')"
  shows "w_priv w' = w_priv w \<and> (\<exists>ms. w_sent w' = w_sent w @ ms \<and>
    (\<forall>m \<in> set ms. fst m = ''ws'' \<or> m = (''router'', ''service'', B_task u)))"
proof (cases "x_contacts X ''router''")
  case None
  then have "w' = snd (reply_error X t (x_what X Out_of_range) w) \<or> w' = w"
    using assms by (auto split: if_splits simp: prod_eq_iff)
  then have "only_replies w w'" using only_replies_error only_replies_refl by metis
  then show ?thesis by (auto simp: only_replies_def)
next
  case (Some types)
  then show ?thesis using assms by auto
qed

lemma profile_auth_outcome:
  fixes w :: "('a, profile_impl) world"
  assumes "profile_auth X (B_task t) w = (Inr u, w')" "metadata_string ''profile-key'' t = Inr key"
  shows "only_replies w w'
    \<or> (\<exists>login rest ms. x_split X key ''.'' = login # rest \<and> (profile_is_auth key (w_priv w) \<or> profile_proved X key w)
        \<and> w_priv w' \<in> {w_priv w, profile_add_auth key (w_priv w)} \<and> w_sent w' = w_sent w @ ms
        \<and> (profile_is_auth key (w_priv w) \<longrightarrow> w_priv w' = w_priv w)
        \<and> (\<forall>m \<in> set ms. fst m = ''ws'' \<or>
            m = (''router'', ''service'', B_task (storage_emplace ''profile.login'' login t))))"
proof (cases "profile_is_auth key (w_priv w)")
  case True
  then obtain login rest where split: "x_split X key ''.'' = login # rest"
    using assms by (cases "x_split X key ''.''") (auto simp: profile_auth_def vec_at_def Let_def)
  then have "send X ''router'' ''service'' (B_task (storage_emplace ''profile.login'' login t)) w = (Inr u, w')"
    using assms True by (simp add: profile_auth_def vec_at_def Let_def)
  then show ?thesis using True split
    by (cases "x_contacts X ''router''") auto
next
  case False
  define h :: "exn \<Rightarrow> ('a, profile_impl, unit) act" where "h = (\<lambda>e. reply_error X t (x_what X e))"
  define m where "m = bindA (lift (vec_at (x_split X key ''.'') 0)) (\<lambda>login0.
      bindA (select_profile X login0) (\<lambda>(login, password).
      bindA (lift (vec_at (x_split X key ''.'') 1)) (\<lambda>password1.
      if password1 = password then
        bindA get_priv (\<lambda>p.
        thenA (put_priv (profile_add_auth key p))
        (send X ''router'' ''service'' (B_task (storage_emplace ''profile.login'' login0 t))))
      else reply_error X t ''authentication bad'')))"
  have run: "tryA m h w = (Inr u, w')"
    using assms False by (simp add: profile_auth_def m_def h_def Let_def)
  have h: "only_replies v (snd (h e v))" for e v by (simp add: h_def only_replies_error)
  show ?thesis
  proof (cases "\<exists>login0 password1 rest login w1. x_split X key ''.'' = login0 # password1 # rest
      \<and> select_profile X login0 w = (Inr (login, password1), w1)")
    case True
    then obtain login0 password1 rest login w1 where p: "x_split X key ''.'' = login0 # password1 # rest"
      "select_profile X login0 w = (Inr (login, password1), w1)" by blast
    note frame = select_profile_frame [OF p(2)]
    let ?w2 = "w1 \<lparr>w_priv := profile_add_auth key (w_priv w)\<rparr>"
    have "m w = send X ''router'' ''service'' (B_task (storage_emplace ''profile.login'' login0 t)) ?w2"
      using p frame by (simp add: m_def vec_at_def)
    then have "tryA (send X ''router'' ''service'' (B_task (storage_emplace ''profile.login'' login0 t)))
        (\<lambda>e. reply_error X t (x_what X e)) ?w2 = (Inr u, w')"
      using run by (simp add: tryA_def h_def)
    from try_send_router [OF this] frame p have "x_split X key ''.'' = login0 # password1 # rest"
      "profile_proved X key w" "w_priv w' = profile_add_auth key (w_priv w)"
      "\<exists>ms. w_sent w' = w_sent w @ ms \<and> (\<forall>m \<in> set ms. fst m = ''ws'' \<or>
          m = (''router'', ''service'', B_task (storage_emplace ''profile.login'' login0 t)))"
      by (simp_all add: profile_proved_def profile_password_Some)
    then show ?thesis using False by blast
  next
    case none: False
    have "only_replies w (snd (m w))"
    proof (cases "x_split X key ''.''")
      case Nil
      then show ?thesis by (simp add: m_def vec_at_def only_replies_refl)
    next
      case (Cons login0 more)
      obtain r w1 where sel: "select_profile X login0 w = (r, w1)" by fastforce
      have w1: "only_replies w w1" using select_profile_frame [OF sel] by (simp add: only_replies_refl)
      show ?thesis
      proof (cases r)
        case (Inl e)
        then show ?thesis using w1 by (simp add: m_def vec_at_def Cons sel)
      next
        case (Inr lp)
        obtain login password where lp: "lp = (login, password)" by fastforce
        show ?thesis
        proof (cases more)
          case Nil
          then show ?thesis using w1 by (simp add: m_def vec_at_def Cons sel Inr lp)
        next
          case more: (Cons password1 rest)
          have "password1 \<noteq> password" using none Cons more sel Inr lp by auto
          then have "m w = reply_error X t ''authentication bad'' w1"
            by (simp add: m_def vec_at_def Cons more sel Inr lp)
          then show ?thesis using only_replies_trans [OF w1 only_replies_error] by simp
        qed
      qed
    qed
    then have "only_replies w (snd (tryA m h w))" by (rule only_replies_try) (rule h)
    with run show ?thesis by simp
  qed
qed


section \<open>The registry of managers\<close>

text \<open>The database counts the manager for the profile.\<close>

definition owns :: "'db ext \<Rightarrow> string \<Rightarrow> string \<Rightarrow> ('db, managers_impl) world \<Rightarrow> bool" where
  "owns X key login w \<longleftrightarrow>
     (case fst (sql_int X ''select count(*) from managers where key = ? and profile_login = ?'' [key, login] w) of
        Inr n \<Rightarrow> n > 0
      | Inl _ \<Rightarrow> False)"

lemma add_reg_manager_entries:
  "e \<in> set (managers_reg (add_reg_manager k i p)) \<Longrightarrow> e = (k, i) \<or> e \<in> set (managers_reg p)"
  by (auto simp: add_reg_manager_def um_emplace_def split: option.splits)

lemma remove_reg_manager_entries: "set (managers_reg (remove_reg_manager k p)) \<subseteq> set (managers_reg p)"
  by (auto simp: remove_reg_manager_def um_erase_def)

lemma platform_connect_registers:
  assumes "managers_connect Y (B_task t) w = (r, w')" "(k, i) \<in> set (managers_reg (w_priv w'))"
    "(k, i) \<notin> set (managers_reg (w_priv w))"
  shows "param as_string ''key'' t = Inr k \<and> i = tk_transport t \<and> owns Y k (fst (storage_index ''profile.login'' t)) w"
proof -
  obtain login u where u: "storage_index ''profile.login'' t = (login, u)" by fastforce
  have transport: "tk_transport u = tk_transport t" using storage_index_find [OF u] by simp
  obtain key where key: "param as_string ''key'' t = Inr key"
    using assms by (cases "param as_string ''key'' t") (auto simp: managers_connect_def)
  obtain q w1 where count: "sql_int Y ''select count(*) from managers where key = ? and profile_login = ?'' [key, login] w
      = (q, w1)" by fastforce
  note frame = sql_int_frame [OF count]
  have "w_priv w' = w_priv (snd (managers_connect Y (B_task t) w))" using assms(1) by simp
  also have "\<dots> = (case q of
       Inr n \<Rightarrow> if n > 0 then add_reg_manager key (tk_transport t) (w_priv w) else w_priv w
     | Inl _ \<Rightarrow> w_priv w)"
    using frame
    by (cases q) (simp_all add: managers_connect_def key u transport count answer_priv caught_priv Let_def)
  finally obtain n where n: "q = Inr n" "n > 0" and priv: "w_priv w' = add_reg_manager key (tk_transport t) (w_priv w)"
    using assms(2,3) by (cases q) (auto split: if_splits)
  from add_reg_manager_entries [of "(k, i)" key "tk_transport t" "w_priv w"] assms(2,3) priv
  have "k = key" "i = tk_transport t" by auto
  with key n count u show ?thesis by (simp add: owns_def)
qed

lemma managers_registry:
  assumes "c \<noteq> ''connect''"
  shows "spec (\<lambda>p. set (managers_reg p) \<subseteq> R) (\<lambda>_. True) (managers_handle Y c b) (\<lambda>_. True)"
proof -
  have remove: "set (managers_reg p) \<subseteq> R \<Longrightarrow> set (managers_reg (remove_reg_manager k p)) \<subseteq> R" for p k
    using remove_reg_manager_entries by (rule order_trans)
  show ?thesis
    using assms
    by (simp add: managers_handle_def)
      ((unfold managers_add_def managers_delete_def managers_list_def managers_disconnect_def
          managers_request_def managers_response_def write_ws_def read_message_def Let_def)?,
       intro conjI impI; (rule spec_message_rules TrueI remove | assumption)+)
qed


section \<open>What holds in every run\<close>

text \<open>The message is a request for the check of \<open>key\<close>, which it passes in that world.\<close>

definition profile_proves :: "(string \<Rightarrow> 'db ext) \<Rightarrow> string \<Rightarrow> sent \<times> ('db, platform_state) world \<Rightarrow> bool" where
  "profile_proves X key = (\<lambda>(m, w).
     case m of
       (dest, command, B_task t) \<Rightarrow>
         (dest, command) = (''profile'', ''auth'') \<and> metadata_string ''profile-key'' t = Inr key
         \<and> profile_proved (X ''profile'') key (part pl_profile w)
     | _ \<Rightarrow> False)"

definition proved_profiles :: "(string \<Rightarrow> 'db ext) \<Rightarrow> ('db, platform_state) history \<Rightarrow> string set" where
  "proved_profiles X h = {key. list_ex (profile_proves X key) h}"

text \<open>The message is a task of a profile that connects the manager \<open>key\<close>, which it owns.\<close>

definition connects :: "(string \<Rightarrow> 'db ext) \<Rightarrow> string set \<Rightarrow> string \<times> string \<Rightarrow> sent \<times> ('db, platform_state) world \<Rightarrow> bool" where
  "connects X grants = (\<lambda>(key, ident) (m, w).
     case m of
       (dest, command, B_task t) \<Rightarrow>
         (dest, command) = (''managers'', ''connect'') \<and> param as_string ''key'' t = Inr key \<and> tk_transport t = ident
         \<and> of_profile (X ''profile'') grants t
         \<and> owns (X ''managers'') key (fst (storage_index ''profile.login'' t)) (part pl_managers w)
     | _ \<Rightarrow> False)"

definition registered_by :: "(string \<Rightarrow> 'db ext) \<Rightarrow> ('db, platform_state) history \<Rightarrow> (string \<times> string) set" where
  "registered_by X h = {e. list_ex (connects X (proved_profiles X h) e) h}"

lemma proved_profiles_later: "proved_profiles X h \<subseteq> proved_profiles X (h @ [x])"
  by (auto simp: proved_profiles_def)

lemma connects_mono: "connects X grants e x \<Longrightarrow> grants \<subseteq> grants' \<Longrightarrow> connects X grants' e x"
  using of_profile_mono [of "X ''profile''" grants _ grants']
  by (cases x; cases e; cases "fst x"; cases "snd (snd (fst x))") (simp_all add: connects_def)

lemma registered_by_later: "registered_by X h \<subseteq> registered_by X (h @ [x])"
proof
  fix e assume "e \<in> registered_by X h"
  then obtain y where "y \<in> set h" "connects X (proved_profiles X h) e y" by (auto simp: registered_by_def list_ex_iff)
  then have "y \<in> set (h @ [x])" "connects X (proved_profiles X (h @ [x])) e y"
    using connects_mono [OF _ proved_profiles_later [of X h x]] by simp_all
  then show "e \<in> registered_by X (h @ [x])" unfolding registered_by_def list_ex_iff by blast
qed

definition platform_inv :: "string set \<Rightarrow> (string \<times> string) set \<Rightarrow> platform_state \<Rightarrow> bool" where
  "platform_inv grants owned st \<longleftrightarrow>
     set (profiles_auth (pl_profile st)) \<subseteq> grants \<and> um_inv (managers_reg (pl_managers st))
     \<and> set (managers_reg (pl_managers st)) \<subseteq> owned"

lemma platform_inv_initial: "platform_inv grants owned (platform_initial manager)"
  by (simp add: platform_inv_def platform_initial_def)

lemma platform_inv_mono:
  "platform_inv grants owned st \<Longrightarrow> grants \<subseteq> grants' \<Longrightarrow> owned \<subseteq> owned' \<Longrightarrow> platform_inv grants' owned' st"
  by (auto simp: platform_inv_def)

lemma profile_auth_program:
  assumes inv: "platform_inv grants owned (w_priv w)" and sent: "w_sent w = []"
    and ok: "platform_ok (X ''profile'') grants (''profile'', ''auth'', b)"
    and proved: "\<And>key. profile_proves X key ((''profile'', ''auth'', b), w) \<Longrightarrow> key \<in> grants"
    and run: "platform_services X (''profile'', ''auth'', b) w = (Inr u, w')"
  shows "platform_inv grants owned (w_priv w') \<and> list_all (platform_ok (X ''profile'') grants) (w_sent w')"
proof -
  let ?Y = "X ''profile''"
  obtain r v where out: "profile_handle ?Y ''auth'' b (part pl_profile w) = (r, v)" by fastforce
  have w': "r = Inr u" "w_priv w' = w_priv w \<lparr>pl_profile := w_priv v\<rparr>" "w_sent w' = w_sent v"
    using run by (auto simp: platform_services_def inside_def out)
  obtain t where b: "b = B_task t"
    using out w'(1) by (cases b) (simp_all add: profile_handle_def profile_auth_def)
  obtain key where key: "metadata_string ''profile-key'' t = Inr key"
    using out w'(1) by (cases "metadata_string ''profile-key'' t") (simp_all add: b profile_handle_def profile_auth_def)
  have auth: "profile_auth ?Y (B_task t) (part pl_profile w) = (Inr u, v)"
    using out w'(1) by (simp add: b profile_handle_def)
  have start: "w_priv (part pl_profile w) = pl_profile (w_priv w)" "w_sent (part pl_profile w) = []"
    using sent by (simp_all add: part_def)
  have replies: "list_all (platform_ok ?Y grants) ms" if "\<forall>m \<in> set ms. fst m = ''ws''" for ms
    using that by (auto simp: list_all_iff)
  from profile_auth_outcome [OF auth key] show ?thesis
  proof
    assume "only_replies (part pl_profile w) v"
    then show ?thesis using inv w' start replies by (auto simp: only_replies_def platform_inv_def)
  next
    assume "\<exists>login rest ms. x_split ?Y key ''.'' = login # rest
        \<and> (profile_is_auth key (w_priv (part pl_profile w)) \<or> profile_proved ?Y key (part pl_profile w))
        \<and> w_priv v \<in> {w_priv (part pl_profile w), profile_add_auth key (w_priv (part pl_profile w))}
        \<and> w_sent v = w_sent (part pl_profile w) @ ms
        \<and> (profile_is_auth key (w_priv (part pl_profile w)) \<longrightarrow> w_priv v = w_priv (part pl_profile w))
        \<and> (\<forall>m \<in> set ms. fst m = ''ws'' \<or>
            m = (''router'', ''service'', B_task (storage_emplace ''profile.login'' login t)))"
    then obtain login rest where split: "x_split ?Y key ''.'' = login # rest"
      and passed: "profile_is_auth key (pl_profile (w_priv w)) \<or> profile_proved ?Y key (part pl_profile w)"
      and priv: "w_priv v \<in> {pl_profile (w_priv w), profile_add_auth key (pl_profile (w_priv w))}"
      and ms: "\<forall>m \<in> set (w_sent v). fst m = ''ws'' \<or>
            m = (''router'', ''service'', B_task (storage_emplace ''profile.login'' login t))"
      unfolding start by auto
    have granted: "key \<in> grants"
      using passed proved [of key] inv key by (auto simp: profile_proves_def b profile_is_auth_def platform_inv_def)
    have "of_profile ?Y grants (storage_emplace ''profile.login'' login t)"
      using ok key split granted
      by (auto simp: platform_ok_def b of_profile_def um_find_storage metadata_string_def providers_def split: option.split)
    then have "list_all (platform_ok ?Y grants) (w_sent v)"
      using ms by (auto simp: list_all_iff platform_ok_profile)
    moreover have "set (profiles_auth (w_priv v)) \<subseteq> grants"
      using priv inv granted by (auto simp: platform_inv_def profile_add_auth_def us_emplace_def split: if_splits)
    ultimately show ?thesis using inv w' by (simp add: platform_inv_def)
  qed
qed


lemma managers_program:
  assumes inv: "platform_inv grants owned (w_priv w)" and sent: "w_sent w = []"
    and ok: "platform_ok (X ''profile'') grants (''managers'', c, b)"
    and owned: "\<And>e. connects X grants e ((''managers'', c, b), w) \<Longrightarrow> e \<in> owned"
    and run: "platform_services X (''managers'', c, b) w = (Inr u, w')"
  shows "platform_inv grants owned (w_priv w') \<and> list_all (platform_ok (X ''profile'') grants) (w_sent w')"
proof -
  let ?Y = "X ''managers''"
  obtain r v where out: "managers_handle ?Y c b (part pl_managers w) = (r, v)" by fastforce
  have w': "r = Inr u" "w_priv w' = w_priv w \<lparr>pl_managers := w_priv v\<rparr>" "w_sent w' = w_sent v"
    using run by (auto simp: platform_services_def inside_def out)
  have start: "w_priv (part pl_managers w) = pl_managers (w_priv w)" "w_sent (part pl_managers w) = []"
    using sent by (simp_all add: part_def)
  have "um_inv (managers_reg (w_priv v)) \<and> list_all (platform_ok (X ''profile'') grants) (w_sent v)"
    using spec_run [OF managers_sends out] inv start by (simp add: platform_inv_def)
  moreover have "set (managers_reg (w_priv v)) \<subseteq> owned"
  proof (cases "c = ''connect''")
    case False
    from spec_run [OF managers_registry [OF this] out, of owned] inv start show ?thesis
      by (simp add: platform_inv_def)
  next
    case True
    obtain t where b: "b = B_task t"
      using out w'(1) by (cases b) (simp_all add: True managers_handle_def managers_connect_def)
    have connect: "managers_connect ?Y (B_task t) (part pl_managers w) = (r, v)"
      using out by (simp add: True b managers_handle_def)
    have profile: "of_profile (X ''profile'') grants t"
      using ok by (simp add: platform_ok_def b True providers_def open_handlers_def)
    show ?thesis
    proof
      fix e assume e: "e \<in> set (managers_reg (w_priv v))"
      obtain k i where ki: "e = (k, i)" by (cases e)
      show "e \<in> owned"
      proof (cases "e \<in> set (managers_reg (pl_managers (w_priv w)))")
        case True
        with inv show ?thesis by (auto simp: platform_inv_def)
      next
        case False
        from platform_connect_registers [OF connect e [unfolded ki]] False ki start have "param as_string ''key'' t = Inr k"
          "i = tk_transport t" "owns ?Y k (fst (storage_index ''profile.login'' t)) (part pl_managers w)" by simp_all
        with profile have "connects X grants (k, i) ((''managers'', c, b), w)"
          by (simp add: connects_def b True)
        with owned ki show ?thesis by blast
      qed
    qed
  qed
  ultimately show ?thesis using inv w' by (simp add: platform_inv_def)
qed

lemma platform_program_sends:
  assumes ok: "platform_ok (X ''profile'') grants (dest, c, b)" and split: "splits_open (X ''router'')"
    and "dest \<noteq> ''managers''" "(dest, c) \<noteq> (''profile'', ''auth'')"
  shows "spec (platform_inv grants owned) (platform_ok (X ''profile'') grants) (platform_services X (dest, c, b)) (\<lambda>_. True)"
proof (rule platform_dests [of dest])
  assume dest: "dest = ''router''"
  have "of_profile (X ''profile'') grants t" if "b = B_task t" for t
    using ok by (simp add: platform_ok_def that dest providers_def open_handlers_def)
  from platform_router_sends [OF split this] dest show ?thesis
    by (simp add: platform_services_def) (rule spec_inside, simp_all)
next
  assume "dest = ''profile''"
  with assms(4) show ?thesis
    by (simp add: platform_services_def) (rule spec_inside [OF profile_sends [where I = "\<lambda>p. set (profiles_auth p) \<subseteq> grants"]],
      simp_all add: platform_inv_def)
next
  assume "dest = ''manager''"
  then show ?thesis
    by (simp add: platform_services_def) (rule spec_inside [OF platform_info_sends], simp_all add: platform_inv_def)
qed (use assms(3) in \<open>simp_all add: platform_services_def spec_skip\<close>)

interpretation platform_net: network_invariant "platform_services X" platform_arrivals
  "\<lambda>h st. splits_open (X ''router'') \<longrightarrow> platform_inv (proved_profiles X h) (registered_by X h) st"
  "\<lambda>h m. splits_open (X ''router'') \<longrightarrow> platform_ok (X ''profile'') (proved_profiles X h) m"
  for X :: "string \<Rightarrow> 'db ext"
proof (unfold_locales, goal_cases)
  case (2 h m x)
  then show ?case using platform_ok_mono [OF _ proved_profiles_later] by blast
next
  case (3 h w m u w')
  let ?grants = "proved_profiles X (h @ [(m, w)])" and ?owned = "registered_by X (h @ [(m, w)])"
  obtain dest c b where m: "m = (dest, c, b)" by (cases m) auto
  have "platform_inv ?grants ?owned (w_priv w') \<and> list_all (platform_ok (X ''profile'') ?grants) (w_sent w')"
    if split: "splits_open (X ''router'')"
  proof -
    have inv: "platform_inv ?grants ?owned (w_priv w)"
      using 3(1) split platform_inv_mono [OF _ proved_profiles_later registered_by_later] by blast
    have ok: "platform_ok (X ''profile'') ?grants (dest, c, b)"
      using 3(2) split platform_ok_mono [OF _ proved_profiles_later] unfolding m by blast
    consider "(dest, c) = (''profile'', ''auth'')" | "dest = ''managers''"
      | "dest \<noteq> ''managers''" "(dest, c) \<noteq> (''profile'', ''auth'')" by blast
    then show ?thesis
    proof cases
      case 1
      with profile_auth_program [OF inv 3(3), of X b u w'] ok 3(4) show ?thesis
        by (simp add: m proved_profiles_def)
    next
      case 2
      with managers_program [OF inv 3(3), of X c b u w'] ok 3(4) show ?thesis
        by (simp add: m registered_by_def)
    next
      case 3: 3
      from spec_run [OF platform_program_sends [OF ok split 3]] inv \<open>w_sent w = []\<close>
        \<open>platform_services X m w = (Inr u, w')\<close> show ?thesis unfolding m by blast
    qed
  qed
  then show ?case by (simp add: list_all_iff)
qed simp


text \<open>
  C2: nobody acts for a profile without its password. In every state the platform can reach,
  each task on its way to a handler that is not open to guests carries a profile key for
  which the run has an earlier request of the check, at a time when the key was a login with
  the password the database had for it; the login in the task is that of the key.
\<close>

theorem platform_access:
  assumes "net_run (platform_services X) platform_arrivals (platform_start manager db) h s"
    "splits_open (X ''router'')" "(dest, command, B_task t) \<in> set (net_pending s)"
    "(dest, command) \<notin> set open_handlers"
  shows "\<exists>key login rest t1 w1. metadata_string ''profile-key'' t = Inr key
    \<and> x_split (X ''profile'') key ''.'' = login # rest
    \<and> um_find ''profile.login'' (tk_storage t) = Some login
    \<and> ((''profile'', ''auth'', B_task t1), w1) \<in> set h \<and> metadata_string ''profile-key'' t1 = Inr key
    \<and> profile_proved (X ''profile'') key (part pl_profile w1)"
proof -
  have "dest \<notin> set providers"
    using pending_not_provider [OF assms(1) _ _ assms(3)] by (simp add: providers_def platform_arrivals_def)
  moreover have "platform_ok (X ''profile'') (proved_profiles X h) (dest, command, B_task t)"
    using platform_net.run_keeps [OF assms(1)] assms(2,3) platform_inv_initial
    by (auto simp: list_all_iff)
  moreover have "(dest, command) \<noteq> (''profile'', ''auth'')" using assms(4) by (auto simp: open_handlers_def)
  ultimately have "of_profile (X ''profile'') (proved_profiles X h) t"
    using assms(4) by (auto simp: platform_ok_def)
  then obtain key login rest where k: "metadata_string ''profile-key'' t = Inr key"
    "x_split (X ''profile'') key ''.'' = login # rest" "um_find ''profile.login'' (tk_storage t) = Some login"
    "key \<in> proved_profiles X h"
    unfolding of_profile_def by blast
  from k(4) obtain m w1 where m: "(m, w1) \<in> set h" "profile_proves X key (m, w1)"
    by (auto simp: proved_profiles_def list_ex_iff)
  then obtain t1 where "m = (''profile'', ''auth'', B_task t1)" "metadata_string ''profile-key'' t1 = Inr key"
    "profile_proved (X ''profile'') key (part pl_profile w1)"
    by (cases m; cases "snd (snd m)") (simp_all add: profile_proves_def)
  with k(1-3) m(1) show ?thesis by blast
qed

text \<open>
  C3: managers are registered by their owners. In every state the platform can reach, for
  each manager that is registered with a connection the run has a request to connect it that
  came through this connection, from a checked profile for which the database counted the
  manager.
\<close>

theorem managers_connected_by_owner:
  assumes "net_run (platform_services X) platform_arrivals (platform_start manager db) h s"
    "splits_open (X ''router'')" "(key, ident) \<in> set (managers_reg (pl_managers (net_state s)))"
  shows "\<exists>t w1. ((''managers'', ''connect'', B_task t), w1) \<in> set h
    \<and> param as_string ''key'' t = Inr key \<and> tk_transport t = ident
    \<and> of_profile (X ''profile'') (proved_profiles X h) t
    \<and> owns (X ''managers'') key (fst (storage_index ''profile.login'' t)) (part pl_managers w1)"
proof -
  have "(key, ident) \<in> registered_by X h"
    using platform_net.run_keeps [OF assms(1)] assms(2,3) platform_inv_initial
    by (auto simp: platform_inv_def)
  then obtain m w1 where m: "(m, w1) \<in> set h" "connects X (proved_profiles X h) (key, ident) (m, w1)"
    by (auto simp: registered_by_def list_ex_iff)
  then obtain t where "m = (''managers'', ''connect'', B_task t)" "param as_string ''key'' t = Inr key" "tk_transport t = ident"
    "of_profile (X ''profile'') (proved_profiles X h) t"
    "owns (X ''managers'') key (fst (storage_index ''profile.login'' t)) (part pl_managers w1)"
    by (cases m; cases "snd (snd m)") (simp_all add: connects_def)
  with m(1) show ?thesis by blast
qed

text \<open>
  But any profile can disconnect any manager: the request removes the manager its
  parameter names from the registry, whoever owns it.
\<close>

lemma any_profile_disconnects:
  assumes "param as_string ''key'' t = Inr key"
  shows "\<exists>w'. managers_handle X ''disconnect'' (B_task t) w = (Inr (), w') \<and> w_sent w' = w_sent w
    \<and> (\<forall>k. um_find k (managers_reg (w_priv w')) = (if k = key then None else um_find k (managers_reg (w_priv w))))"
proof -
  obtain login u where "storage_index ''profile.login'' t = (login, u)" by fastforce
  then show ?thesis
    using assms
    by (simp add: managers_handle_def managers_disconnect_def Let_def remove_reg_manager_def um_find_erase)
qed

lemma any_profile_disconnects_witness:
  "let t = demo_task [] (JMap [(''key'', JStr ''bob.m'')]) [(''profile.login'', ''eve'')] in
   \<exists>w'. managers_handle demo_ext ''disconnect'' (B_task t) demo_managers = (Inr (), w') \<and> w_sent w' = w_sent demo_managers
    \<and> (\<forall>k. um_find k (managers_reg (w_priv w')) = (if k = ''bob.m'' then None else um_find k (managers_reg (w_priv demo_managers))))"
  unfolding Let_def
  by (rule any_profile_disconnects) (simp add: demo_task_def param_def value_index_def om_find_Cons)


section \<open>A run\<close>

definition demo_pext :: "(string list \<Rightarrow> sql_row list) ext" where
  "demo_pext = demo_ext \<lparr>x_contacts := (\<lambda>_. Some [''connect''])\<rparr>"

definition demo_pdb :: "string list \<Rightarrow> sql_row list" where
  "demo_pdb = (\<lambda>args. if args = [''bob''] then [[Sql_text ''bob'', Sql_text ''pw'']]
     else if args = [''bob.m'', ''bob''] then [[Sql_int 1]] else [])"

definition demo_connect_frame :: transport where
  "demo_connect_frame = T_ws ''mt''
     ''{\"id\":\"1\",\"metadata\":{\"profile-key\":\"bob.pw\"},\"method\":\"managers.connect\",\"params\":{\"key\":\"bob.m\"}}''"

definition demo_unchecked :: task where
  "demo_unchecked =
     \<lparr>tk_request = \<lparr>req_id = JStr ''1'', req_method = ''managers.connect'', req_params = JMap [(''key'', JStr ''bob.m'')],
        req_metadata = [(''profile-key'', JStr ''bob.pw'')]\<rparr>,
      tk_transport = ''mt'', tk_storage = [(''service.method'', ''connect''), (''service.name'', ''managers'')]\<rparr>"

definition demo_checked :: task where
  "demo_checked = storage_emplace ''profile.login'' ''bob'' demo_unchecked"

definition demo_connected :: sent where
  "demo_connected = reply_message ''mt'' (success (JBool True) (response_to demo_checked))"

lemma demo_platform_dispatch:
  "platform_handle demo_pext ''dispatcher'' (B_transport demo_connect_frame) w
     = (Inr (), w \<lparr>w_sent := w_sent w @ [(''profile'', ''auth'', B_task demo_unchecked)]\<rparr>)"
proof -
  define m where "m = [(''id'', JStr ''1''), (''metadata'', JMap [(''profile-key'', JStr ''bob.pw'')]),
    (''method'', JStr ''managers.connect''), (''params'', JMap [(''key'', JStr ''bob.m'')])]"
  have parse: "parse_map (x_utf demo_pext)
      ''{\"id\":\"1\",\"metadata\":{\"profile-key\":\"bob.pw\"},\"method\":\"managers.connect\",\"params\":{\"key\":\"bob.m\"}}'' = Inr m"
    unfolding m_def by code_simp
  have is_req: "is_request m" unfolding m_def by code_simp
  have req: "fst (parse_request m) = Inr (tk_request demo_unchecked)" unfolding m_def demo_unchecked_def by code_simp
  have contact: "x_contacts demo_pext d = Some [''connect'']" for d by (simp add: demo_pext_def)
  have split: "x_split demo_pext ''managers.connect'' ''.'' = [''managers'', ''connect'']" by code_simp
  have "contains (req_metadata (tk_request demo_unchecked)) ''profile-key''"
    "\<not> contains (req_metadata (tk_request demo_unchecked)) ''manager-key''"
    unfolding demo_unchecked_def by code_simp+
  moreover have "storage_emplace ''service.method'' ''connect''
      (storage_emplace ''service.name'' ''managers'' (platform_task ''mt'' (tk_request demo_unchecked))) = demo_unchecked"
    by (simp add: demo_unchecked_def platform_task_def storage_emplace_def um_emplace_def um_find_Cons)
  moreover have "req_method (tk_request demo_unchecked) = ''managers.connect''" by (simp add: demo_unchecked_def)
  ultimately show ?thesis
    by (simp add: platform_handle_def platform_dispatcher_def demo_connect_frame_def read_message_def parse is_req
        platform_dispatch_def req split Let_def contact)
qed

lemma demo_platform_auth:
  assumes "w_db w = demo_pdb" "w_priv w = \<lparr>profiles_auth = []\<rparr>"
  shows "profile_handle demo_pext ''auth'' (B_task demo_unchecked) w =
    (Inr (), w \<lparr>w_priv := \<lparr>profiles_auth = [''bob.pw'']\<rparr>,
       w_sent := w_sent w @ [(''router'', ''service'', B_task demo_checked)]\<rparr>)"
proof -
  have key: "metadata_string ''profile-key'' demo_unchecked = Inr ''bob.pw''"
    by (simp add: demo_unchecked_def metadata_string_def map_index_def om_find_Cons)
  have split: "x_split demo_pext ''bob.pw'' ''.'' = [''bob'', ''pw'']" by code_simp
  have "w \<lparr>w_db := demo_pdb\<rparr> = w" using assms(1) by (cases w) simp
  then have sel: "select_profile demo_pext ''bob'' w = (Inr (''bob'', ''pw''), w)"
    using assms(1)
    by (simp add: select_profile_def sql_each_def demo_pext_def demo_ext_def demo_pdb_def col_ptr_def)
  have "x_contacts demo_pext ''router'' = Some [''connect'']" by (simp add: demo_pext_def)
  then show ?thesis
    using assms(2)
    by (simp add: profile_handle_def profile_auth_def key split sel vec_at_def Let_def profile_is_auth_def
        profile_add_auth_def us_emplace_def demo_checked_def)
qed

lemma demo_platform_service:
  "platform_handle demo_pext ''service'' (B_task demo_checked) w =
     (Inr (), w \<lparr>w_sent := w_sent w @ [(''managers'', ''connect'', B_task demo_checked)]\<rparr>)"
proof -
  have "storage_index ''service.name'' demo_checked = (''managers'', demo_checked)"
    "storage_index ''service.method'' demo_checked = (''connect'', demo_checked)"
    by (simp_all add: storage_index_def demo_checked_def demo_unchecked_def storage_emplace_def um_emplace_def um_find_Cons)
  then show ?thesis
    by (simp add: platform_handle_def platform_service_def Let_def platform_service_list_def demo_pext_def)
qed

lemma demo_platform_connect:
  assumes "w_db w = demo_pdb" "w_priv w = \<lparr>managers_reg = []\<rparr>"
  shows "managers_handle demo_pext ''connect'' (B_task demo_checked) w =
    (Inr (), w \<lparr>w_priv := \<lparr>managers_reg = [(''bob.m'', ''mt'')]\<rparr>,
       w_sent := w_sent w @ [demo_connected]\<rparr>)"
proof -
  have key: "param as_string ''key'' demo_checked = Inr ''bob.m''"
    and login: "storage_index ''profile.login'' demo_checked = (''bob'', demo_checked)"
    and transport: "tk_transport demo_checked = ''mt''"
    by (simp_all add: demo_checked_def demo_unchecked_def storage_emplace_def um_emplace_def um_find_Cons
        param_def value_index_def om_find_Cons storage_index_def)
  have "w \<lparr>w_db := demo_pdb\<rparr> = w" using assms(1) by (cases w) simp
  moreover have "sint (1 :: 32 word) = 1" by simp
  ultimately have count: "sql_int demo_pext ''select count(*) from managers where key = ? and profile_login = ?''
      [''bob.m'', ''bob''] w = (Inr 1, w)"
    using assms(1) by (simp add: sql_int_def demo_pext_def demo_ext_def demo_pdb_def)
  have "x_contacts demo_pext ''ws'' = Some [''connect'']" by (simp add: demo_pext_def)
  then show ?thesis
    using assms(2)
    by (simp add: managers_handle_def managers_connect_def key login count transport Let_def caught_def answer_def
        respond_def write_ws_def add_reg_manager_def um_emplace_def demo_connected_def reply_message_def)
qed


definition demo_platform_start :: "(string list \<Rightarrow> sql_row list, platform_state) network" where
  "demo_platform_start = platform_start ''m'' demo_pdb"

definition demo_checked_state :: platform_state where
  "demo_checked_state = platform_initial ''m'' \<lparr>pl_profile := \<lparr>profiles_auth = [''bob.pw'']\<rparr>\<rparr>"

definition demo_connected_state :: platform_state where
  "demo_connected_state = demo_checked_state \<lparr>pl_managers := \<lparr>managers_reg = [(''bob.m'', ''mt'')]\<rparr>\<rparr>"

definition demo_net :: "platform_state \<Rightarrow> sent list \<Rightarrow> sent list \<Rightarrow> (string list \<Rightarrow> sql_row list, platform_state) network" where
  "demo_net st ms out = \<lparr>net_db = demo_pdb, net_state = st, net_pending = ms, net_out = out\<rparr>"

lemma demo_net_simps [simp]:
  "net_pending (demo_net st ms out) = ms" "net_state (demo_net st ms out) = st"
  "demo_net st ms out \<lparr>net_pending := ns\<rparr> = demo_net st ns out"
  "world_of (demo_net st ms out) = \<lparr>w_db = demo_pdb, w_priv = st, w_sent = []\<rparr>"
  by (simp_all add: demo_net_def world_of_def)

lemma demo_platform_steps:
  "deliver (platform_services (\<lambda>_. demo_pext)) (''router'', ''dispatcher'', B_transport demo_connect_frame)
     (demo_net (platform_initial ''m'') [] []) = Some (demo_net (platform_initial ''m'') [(''profile'', ''auth'', B_task demo_unchecked)] [])"
  "deliver (platform_services (\<lambda>_. demo_pext)) (''profile'', ''auth'', B_task demo_unchecked)
     (demo_net (platform_initial ''m'') [] []) = Some (demo_net demo_checked_state [(''router'', ''service'', B_task demo_checked)] [])"
  "deliver (platform_services (\<lambda>_. demo_pext)) (''router'', ''service'', B_task demo_checked)
     (demo_net demo_checked_state [] []) = Some (demo_net demo_checked_state [(''managers'', ''connect'', B_task demo_checked)] [])"
  "deliver (platform_services (\<lambda>_. demo_pext)) (''managers'', ''connect'', B_task demo_checked)
     (demo_net demo_checked_state [] []) = Some (demo_net demo_connected_state [] [demo_connected])"
proof -
  show "deliver (platform_services (\<lambda>_. demo_pext)) (''router'', ''dispatcher'', B_transport demo_connect_frame)
     (demo_net (platform_initial ''m'') [] []) = Some (demo_net (platform_initial ''m'') [(''profile'', ''auth'', B_task demo_unchecked)] [])"
    by (simp add: deliver_def platform_services_def inside_def part_def demo_platform_dispatch post_def providers_def)
      (simp add: demo_net_def)
  show "deliver (platform_services (\<lambda>_. demo_pext)) (''router'', ''service'', B_task demo_checked)
     (demo_net demo_checked_state [] []) = Some (demo_net demo_checked_state [(''managers'', ''connect'', B_task demo_checked)] [])"
    by (simp add: deliver_def platform_services_def inside_def part_def demo_platform_service post_def providers_def)
      (simp add: demo_net_def)
  have "part pl_profile \<lparr>w_db = demo_pdb, w_priv = platform_initial ''m'', w_sent = []\<rparr>
      = \<lparr>w_db = demo_pdb, w_priv = \<lparr>profiles_auth = []\<rparr>, w_sent = []\<rparr>"
    by (simp add: part_def platform_initial_def)
  then show "deliver (platform_services (\<lambda>_. demo_pext)) (''profile'', ''auth'', B_task demo_unchecked)
     (demo_net (platform_initial ''m'') [] []) = Some (demo_net demo_checked_state [(''router'', ''service'', B_task demo_checked)] [])"
    by (simp add: deliver_def platform_services_def inside_def demo_platform_auth post_def providers_def)
      (simp add: demo_net_def demo_checked_state_def platform_initial_def)
  have "part pl_managers \<lparr>w_db = demo_pdb, w_priv = demo_checked_state, w_sent = []\<rparr>
      = \<lparr>w_db = demo_pdb, w_priv = \<lparr>managers_reg = []\<rparr>, w_sent = []\<rparr>"
    by (simp add: part_def platform_initial_def demo_checked_state_def)
  then show "deliver (platform_services (\<lambda>_. demo_pext)) (''managers'', ''connect'', B_task demo_checked)
     (demo_net demo_checked_state [] []) = Some (demo_net demo_connected_state [] [demo_connected])"
    by (simp add: deliver_def platform_services_def inside_def demo_platform_connect post_def providers_def
        demo_connected_def reply_message_def)
      (simp add: demo_net_def demo_connected_state_def demo_checked_state_def platform_initial_def)
qed

lemma demo_platform_exec:
  "\<exists>h. net_exec (platform_services (\<lambda>_. demo_pext)) platform_arrivals
     [Arrive ''router'' ''dispatcher'' demo_connect_frame, Handle 0, Handle 0, Handle 0] ([], platform_start ''m'' demo_pdb)
     = Some (h, demo_net demo_checked_state [(''managers'', ''connect'', B_task demo_checked)] [])"
  "\<exists>h. net_exec (platform_services (\<lambda>_. demo_pext)) platform_arrivals
     [Arrive ''router'' ''dispatcher'' demo_connect_frame, Handle 0, Handle 0, Handle 0, Handle 0] ([], platform_start ''m'' demo_pdb)
     = Some (h, demo_net demo_connected_state [] [demo_connected])"
proof -
  have start: "platform_start ''m'' demo_pdb = demo_net (platform_initial ''m'') [] []"
    by (simp add: platform_start_def demo_net_def)
  show "\<exists>h. net_exec (platform_services (\<lambda>_. demo_pext)) platform_arrivals
     [Arrive ''router'' ''dispatcher'' demo_connect_frame, Handle 0, Handle 0, Handle 0] ([], platform_start ''m'' demo_pdb)
     = Some (h, demo_net demo_checked_state [(''managers'', ''connect'', B_task demo_checked)] [])"
    "\<exists>h. net_exec (platform_services (\<lambda>_. demo_pext)) platform_arrivals
     [Arrive ''router'' ''dispatcher'' demo_connect_frame, Handle 0, Handle 0, Handle 0, Handle 0] ([], platform_start ''m'' demo_pdb)
     = Some (h, demo_net demo_connected_state [] [demo_connected])"
    unfolding start by (simp_all add: platform_arrivals_def Let_def taken_def demo_platform_steps)
qed

lemma demo_pext_splits: "splits_open demo_pext"
  unfolding splits_open_def by code_simp

lemma platform_access_witness:
  "\<exists>h s t. net_run (platform_services (\<lambda>_. demo_pext)) platform_arrivals (platform_start ''m'' demo_pdb) h s
    \<and> (''managers'', ''connect'', B_task t) \<in> set (net_pending s)
    \<and> (\<exists>key login rest t1 w1. metadata_string ''profile-key'' t = Inr key
      \<and> x_split demo_pext key ''.'' = login # rest
      \<and> um_find ''profile.login'' (tk_storage t) = Some login
      \<and> ((''profile'', ''auth'', B_task t1), w1) \<in> set h \<and> metadata_string ''profile-key'' t1 = Inr key
      \<and> profile_proved demo_pext key (part pl_profile w1))"
proof -
  from demo_platform_exec(1) obtain h where
    run: "net_run (platform_services (\<lambda>_. demo_pext)) platform_arrivals (platform_start ''m'' demo_pdb) h
      (demo_net demo_checked_state [(''managers'', ''connect'', B_task demo_checked)] [])"
    using net_exec_run net_run.start by blast
  have "(''managers'', ''connect'', B_task demo_checked)
      \<in> set (net_pending (demo_net demo_checked_state [(''managers'', ''connect'', B_task demo_checked)] []))" by simp
  moreover have "(''managers'', ''connect'') \<notin> set open_handlers" by (simp add: open_handlers_def)
  ultimately show ?thesis using platform_access [OF run demo_pext_splits] run by blast
qed

lemma managers_connected_by_owner_witness:
  "\<exists>h s t w1. net_run (platform_services (\<lambda>_. demo_pext)) platform_arrivals (platform_start ''m'' demo_pdb) h s
    \<and> (''bob.m'', ''mt'') \<in> set (managers_reg (pl_managers (net_state s)))
    \<and> ((''managers'', ''connect'', B_task t), w1) \<in> set h
    \<and> param as_string ''key'' t = Inr ''bob.m'' \<and> tk_transport t = ''mt''
    \<and> of_profile demo_pext (proved_profiles (\<lambda>_. demo_pext) h) t
    \<and> owns demo_pext ''bob.m'' (fst (storage_index ''profile.login'' t)) (part pl_managers w1)"
proof -
  from demo_platform_exec(2) obtain h where
    run: "net_run (platform_services (\<lambda>_. demo_pext)) platform_arrivals (platform_start ''m'' demo_pdb) h
      (demo_net demo_connected_state [] [demo_connected])"
    using net_exec_run net_run.start by blast
  have "(''bob.m'', ''mt'') \<in> set (managers_reg (pl_managers (net_state (demo_net demo_connected_state [] [demo_connected]))))"
    by (simp add: demo_connected_state_def)
  from managers_connected_by_owner [OF run demo_pext_splits this] this run show ?thesis by blast
qed

end
