(* ===== verification/Platform_Bodies.thy ===== *)
theory Platform_Bodies
  imports Platform_Net
begin

text \<open>
  The bodies of the messages of the platform: which type each handler takes out, and that the
  runs respect it, except for tasks that any checked profile can address to the handler of
  responses or to a standard handler of an actor.
\<close>

definition platform_readers :: "(string \<times> (string \<times> body_kind) list) list" where
  "platform_readers =
     [(''router'', [(''dispatcher'', Kind_transport), (''service'', Kind_task), (''error'', Kind_transport)]),
      (''profile'', [(''signup'', Kind_task), (''login'', Kind_task), (''auth'', Kind_task)]),
      (''managers'', [(''add'', Kind_task), (''delete'', Kind_task), (''list'', Kind_task), (''connect'', Kind_task),
         (''disconnect'', Kind_task), (''request'', Kind_task), (''response'', Kind_transport)]),
      (''manager'', [(''info'', Kind_task)]),
      (''ws'', [(''write'', Kind_transport), (''close'', Kind_transport), (''remove'', Kind_transport)]),
      (''http'', [(''print'', Kind_transport), (''add_trusted_url'', Kind_string), (''remove_trusted_url'', Kind_string)])]"

lemma platform_bad_bodies:
  "kind_of b \<noteq> Kind_transport \<Longrightarrow> platform_dispatcher X b w = (Inl Undefined, w)"
  "kind_of b \<noteq> Kind_task \<Longrightarrow> platform_service X b w = (Inl Undefined, w)"
  "kind_of b \<noteq> Kind_transport \<Longrightarrow> platform_error X b w = (Inl Undefined, w)"
  by (unfold platform_dispatcher_def platform_service_def platform_error_def) (rule bad_task bad_transport, assumption)+

lemma profile_bad_bodies:
  "kind_of b \<noteq> Kind_task \<Longrightarrow> profile_signup X b w = (Inl Undefined, w)"
  "kind_of b \<noteq> Kind_task \<Longrightarrow> profile_login X b w = (Inl Undefined, w)"
  "kind_of b \<noteq> Kind_task \<Longrightarrow> profile_auth X b w = (Inl Undefined, w)"
  by (unfold profile_signup_def profile_login_def profile_auth_def) (rule bad_task, assumption)+

lemma managers_bad_bodies:
  "kind_of b \<noteq> Kind_task \<Longrightarrow> managers_add X b w = (Inl Undefined, w)"
  "kind_of b \<noteq> Kind_task \<Longrightarrow> managers_delete X b w = (Inl Undefined, w)"
  "kind_of b \<noteq> Kind_task \<Longrightarrow> managers_list X b w = (Inl Undefined, w)"
  "kind_of b \<noteq> Kind_task \<Longrightarrow> managers_connect X b w = (Inl Undefined, w)"
  "kind_of b \<noteq> Kind_task \<Longrightarrow> managers_disconnect X b w = (Inl Undefined, w)"
  "kind_of b \<noteq> Kind_task \<Longrightarrow> managers_request X b w = (Inl Undefined, w)"
  "kind_of b \<noteq> Kind_transport \<Longrightarrow> managers_response X b w = (Inl Undefined, w)"
  by (unfold managers_add_def managers_delete_def managers_list_def managers_connect_def managers_disconnect_def
      managers_request_def managers_response_def) (rule bad_task bad_transport, assumption)+

text \<open>Each service reads what the table says.\<close>

lemma platform_untyped_undefined:
  assumes "kind_of b \<noteq> k" "command \<notin> {''sync_contacts'', ''add_channel''}"
  shows "reads_in platform_readers ''router'' command = Some k \<Longrightarrow> platform_handle X command b w1 = (Inl Undefined, w1)"
    "reads_in platform_readers ''profile'' command = Some k \<Longrightarrow> profile_handle X command b w2 = (Inl Undefined, w2)"
    "reads_in platform_readers ''managers'' command = Some k \<Longrightarrow> managers_handle X command b w3 = (Inl Undefined, w3)"
  using assms
  by (auto simp: reads_in_def platform_readers_def platform_bad_bodies profile_bad_bodies managers_bad_bodies
      platform_handle_def profile_handle_def managers_handle_def split: if_splits)

text \<open>A task for the handler of responses, or for a standard handler of a service.\<close>

definition platform_misaddressed :: "sent \<Rightarrow> bool" where
  "platform_misaddressed m \<longleftrightarrow>
     (case m of
        (dest, command, B_task t) \<Rightarrow>
          dest \<in> set platform_service_list
          \<and> ((dest, command) = (''managers'', ''response'') \<or> command \<in> {''sync_contacts'', ''add_channel''})
      | _ \<Rightarrow> False)"

definition platform_flows :: "sent \<Rightarrow> bool" where
  "platform_flows m \<longleftrightarrow> typed_in platform_readers m \<or> platform_misaddressed m"

lemmas platform_flow_defs = platform_flows_def typed_in_def reads_in_def platform_readers_def

lemma platform_flow_rules [simp]:
  "platform_flows (''ws'', ''write'', B_transport tr)" "platform_flows (''ws'', ''close'', B_transport tr)"
  "platform_flows (''ws'', ''remove'', B_transport tr)" "platform_flows (''http'', ''add_trusted_url'', B_string s)"
  "platform_flows (''http'', ''remove_trusted_url'', B_string s)" "platform_flows (''managers'', ''response'', B_transport tr)"
  "platform_flows (''managers'', ''request'', B_task t)" "platform_flows (''profile'', ''auth'', B_task t)"
  "platform_flows (''router'', ''service'', B_task t)" "platform_flows (''profile'', ''signup'', B_task t)"
  "platform_flows (''profile'', ''login'', B_task t)" "platform_flows (''manager'', ''info'', B_task t)"
  by (simp_all add: platform_flow_defs)

lemma service_task_flows:
  assumes "svc \<in> set platform_service_list"
  shows "platform_flows (svc, meth, B_task t)"
proof -
  have "reads_in platform_readers svc meth \<in> {None, Some Kind_task}
      \<or> (svc, meth) = (''managers'', ''response'') \<or> meth \<in> {''sync_contacts'', ''add_channel''}"
    using assms
    by (simp add: platform_service_list_def) (elim disjE; simp add: reads_in_def platform_readers_def)
  then show ?thesis
    using assms unfolding platform_flows_def typed_in_def platform_misaddressed_def by (elim disjE) auto
qed

lemma platform_dispatch_flow:
  assumes "splits_open Y"
  shows "spec (\<lambda>_. True) platform_flows (platform_dispatch Y i m) (\<lambda>_. True)"
proof -
  have guest: "platform_flows (x_split Y meth ''.'' ! 0, x_split Y meth ''.'' ! 1, B_task t)"
    if "length (x_split Y meth ''.'') > 1" "meth \<in> set platform_quest_list" for meth t
  proof -
    note meth = that
    obtain rest where "x_split Y meth ''.'' = x_split Y meth ''.'' ! 0 # x_split Y meth ''.'' ! 1 # rest"
      using platform_split [OF meth(1)] by blast
    from open_parts [OF assms meth(2) this] show ?thesis by auto
  qed
  show ?thesis
    unfolding platform_dispatch_def Let_def
    by (rule spec_any_bind_lift spec_if_cases spec_send spec_reply_error guest platform_flow_rules TrueI | assumption)+
qed

lemma platform_router_flow:
  assumes "splits_open Y"
  shows "spec (\<lambda>_. True) platform_flows (platform_handle Y c b) (\<lambda>_. True)"
proof -
  have "spec (\<lambda>_. True) platform_flows (platform_dispatcher Y b) (\<lambda>_. True)"
    unfolding platform_dispatcher_def read_message_def
    by (rule platform_dispatch_flow [OF assms] spec_message_rules platform_flow_rules TrueI | assumption)+
  moreover have "spec (\<lambda>_. True) platform_flows (platform_service Y b) (\<lambda>_. True)"
    unfolding platform_service_def Let_def
    by (rule spec_any_bind_lift spec_case_prod_eq spec_if_cases spec_case_option spec_lift_any spec_reply_error spec_send
        service_task_flows platform_flow_rules TrueI | assumption)+
  moreover have "spec (\<lambda>_. True) platform_flows (platform_error Y b) (\<lambda>_. True)"
    unfolding platform_error_def by (rule spec_message_rules platform_flow_rules TrueI | assumption)+
  ultimately show ?thesis by (simp add: platform_handle_def spec_skip)
qed

lemma profile_flow: "spec (\<lambda>_. True) platform_flows (profile_handle Y c b) (\<lambda>_. True)"
  by (unfold profile_handle_def profile_signup_def profile_login_def profile_auth_def select_profile_def Let_def)
    (rule spec_message_rules platform_flow_rules TrueI | assumption)+

lemma managers_flow: "spec (\<lambda>_. True) platform_flows (managers_handle Y c b) (\<lambda>_. True)"
  by (unfold managers_handle_def managers_add_def managers_delete_def managers_list_def managers_connect_def
      managers_disconnect_def managers_request_def managers_response_def write_ws_def read_message_def Let_def)
    (rule spec_message_rules platform_flow_rules TrueI | assumption)+

lemma platform_info_flow: "spec (\<lambda>_. True) platform_flows (info_handle Y c b) (\<lambda>_. True)"
  by (unfold info_handle_def info_handler_def Let_def) (rule spec_message_rules platform_flow_rules TrueI | assumption)+

lemma platform_program_flow:
  assumes "splits_open (X ''router'')"
  shows "spec (\<lambda>_. True) platform_flows (platform_services X (dest, c, b)) (\<lambda>_. True)"
  by (rule platform_dests [of dest])
    (simp_all add: platform_services_def spec_skip spec_inside [OF platform_router_flow [OF assms]]
      spec_inside [OF profile_flow] spec_inside [OF managers_flow] spec_inside [OF platform_info_flow])

interpretation platform_flow: network_invariant "platform_services X" platform_arrivals "\<lambda>h st. True"
  "\<lambda>h m. splits_open (X ''router'') \<longrightarrow> platform_flows m" for X :: "string \<Rightarrow> 'db ext"
proof (unfold_locales, goal_cases)
  case (1 dest command h tr)
  then show ?case by (simp add: platform_arrivals_def) (elim disjE; simp add: platform_flow_defs)
next
  case (3 h w m u w')
  obtain dest c b where m: "m = (dest, c, b)" by (cases m) auto
  from spec_run [OF platform_program_flow 3(4) [unfolded m] TrueI 3(3)] show ?case
    by (simp add: list_all_iff)
qed simp

text \<open>
  C5: in every state the platform can reach, each message under way, and each that went to a
  provider, has the body type its handler takes out by an unchecked cast. The only exceptions
  are tasks for the handler of responses of the managers and for the standard handlers of a
  service.
\<close>

theorem platform_messages_typed:
  assumes "net_run (platform_services X) platform_arrivals (platform_start manager db) h s"
    "splits_open (X ''router'')" "m \<in> set (net_pending s @ net_out s)"
  shows "typed_in platform_readers m \<or> platform_misaddressed m"
proof -
  have "platform_flows m" using platform_flow.run_keeps [OF assms(1)] assms(2,3) by (simp add: list_all_iff)
  then show ?thesis by (simp add: platform_flows_def)
qed

lemma platform_messages_typed_witness:
  "\<exists>h s m. net_run (platform_services (\<lambda>_. demo_pext)) platform_arrivals (platform_start ''m'' demo_pdb) h s
     \<and> m \<in> set (net_pending s @ net_out s) \<and> (typed_in platform_readers m \<or> platform_misaddressed m)"
proof -
  from demo_platform_exec(2) obtain h where
    run: "net_run (platform_services (\<lambda>_. demo_pext)) platform_arrivals (platform_start ''m'' demo_pdb) h
      (demo_net demo_connected_state [] [demo_connected])"
    using net_exec_run net_run.start by blast
  have "demo_connected \<in> set (net_pending (demo_net demo_connected_state [] [demo_connected])
      @ net_out (demo_net demo_connected_state [] [demo_connected]))" by (simp add: demo_net_def)
  from platform_messages_typed [OF run demo_pext_splits this] this run show ?thesis by blast
qed

text \<open>
  C40: every profile can make the platform undefined. There is no list of the methods a
  profile may call: its request for \<open>managers.response\<close> passes the router, which knows the
  handler from the commands of the service, and the handler reads the task as a transport.
\<close>

theorem profile_reaches_frame_handler:
  assumes "um_find ''service.name'' (tk_storage t) = Some ''managers''"
    "um_find ''service.method'' (tk_storage t) = Some ''response''"
    "x_contacts X ''managers'' = Some types" "''response'' \<in> set types"
  shows "platform_handle X ''service'' (B_task t) w =
      (Inr (), w \<lparr>w_sent := w_sent w @ [(''managers'', ''response'', B_task t)]\<rparr>)
    \<and> managers_handle Y ''response'' (B_task t) w2 = (Inl Undefined, w2)"
proof
  have "storage_index ''service.name'' t = (''managers'', t)" "storage_index ''service.method'' t = (''response'', t)"
    using assms(1,2) by (simp_all add: storage_index_def)
  then show "platform_handle X ''service'' (B_task t) w =
      (Inr (), w \<lparr>w_sent := w_sent w @ [(''managers'', ''response'', B_task t)]\<rparr>)"
    using assms(3,4) by (simp add: platform_handle_def platform_service_def Let_def platform_service_list_def)
  show "managers_handle Y ''response'' (B_task t) w2 = (Inl Undefined, w2)"
    by (rule platform_untyped_undefined(3) [of _ Kind_transport]) (simp_all add: reads_in_def platform_readers_def)
qed

lemma profile_reaches_frame_handler_witness:
  "let t = demo_task [] JNull [(''service.name'', ''managers''), (''service.method'', ''response'')];
       Z = demo_ext \<lparr>x_contacts := (\<lambda>_. Some [''list'', ''response''])\<rparr> in
   platform_handle Z ''service'' (B_task t) demo_platform =
      (Inr (), demo_platform \<lparr>w_sent := w_sent demo_platform @ [(''managers'', ''response'', B_task t)]\<rparr>)
    \<and> managers_handle Z ''response'' (B_task t) demo_managers = (Inl Undefined, demo_managers)"
  unfolding Let_def
  by (rule profile_reaches_frame_handler [where types = "[''list'', ''response'']"])
    (simp_all add: demo_task_def um_find_Cons)

end
