(* ===== verification/Device_Joins.thy ===== *)
theory Device_Joins
  imports Manager Ws_Client
begin

text \<open>
  A device and a manager together: the frames that the link of the device
  (\<open>stream-device/src/manager.cpp\<close>) sends when it connects and when it leaves, on their way
  through the services of the manager, from the router over the authentication and the
  permissions to the registry of devices. The link and the manager share the profile key of
  their configuration.
\<close>

section \<open>A request with the key of the manager\<close>

text \<open>The task the router makes of a request, and the task the authentication makes of that.\<close>

definition dispatched_task :: "request_message \<Rightarrow> string \<Rightarrow> string \<Rightarrow> string \<Rightarrow> string \<Rightarrow> task" where
  "dispatched_task r ident profile svc meth =
     storage_emplace ''profile.key'' profile
       (storage_emplace ''service.method'' meth (storage_emplace ''service.name'' svc (new_task ident r)))"

definition admin_task :: "request_message \<Rightarrow> string \<Rightarrow> string \<Rightarrow> string \<Rightarrow> string \<Rightarrow> string \<Rightarrow> task" where
  "admin_task r ident profile svc meth login =
     storage_emplace ''user.login'' login
       (storage_set ''user.admin'' (bool_digit True) (dispatched_task r ident profile svc meth))"

lemma dispatched_storage:
  "um_find ''service.name'' (tk_storage (dispatched_task r ident profile svc meth)) = Some svc"
  "um_find ''service.method'' (tk_storage (dispatched_task r ident profile svc meth)) = Some meth"
  "um_find ''profile.key'' (tk_storage (dispatched_task r ident profile svc meth)) = Some profile"
  by (simp_all add: dispatched_task_def new_task_def um_find_storage)

lemma admin_storage:
  "um_find ''service.name'' (tk_storage (admin_task r ident profile svc meth login)) = Some svc"
  "um_find ''service.method'' (tk_storage (admin_task r ident profile svc meth login)) = Some meth"
  "um_find ''user.admin'' (tk_storage (admin_task r ident profile svc meth login)) = Some ''1''"
  by (simp_all add: admin_task_def um_find_storage dispatched_storage bool_digit_def)

lemma admin_request [simp]:
  "tk_request (dispatched_task r ident profile svc meth) = r"
  "tk_request (admin_task r ident profile svc meth login) = r"
  "tk_transport (admin_task r ident profile svc meth login) = ident"
  by (simp_all add: admin_task_def dispatched_task_def new_task_def storage_emplace_def storage_set_def)

text \<open>
  What a request must be to get through: it can be written, names a method of two parts, and
  bears the profile key.
\<close>

definition carries_profile :: "request_message \<Rightarrow> string \<Rightarrow> bool" where
  "carries_profile r profile \<longleftrightarrow>
     sendable (req_id r) \<and> sendable (req_params r) \<and> sendable (JMap (req_metadata r)) \<and>
     om_find ''user-key'' (req_metadata r) = Some (JStr profile)"

lemma request_frame:
  assumes "carries_profile r profile"
  shows "parse_map U (serialize_request r) = Inr (request_json r)"
    "is_request (request_json r)" "fst (parse_request (request_json r)) = Inr r"
proof -
  show "parse_map U (serialize_request r) = Inr (request_json r)"
    using sendable_text [OF sendable_request] assms by (simp add: serialize_request_def carries_profile_def)
  show "is_request (request_json r)"
    by (simp add: is_request_def contains_def request_json_find)
  show "fst (parse_request (request_json r)) = Inr r"
    by (simp add: fst_parse_request entry_def params_of_def contains_def read_metadata_def request_json_find)
qed

lemma dispatch_step:
  assumes "carries_profile r profile" "x_split X (req_method r) ''.'' = svc # meth # rest"
    "x_contacts X ''users'' = Some types" "profile_key (w_priv w) = profile"
  shows "router_handle X ''dispatcher'' (B_transport (T_ws ident (serialize_request r))) w =
    (Inr (), w\<lparr>w_sent := w_sent w @ [(''users'', ''auth'', B_task (dispatched_task r ident profile svc meth))]\<rparr>)"
proof -
  have "contains (req_metadata r) ''user-key''" using assms(1) by (simp add: carries_profile_def contains_def)
  then show ?thesis
    using assms(2-4)
    by (simp add: router_handle_def router_dispatcher_def read_message_def request_frame [OF assms(1)]
        dispatch_request_def Let_def send_def dispatched_task_def)
qed

lemma admin_auth_step:
  assumes "carries_profile r profile" "x_split X profile ''.'' = login # rest" "x_contacts X ''router'' = Some types"
  shows "users_handle X ''auth'' (B_task (dispatched_task r ident profile svc meth)) w =
    (Inr (), w\<lparr>w_sent := w_sent w @ [(''router'', ''service'', B_task (admin_task r ident profile svc meth login))]\<rparr>)"
proof -
  let ?t = "dispatched_task r ident profile svc meth"
  have key: "metadata_string ''user-key'' ?t = Inr profile"
    using assms(1) by (simp add: metadata_string_def carries_profile_def)
  have prof: "storage_index ''profile.key'' ?t = (profile, ?t)"
    by (simp add: storage_index_def dispatched_storage)
  show ?thesis
    using assms(2,3) by (simp add: users_handle_def auth_cases [OF key prof] send_def admin_task_def)
qed

lemma admin_service_step:
  assumes "svc \<in> set get_service_list" "x_contacts X svc = Some types" "meth \<in> set types"
  shows "router_handle X ''service'' (B_task (admin_task r ident profile svc meth login)) w =
    (Inr (), w\<lparr>w_sent := w_sent w @ [(svc, meth, B_task (admin_task r ident profile svc meth login))]\<rparr>)"
proof -
  let ?t = "admin_task r ident profile svc meth login"
  have "storage_index ''service.name'' ?t = (svc, ?t)" "storage_index ''service.method'' ?t = (meth, ?t)"
    "storage_index ''user.admin'' ?t = (''1'', ?t)"
    by (simp_all add: storage_index_def admin_storage)
  then show ?thesis
    using assms by (simp add: router_handle_def router_service_def Let_def send_def)
qed

section \<open>Through the program\<close>

lemma deliver_forward:
  assumes "manager_services X m (world_of s) = (Inr (), (world_of s)\<lparr>w_sent := [m']\<rparr>)"
    "net_pending s = [m]" "fst m' \<notin> set providers"
  shows "deliver (manager_services X) m (taken m s) = Some (s\<lparr>net_pending := [m']\<rparr>)"
  using assms(1,3) by (simp add: deliver_def) (simp add: world_of_def post_def taken_def assms(2))

lemma world_pending [simp]: "world_of (s\<lparr>net_pending := ms\<rparr>) = world_of s"
  by (simp add: world_of_def)

lemma part_simps [simp]:
  "w_priv (part sel w) = sel (w_priv w)" "w_sent (part sel w) = w_sent w" "w_db (part sel w) = w_db w"
  "w_priv (world_of s) = net_state s" "w_sent (world_of s) = []" "w_db (world_of s) = net_db s"
  by (simp_all add: part_def world_of_def)

text \<open>Three steps bring a request with the key of the manager to the handler it names.\<close>

definition reach_service :: "string \<Rightarrow> request_message \<Rightarrow> event list" where
  "reach_service ident r =
     [Arrive ''router'' ''dispatcher'' (T_ws ident (serialize_request r)), Handle 0, Handle 0, Handle 0]"

definition open_path :: "(string \<Rightarrow> 'db ext) \<Rightarrow> string \<Rightarrow> string \<Rightarrow> string \<Rightarrow> string \<Rightarrow> string \<Rightarrow> bool" where
  "open_path X profile login command svc meth \<longleftrightarrow>
     svc \<in> set get_service_list \<and> x_split (X ''router'') command ''.'' = [svc, meth] \<and>
     (\<exists>rest. x_split (X ''users'') profile ''.'' = login # rest) \<and>
     x_contacts (X ''router'') ''users'' \<noteq> None \<and> x_contacts (X ''users'') ''router'' \<noteq> None \<and>
     (\<exists>types. x_contacts (X ''router'') svc = Some types \<and> meth \<in> set types)"

lemma service_reached:
  assumes r: "carries_profile r profile" and path: "open_path X profile login (req_method r) svc meth"
    and s: "net_pending s = []" "profile_key (st_router (net_state s)) = profile"
  shows "\<exists>h. net_exec (manager_services X) manager_arrivals (reach_service ident r @ es) ([], s) =
    net_exec (manager_services X) manager_arrivals es
      (h, s\<lparr>net_pending := [(svc, meth, B_task (admin_task r ident profile svc meth login))]\<rparr>)"
proof -
  let ?m0 = "(''router'', ''dispatcher'', B_transport (T_ws ident (serialize_request r)))"
  let ?m1 = "(''users'', ''auth'', B_task (dispatched_task r ident profile svc meth))"
  let ?m2 = "(''router'', ''service'', B_task (admin_task r ident profile svc meth login))"
  let ?m3 = "(svc, meth, B_task (admin_task r ident profile svc meth login))"
  from path obtain rest types types' types'' where path:
    "svc \<in> set get_service_list" "x_split (X ''router'') (req_method r) ''.'' = svc # meth # []"
    "x_split (X ''users'') profile ''.'' = login # rest" "x_contacts (X ''router'') ''users'' = Some types"
    "x_contacts (X ''users'') ''router'' = Some types'" "x_contacts (X ''router'') svc = Some types''" "meth \<in> set types''"
    by (auto simp: open_path_def)
  have out: "svc \<notin> set providers" using path(1) by (auto simp: get_service_list_def providers_def)
  have 1: "deliver (manager_services X) ?m0 (taken ?m0 (s\<lparr>net_pending := [?m0]\<rparr>)) = Some (s\<lparr>net_pending := [?m1]\<rparr>)"
    using deliver_forward [of X ?m0 "s\<lparr>net_pending := [?m0]\<rparr>" ?m1]
    by (simp add: manager_services_def inside_def dispatch_step [OF r path(2,4)] s(2) providers_def)
  have 2: "deliver (manager_services X) ?m1 (taken ?m1 (s\<lparr>net_pending := [?m1]\<rparr>)) = Some (s\<lparr>net_pending := [?m2]\<rparr>)"
    using deliver_forward [of X ?m1 "s\<lparr>net_pending := [?m1]\<rparr>" ?m2]
    by (simp add: manager_services_def inside_def admin_auth_step [OF r path(3,5)] providers_def)
  have 3: "deliver (manager_services X) ?m2 (taken ?m2 (s\<lparr>net_pending := [?m2]\<rparr>)) = Some (s\<lparr>net_pending := [?m3]\<rparr>)"
    using deliver_forward [of X ?m2 "s\<lparr>net_pending := [?m2]\<rparr>" ?m3] out
    by (simp add: manager_services_def inside_def admin_service_step [OF path(1,6,7)])
  show ?thesis
    by (rule exI [of _ "[(?m0, world_of s), (?m1, world_of s), (?m2, world_of s)]"])
      (simp add: reach_service_def manager_arrivals_def s(1) 1 2 3 Let_def)
qed

section \<open>The device connects\<close>

lemma device_keys_list: "device_keys p = [(''manager-key'', JStr (dev_manager_key p)), (''user-key'', JStr (dev_profile_key p))]"
  by (simp add: device_keys_def make_map_def om_merge_def om_find_Cons)

lemma connect_params:
  "req_params (connect_request p) = JMap [(''actions'', JArr [JStr ''control.on'', JStr ''control.off'']),
     (''key'', JStr (dev_device_key p)), (''variables'', JArr [JStr ''control.status''])]"
  by (simp add: connect_request_def make_map_def om_merge_def om_find_Cons)

lemma closing_params: "req_params (device_closing_request p) = JMap [(''key'', JStr (dev_device_key p))]"
  by (simp add: device_closing_request_def make_map_def om_merge_def)

lemma device_requests_carry_profile:
  "carries_profile (connect_request p) (dev_profile_key p)"
  "carries_profile (device_closing_request p) (dev_profile_key p)"
proof -
  have keys: "sendable (JMap (device_keys p))" "om_find ''user-key'' (device_keys p) = Some (JStr (dev_profile_key p))"
    by (simp_all add: device_keys_list sendable_def json_wf_JMap om_inv_def om_find_Cons)
  have md: "req_metadata (connect_request p) = device_keys p" "req_metadata (device_closing_request p) = device_keys p"
    "req_id (connect_request p) = JStr ''0''" "req_id (device_closing_request p) = JStr ''0''"
    by (simp_all add: connect_request_def device_closing_request_def)
  show "carries_profile (connect_request p) (dev_profile_key p)"
    using keys by (simp add: carries_profile_def md connect_params sendable_def json_wf_JMap om_inv_def)
  show "carries_profile (device_closing_request p) (dev_profile_key p)"
    using keys by (simp add: carries_profile_def md closing_params sendable_def json_wf_JMap om_inv_def)
qed

lemma connect_task_params:
  assumes "tk_request t = connect_request p"
  shows "param as_string ''key'' t = Inr (dev_device_key p)"
    "param as_array ''actions'' t = Inr [JStr ''control.on'', JStr ''control.off'']"
    "param as_array ''variables'' t = Inr [JStr ''control.status'']"
  by (simp_all add: param_def assms connect_params value_index_def map_index_def om_find_Cons)

lemma closing_task_key: "tk_request t = device_closing_request p \<Longrightarrow> param as_string ''key'' t = Inr (dev_device_key p)"
  by (simp add: param_def closing_params value_index_def map_index_def om_find_Cons)

definition connect_answer :: response_message where
  "connect_answer = success (JBool True) (empty_response\<lparr>res_id := JStr ''0''\<rparr>)"

lemma handshake_run:
  assumes "x_contacts Y ''client'' = Some types"
  shows "device_handle Y ''handshake'' (B_transport tr) w =
    (Inr (), w\<lparr>w_sent := w_sent w @ [(''client'', ''write'',
        B_transport (T_ws (tr_id tr) (serialize_request (connect_request (w_priv w)))))]\<rparr>)"
  using assms by (simp add: device_handle_def device_handshake_def send_def)

text \<open>The last step: the registry of devices takes the connection of the frame.\<close>

lemma connect_delivered:
  assumes "tk_request t = connect_request p" "tk_transport t = ident" "net_pending s = [(''devices'', ''connect'', B_task t)]"
    "sql_int (X ''devices'') ''select count(*) from devices where key = ?;'' [dev_device_key p] (part st_devices (world_of s))
       = (Inr n, w1)" "n > 0" "x_contacts (X ''devices'') ''ws'' = Some types"
  shows "deliver (manager_services X) (''devices'', ''connect'', B_task t) (taken (''devices'', ''connect'', B_task t) s) =
    Some (s\<lparr>net_db := w_db w1,
       net_state := net_state s\<lparr>st_devices := add_reg_device (dev_device_key p) ident
         (string_set [''control.on'', ''control.off'']) (string_set [''control.status'']) (st_devices (net_state s))\<rparr>,
       net_pending := [], net_out := net_out s @ [reply_message ident connect_answer]\<rparr>)"
proof -
  note ps = connect_task_params [OF assms(1)]
  have lists: "string_list [JStr ''control.on'', JStr ''control.off''] = Inr [''control.on'', ''control.off'']"
    "string_list [JStr ''control.status''] = Inr [''control.status'']"
    by simp_all
  have world: "world_of (taken (''devices'', ''connect'', B_task t) s) = world_of s" by simp
  have r: "success (JBool True) (response_to t) = connect_answer"
    by (simp add: response_to_def connect_answer_def assms(1) connect_request_def)
  have run: "devices_handle (X ''devices'') ''connect'' (B_task t) (part st_devices (world_of s)) =
    (Inr (), w1\<lparr>w_priv := add_reg_device (dev_device_key p) ident (string_set [''control.on'', ''control.off''])
         (string_set [''control.status'']) (st_devices (net_state s)),
       w_sent := [reply_message ident connect_answer]\<rparr>)"
    using connect_run [OF ps(1,2) lists(1) ps(3) lists(2) disjI1 assms(4,5,6)]
    by (simp add: assms(2) r)
  have "manager_services X (''devices'', ''connect'', B_task t) (world_of s) =
    (Inr (), \<lparr>w_db = w_db w1, w_priv = (net_state s)\<lparr>st_devices := add_reg_device (dev_device_key p) ident
         (string_set [''control.on'', ''control.off'']) (string_set [''control.status'']) (st_devices (net_state s))\<rparr>,
       w_sent = [reply_message ident connect_answer]\<rparr>)"
    by (simp add: manager_services_def inside_def run)
  then show ?thesis
    unfolding deliver_def world
    by (simp add: post_def taken_def assms(3) reply_message_def providers_def)
qed

text \<open>The frame of the handshake through the program, to the registry.\<close>

definition join_events :: "string \<Rightarrow> device_impl \<Rightarrow> event list" where
  "join_events ident p = reach_service ident (connect_request p) @ [Handle 0]"

definition leave_events :: "string \<Rightarrow> device_impl \<Rightarrow> event list" where
  "leave_events ident p = reach_service ident (device_closing_request p) @ [Handle 0]"

lemma join_run:
  assumes "open_path X (dev_profile_key p) login ''devices.connect'' ''devices'' ''connect''"
    "x_contacts (X ''devices'') ''ws'' = Some types" "net_pending s = []"
    "profile_key (st_router (net_state s)) = dev_profile_key p"
    "sql_int (X ''devices'') ''select count(*) from devices where key = ?;'' [dev_device_key p] (part st_devices (world_of s))
       = (Inr n, w1)" "n > 0"
  shows "\<exists>h. net_exec (manager_services X) manager_arrivals (join_events ident p) ([], s) =
    Some (h, s\<lparr>net_db := w_db w1,
       net_state := net_state s\<lparr>st_devices := add_reg_device (dev_device_key p) ident
         (string_set [''control.on'', ''control.off'']) (string_set [''control.status'']) (st_devices (net_state s))\<rparr>,
       net_pending := [], net_out := net_out s @ [reply_message ident connect_answer]\<rparr>)"
proof -
  let ?r = "connect_request p"
  let ?t = "admin_task ?r ident (dev_profile_key p) ''devices'' ''connect'' login"
  let ?s = "s\<lparr>net_pending := [(''devices'', ''connect'', B_task ?t)]\<rparr>"
  have name: "req_method ?r = ''devices.connect''" by (simp add: connect_request_def)
  obtain h where h: "net_exec (manager_services X) manager_arrivals (join_events ident p) ([], s) =
      net_exec (manager_services X) manager_arrivals [Handle 0] (h, ?s)"
    using service_reached [OF device_requests_carry_profile(1) _ assms(3,4), where svc = "''devices''"
        and meth = "''connect''" and login = login and es = "[Handle 0]" and ident = ident and X = X]
      assms(1) name unfolding join_events_def by auto
  have d: "deliver (manager_services X) (''devices'', ''connect'', B_task ?t) (taken (''devices'', ''connect'', B_task ?t) ?s) =
    Some (?s\<lparr>net_db := w_db w1,
       net_state := net_state ?s\<lparr>st_devices := add_reg_device (dev_device_key p) ident
         (string_set [''control.on'', ''control.off'']) (string_set [''control.status'']) (st_devices (net_state ?s))\<rparr>,
       net_pending := [], net_out := net_out ?s @ [reply_message ident connect_answer]\<rparr>)"
    using connect_delivered [of ?t p ident ?s X n w1] assms(2,5,6) by simp
  then show ?thesis using h by simp
qed

section \<open>The device leaves\<close>

text \<open>The answer of the manager makes the link of the device arm its client with the closing message.\<close>

lemma answer_arms_closing:
  assumes "x_contacts Y ''client'' = Some types"
  shows "device_handle Y ''dispatcher'' (B_transport (T_ws i (serialize_response connect_answer))) w =
    (Inr (), w\<lparr>w_sent := w_sent w @ [(''client'', ''set_closing_message'',
        B_string (serialize_request (device_closing_request (w_priv w))))]\<rparr>)"
proof -
  have "sendable_response connect_answer"
    by (simp add: sendable_response_def connect_answer_def success_def empty_response_def sendable_def json_wf_JMap)
  from sendable_text [OF sendable_response_json [OF this]]
  have parse: "parse_map (x_utf Y) (serialize_response connect_answer) = Inr (response_json connect_answer)"
    by (simp add: serialize_response_def)
  have none: "res_error connect_answer = None" "res_metadata connect_answer = []"
    by (simp_all add: connect_answer_def success_def empty_response_def)
  have kind: "\<not> is_request (response_json connect_answer)" "\<not> contains (response_json connect_answer) ''error''"
    "is_response (response_json connect_answer)"
    by (simp_all add: is_request_def is_response_def contains_def response_json_find none)
  show ?thesis
    using assms by (simp add: device_handle_def device_dispatcher_def read_message_def parse kind send_def)
qed

lemma disconnect_run:
  assumes "tk_request t = device_closing_request p"
  shows "devices_handle X ''disconnect'' (B_task t) w =
    (Inr (), w\<lparr>w_priv := remove_reg_device (dev_device_key p) (w_priv w)\<rparr>)"
  by (simp add: devices_handle_def devices_disconnect_def closing_task_key [OF assms])

lemma leave_run:
  assumes "open_path X (dev_profile_key p) login ''devices.disconnect'' ''devices'' ''disconnect''" "net_pending s = []"
    "profile_key (st_router (net_state s)) = dev_profile_key p"
  shows "\<exists>h. net_exec (manager_services X) manager_arrivals (leave_events ident p) ([], s) =
    Some (h, s\<lparr>net_state := net_state s\<lparr>st_devices := remove_reg_device (dev_device_key p) (st_devices (net_state s))\<rparr>\<rparr>)"
proof -
  let ?r = "device_closing_request p"
  let ?t = "admin_task ?r ident (dev_profile_key p) ''devices'' ''disconnect'' login"
  let ?s = "s\<lparr>net_pending := [(''devices'', ''disconnect'', B_task ?t)]\<rparr>"
  have name: "req_method ?r = ''devices.disconnect''" by (simp add: device_closing_request_def)
  obtain h where h: "net_exec (manager_services X) manager_arrivals (leave_events ident p) ([], s) =
      net_exec (manager_services X) manager_arrivals [Handle 0] (h, ?s)"
    using service_reached [OF device_requests_carry_profile(2) _ assms(2,3), where svc = "''devices''"
        and meth = "''disconnect''" and login = login and es = "[Handle 0]" and ident = ident and X = X]
      assms(1) name unfolding leave_events_def by auto
  have "deliver (manager_services X) (''devices'', ''disconnect'', B_task ?t) (taken (''devices'', ''disconnect'', B_task ?t) ?s) =
    Some (s\<lparr>net_state := net_state s\<lparr>st_devices := remove_reg_device (dev_device_key p) (st_devices (net_state s))\<rparr>\<rparr>)"
    by (simp add: deliver_def manager_services_def inside_def disconnect_run [OF admin_request(2)])
      (simp add: taken_def post_def world_of_def part_def assms(2))
  then show ?thesis using h by simp
qed

text \<open>The client provider keeps the closing message and writes it when it is shut down.\<close>

lemma request_text: "serialize_request r \<noteq> []"
  by (simp add: serialize_request_def to_string_def)

lemma shutdown_writes_closing:
  "frame \<noteq> [] \<Longrightarrow> \<exists>c'. client_handle ''set_closing_message'' (B_string frame) c = Inr c'
     \<and> cl_session (client_shutdown c') = client_write frame (cl_session c)"
  by (simp add: client_handle_def cl_set_closing_message_def client_shutdown_def)

section \<open>What the two programs do together\<close>

lemma events_of_frame:
  "join_events ident p = [Arrive ''router'' ''dispatcher'' (T_ws ident (serialize_request (connect_request p))),
     Handle 0, Handle 0, Handle 0, Handle 0]"
  "leave_events ident p = [Arrive ''router'' ''dispatcher'' (T_ws ident (serialize_request (device_closing_request p))),
     Handle 0, Handle 0, Handle 0, Handle 0]"
  by (simp_all add: join_events_def leave_events_def reach_service_def)

text \<open>
  \<open>add_reg_device\<close> is an \<open>emplace\<close> on each of the three registries: a device that is
  registered keeps what it has.
\<close>

lemma add_registered:
  assumes "devices_inv d" "is_reg_device k d"
  shows "add_reg_device k i as vs d = d"
proof -
  have "um_find k (devices_reg d) \<noteq> None" "um_find k (device_actions_reg d) \<noteq> None"
    "um_find k (device_variables_reg d) \<noteq> None"
    using assms unfolding devices_inv_def is_reg_device_def by metis+
  then obtain x y z where "um_find k (devices_reg d) = Some x" "um_find k (device_actions_reg d) = Some y"
    "um_find k (device_variables_reg d) = Some z"
    by auto
  then show ?thesis by (simp add: add_reg_device_def um_emplace_def)
qed

lemma registry_add_other:
  assumes "j \<noteq> k"
  shows "get_device_transport_id j (add_reg_device k i as vs d) = get_device_transport_id j d"
    "get_device_actions j (add_reg_device k i as vs d) = get_device_actions j d"
    "get_device_variables j (add_reg_device k i as vs d) = get_device_variables j d"
  using assms
  by (simp_all add: add_reg_device_def get_device_transport_id_def get_device_actions_def get_device_variables_def
      map_at_def um_find_emplace)

lemma registry_add_new:
  assumes "devices_inv d" "\<not> is_reg_device k d"
  shows "get_device_transport_id k (add_reg_device k i as vs d) = Inr i"
    "get_device_actions k (add_reg_device k i as vs d) = Inr as"
    "get_device_variables k (add_reg_device k i as vs d) = Inr vs"
proof -
  have "um_find k (devices_reg d) = None" "um_find k (device_actions_reg d) = None" "um_find k (device_variables_reg d) = None"
    using assms by (auto simp: devices_inv_def is_reg_device_def)
  then show "get_device_transport_id k (add_reg_device k i as vs d) = Inr i"
    "get_device_actions k (add_reg_device k i as vs d) = Inr as"
    "get_device_variables k (add_reg_device k i as vs d) = Inr vs"
    by (simp_all add: add_reg_device_def get_device_transport_id_def get_device_actions_def get_device_variables_def
        map_at_def um_find_emplace)
qed

lemma registry_after_remove:
  "is_reg_device k' (remove_reg_device k d) \<longleftrightarrow> k' \<noteq> k \<and> is_reg_device k' d"
  "get_device_transport_id k (remove_reg_device k d) = Inl Out_of_range"
  "get_device_actions k (remove_reg_device k d) = Inl Out_of_range"
  "get_device_variables k (remove_reg_device k d) = Inl Out_of_range"
  "k' \<noteq> k \<Longrightarrow> get_device_transport_id k' (remove_reg_device k d) = get_device_transport_id k' d"
  "k' \<noteq> k \<Longrightarrow> get_device_actions k' (remove_reg_device k d) = get_device_actions k' d"
  "k' \<noteq> k \<Longrightarrow> get_device_variables k' (remove_reg_device k d) = get_device_variables k' d"
  by (simp_all add: remove_reg_device_def is_reg_device_def get_device_transport_id_def get_device_actions_def
      get_device_variables_def map_at_def um_find_erase)

text \<open>
  C12: a device that connects joins the manager: the frame that its link writes at the
  handshake, brought over any connection to a manager with the same profile key whose database
  counts the device, registers a device that is not registered under that connection, with
  its two actions and its variable; a device that is already registered keeps the connection,
  the actions and the variables it had, and nothing in the registries changes. In both cases
  the other devices stay as they were and the frame is answered once, over its own
  connection, with the result \<open>true\<close>.
\<close>

theorem device_joins_manager:
  assumes "x_contacts Y ''client'' \<noteq> None" "k = dev_device_key (w_priv w)"
    "open_path X (dev_profile_key (w_priv w)) login ''devices.connect'' ''devices'' ''connect''"
    "x_contacts (X ''devices'') ''ws'' \<noteq> None" "net_pending s = []"
    "profile_key (st_router (net_state s)) = dev_profile_key (w_priv w)"
    "sql_int (X ''devices'') ''select count(*) from devices where key = ?;'' [k] (part st_devices (world_of s)) = (Inr n, w1)"
    "n > 0" "devices_inv (st_devices (net_state s))"
  shows "\<exists>frame.
     device_handle Y ''handshake'' (B_transport tr) w =
       (Inr (), w\<lparr>w_sent := w_sent w @ [(''client'', ''write'', B_transport (T_ws (tr_id tr) frame))]\<rparr>)
     \<and> (case net_exec (manager_services X) manager_arrivals
             [Arrive ''router'' ''dispatcher'' (T_ws ident frame), Handle 0, Handle 0, Handle 0, Handle 0] ([], s) of
          None \<Rightarrow> False
        | Some (h, s') \<Rightarrow> let d = st_devices (net_state s); d' = st_devices (net_state s') in
            (if is_reg_device k d then d' = d
             else get_device_transport_id k d' = Inr ident
               \<and> get_device_actions k d' = Inr (string_set [''control.on'', ''control.off''])
               \<and> get_device_variables k d' = Inr (string_set [''control.status'']))
            \<and> (\<forall>j. j \<noteq> k \<longrightarrow> get_device_transport_id j d' = get_device_transport_id j d
                  \<and> get_device_actions j d' = get_device_actions j d \<and> get_device_variables j d' = get_device_variables j d)
            \<and> net_pending s' = [] \<and> net_out s' = net_out s @ [reply_message ident connect_answer])"
proof -
  obtain types types' where contacts: "x_contacts Y ''client'' = Some types" "x_contacts (X ''devices'') ''ws'' = Some types'"
    using assms(1,4) by blast
  obtain h where run: "net_exec (manager_services X) manager_arrivals (join_events ident (w_priv w)) ([], s) =
    Some (h, s\<lparr>net_db := w_db w1,
       net_state := net_state s\<lparr>st_devices := add_reg_device k ident
         (string_set [''control.on'', ''control.off'']) (string_set [''control.status'']) (st_devices (net_state s))\<rparr>,
       net_pending := [], net_out := net_out s @ [reply_message ident connect_answer]\<rparr>)"
    using join_run [OF assms(3) contacts(2) assms(5,6) assms(7) [unfolded assms(2)] assms(8), of ident] assms(2) by auto
  show ?thesis
    by (intro exI [of _ "serialize_request (connect_request (w_priv w))"] conjI handshake_run [OF contacts(1)])
      (simp add: events_of_frame(1) [symmetric] run add_registered [OF assms(9)] registry_add_new [OF assms(9)] registry_add_other)
qed

text \<open>
  C13: how a device leaves the manager: the answer to its connection makes its link arm the
  client with a closing message; at shut down the client hands this message to its session
  (that it is still written is not claimed: the environment stops the loop right after);
  and when the message reaches the manager over any connection, the device is out of all
  three registries, its connection, its actions and its variables are no longer found, with no
  answer, no access to the database and no change to another device.
\<close>

theorem device_leaves_manager:
  assumes "x_contacts Y ''client'' \<noteq> None" "k = dev_device_key (w_priv w)"
    "open_path X (dev_profile_key (w_priv w)) login ''devices.disconnect'' ''devices'' ''disconnect''"
    "net_pending s = []" "profile_key (st_router (net_state s)) = dev_profile_key (w_priv w)"
  shows "\<exists>frame.
     device_handle Y ''dispatcher'' (B_transport (T_ws i (serialize_response connect_answer))) w =
       (Inr (), w\<lparr>w_sent := w_sent w @ [(''client'', ''set_closing_message'', B_string frame)]\<rparr>)
     \<and> (\<exists>c'. client_handle ''set_closing_message'' (B_string frame) c = Inr c'
          \<and> cl_session (client_shutdown c') = client_write frame (cl_session c))
     \<and> (case net_exec (manager_services X) manager_arrivals
             [Arrive ''router'' ''dispatcher'' (T_ws ident frame), Handle 0, Handle 0, Handle 0, Handle 0] ([], s) of
          None \<Rightarrow> False
        | Some (h, s') \<Rightarrow> let d = st_devices (net_state s); d' = st_devices (net_state s') in
            \<not> is_reg_device k d' \<and> get_device_transport_id k d' = Inl Out_of_range
            \<and> get_device_actions k d' = Inl Out_of_range \<and> get_device_variables k d' = Inl Out_of_range
            \<and> (\<forall>j. j \<noteq> k \<longrightarrow> get_device_transport_id j d' = get_device_transport_id j d
                  \<and> get_device_actions j d' = get_device_actions j d \<and> get_device_variables j d' = get_device_variables j d)
            \<and> net_pending s' = [] \<and> net_out s' = net_out s \<and> net_db s' = net_db s)"
proof -
  obtain types where client: "x_contacts Y ''client'' = Some types" using assms(1) by blast
  note closing = shutdown_writes_closing [OF request_text]
  obtain h where run: "net_exec (manager_services X) manager_arrivals (leave_events ident (w_priv w)) ([], s) =
    Some (h, s\<lparr>net_state := net_state s\<lparr>st_devices := remove_reg_device k (st_devices (net_state s))\<rparr>\<rparr>)"
    using leave_run [OF assms(3,4,5), of ident] assms(2) by auto
  show ?thesis
    by (intro exI [of _ "serialize_request (device_closing_request (w_priv w))"] conjI answer_arms_closing [OF client] closing)
      (simp add: events_of_frame(2) [symmetric] run registry_after_remove assms(4))
qed

section \<open>A switch and its manager\<close>

definition lamp_link :: device_impl where
  "lamp_link = \<lparr>dev_device_key = ''lamp'', dev_manager_key = ''m'', dev_profile_key = ''adm.x''\<rparr>"

definition lamp_ext :: "(string list \<Rightarrow> sql_row list) ext" where
  "lamp_ext = demo_ext\<lparr>x_contacts := \<lambda>name. Some [''connect'', ''disconnect'']\<rparr>"

definition lamp_net :: "(string list \<Rightarrow> sql_row list, manager_state) network" where
  "lamp_net = manager_start ''adm.x'' ''m'' (\<lambda>args. [[Sql_int 1]])"

definition lamp_device :: "(string list \<Rightarrow> sql_row list, device_impl) world" where
  "lamp_device = \<lparr>w_db = (\<lambda>args. []), w_priv = lamp_link, w_sent = []\<rparr>"

lemma lamp_facts:
  "x_contacts lamp_ext name = Some [''connect'', ''disconnect'']" "dev_device_key (w_priv lamp_device) = ''lamp''"
  "dev_profile_key (w_priv lamp_device) = ''adm.x''" "net_pending lamp_net = []"
  "profile_key (st_router (net_state lamp_net)) = ''adm.x''" "st_devices (net_state lamp_net) = no_devices"
  by (simp_all add: lamp_ext_def lamp_device_def lamp_link_def lamp_net_def manager_initial_def)

lemma lamp_path:
  "open_path (\<lambda>_. lamp_ext) ''adm.x'' ''adm'' ''devices.connect'' ''devices'' ''connect''"
  "open_path (\<lambda>_. lamp_ext) ''adm.x'' ''adm'' ''devices.disconnect'' ''devices'' ''disconnect''"
proof -
  have "x_split lamp_ext ''devices.connect'' ''.'' = [''devices'', ''connect'']"
    "x_split lamp_ext ''devices.disconnect'' ''.'' = [''devices'', ''disconnect'']"
    "x_split lamp_ext ''adm.x'' ''.'' = [''adm'', ''x'']" by code_simp+
  then show "open_path (\<lambda>_. lamp_ext) ''adm.x'' ''adm'' ''devices.connect'' ''devices'' ''connect''"
    "open_path (\<lambda>_. lamp_ext) ''adm.x'' ''adm'' ''devices.disconnect'' ''devices'' ''disconnect''"
    by (simp_all add: open_path_def lamp_facts get_service_list_def)
qed

lemma lamp_sql:
  "sql_int lamp_ext ''select count(*) from devices where key = ?;'' [''lamp''] (part st_devices (world_of lamp_net)) =
     (Inr 1, part st_devices (world_of lamp_net))"
  by (simp add: sql_int_def lamp_ext_def demo_ext_def lamp_net_def manager_start_def part_def world_of_def)

lemma device_joins_manager_witness:
  "\<exists>frame.
     device_handle lamp_ext ''handshake'' (B_transport (T_ws ''c'' [])) lamp_device =
       (Inr (), lamp_device\<lparr>w_sent := w_sent lamp_device @
         [(''client'', ''write'', B_transport (T_ws (tr_id (T_ws ''c'' [])) frame))]\<rparr>)
     \<and> (case net_exec (manager_services (\<lambda>_. lamp_ext)) manager_arrivals
             [Arrive ''router'' ''dispatcher'' (T_ws ''7'' frame), Handle 0, Handle 0, Handle 0, Handle 0] ([], lamp_net) of
          None \<Rightarrow> False
        | Some (h, s') \<Rightarrow> let d = st_devices (net_state lamp_net); d' = st_devices (net_state s') in
            (if is_reg_device ''lamp'' d then d' = d
             else get_device_transport_id ''lamp'' d' = Inr ''7''
               \<and> get_device_actions ''lamp'' d' = Inr (string_set [''control.on'', ''control.off''])
               \<and> get_device_variables ''lamp'' d' = Inr (string_set [''control.status'']))
            \<and> (\<forall>j. j \<noteq> ''lamp'' \<longrightarrow> get_device_transport_id j d' = get_device_transport_id j d
                  \<and> get_device_actions j d' = get_device_actions j d \<and> get_device_variables j d' = get_device_variables j d)
            \<and> net_pending s' = [] \<and> net_out s' = net_out lamp_net @ [reply_message ''7'' connect_answer])"
  by (rule device_joins_manager [where login = "''adm''" and n = 1 and ?w1.0 = "part st_devices (world_of lamp_net)"])
    (simp_all only: lamp_facts lamp_path lamp_sql devices_inv_empty,
     simp_all add: is_reg_device_def no_devices_def)

lemma device_leaves_manager_witness:
  "\<exists>frame.
     device_handle lamp_ext ''dispatcher'' (B_transport (T_ws ''c'' (serialize_response connect_answer))) lamp_device =
       (Inr (), lamp_device\<lparr>w_sent := w_sent lamp_device @ [(''client'', ''set_closing_message'', B_string frame)]\<rparr>)
     \<and> (\<exists>c'. client_handle ''set_closing_message'' (B_string frame) (ws_client_new ''now'') = Inr c'
          \<and> cl_session (client_shutdown c') = client_write frame (cl_session (ws_client_new ''now'')))
     \<and> (case net_exec (manager_services (\<lambda>_. lamp_ext)) manager_arrivals
             [Arrive ''router'' ''dispatcher'' (T_ws ''7'' frame), Handle 0, Handle 0, Handle 0, Handle 0] ([], lamp_net) of
          None \<Rightarrow> False
        | Some (h, s') \<Rightarrow> let d = st_devices (net_state lamp_net); d' = st_devices (net_state s') in
            \<not> is_reg_device ''lamp'' d' \<and> get_device_transport_id ''lamp'' d' = Inl Out_of_range
            \<and> get_device_actions ''lamp'' d' = Inl Out_of_range \<and> get_device_variables ''lamp'' d' = Inl Out_of_range
            \<and> (\<forall>j. j \<noteq> ''lamp'' \<longrightarrow> get_device_transport_id j d' = get_device_transport_id j d
                  \<and> get_device_actions j d' = get_device_actions j d \<and> get_device_variables j d' = get_device_variables j d)
            \<and> net_pending s' = [] \<and> net_out s' = net_out lamp_net \<and> net_db s' = net_db lamp_net)"
  by (rule device_leaves_manager [where login = "''adm''"]) (simp_all only: lamp_facts lamp_path, simp_all)

end
