(* ===== verification/Remote_Calls.thy ===== *)
theory Remote_Calls
  imports Platform_Net Ws_Server
begin

text \<open>
  A manager behind a platform: the frames that the link of the manager
  (\<open>stream-manager/src/platform.cpp\<close>) sends to join, on their way through the services of the
  platform; then a request of a user that the platform relays to the manager, and the
  reply that goes back, each through the services of both programs.
\<close>

section \<open>What is sent can be read\<close>

definition sendable_request_message :: "request_message \<Rightarrow> bool" where
  "sendable_request_message r \<longleftrightarrow> sendable (req_id r) \<and> sendable (req_params r) \<and> sendable (JMap (req_metadata r))"

lemma request_read:
  assumes "sendable_request_message r"
  shows "parse_map U (serialize_request r) = Inr (request_json r)" "is_request (request_json r)"
    "parse_request (request_json r) =
       (Inr r, if req_params r = JNull then om_set ''params'' JNull (request_json r) else request_json r)"
proof -
  show "parse_map U (serialize_request r) = Inr (request_json r)"
    using sendable_text [OF sendable_request] assms by (simp add: serialize_request_def sendable_request_message_def)
  show "is_request (request_json r)"
    by (simp add: is_request_def contains_def request_json_find)
  have "read_params (request_json r) =
      (req_params r, if req_params r = JNull then om_set ''params'' JNull (request_json r) else request_json r)"
    by (simp add: read_params_def contains_def request_json_find map_index_def)
  then show "parse_request (request_json r) =
       (Inr r, if req_params r = JNull then om_set ''params'' JNull (request_json r) else request_json r)"
    by (simp add: parse_request_def map_index_def read_metadata_def contains_def request_json_find om_find_set)
qed

lemma sendable_erase: "sendable (JMap m) \<Longrightarrow> sendable (JMap (om_erase k m))"
  using json_wf_JMap_erase [of m k] by (auto simp: sendable_def printable_JMap om_erase_def simp del: printable.simps(3))

lemma first_step:
  assumes "deliver handle m (taken m (s\<lparr>net_pending := [m]\<rparr>)) = Some s'" "net_pending s = []"
    "m = (dest, command, B_transport tr)" "(dest, command) \<in> set arrivals"
  shows "net_exec handle arrivals (Arrive dest command tr # Handle 0 # es) ([], s) =
    net_exec handle arrivals es ([(m, world_of (s\<lparr>net_pending := [m]\<rparr>))], s')"
  using assms by (simp add: Let_def)

lemma next_step:
  assumes "deliver handle m (taken m s) = Some s'" "net_pending s = [m]"
  shows "net_exec handle arrivals (Handle 0 # es) (h, s) = net_exec handle arrivals es (h @ [(m, world_of s)], s')"
  using assms by (simp add: Let_def)

section \<open>The manager joins the platform\<close>

lemma manager_request_read:
  "sendable_request_message (manager_request method p)"
  "req_method (manager_request method p) = method"
  "req_metadata (manager_request method p) = [(''profile-key'', JStr (link_profile_key p))]"
  "req_params (manager_request method p) = JMap [(''key'', JStr (link_manager_key p))]"
  "req_id (manager_request method p) = JStr ''0''"
  by (simp_all add: manager_request_def make_map_def om_merge_def sendable_request_message_def sendable_def
      json_wf_JMap om_inv_def)

definition unchecked_task :: "request_message \<Rightarrow> string \<Rightarrow> string \<Rightarrow> string \<Rightarrow> task" where
  "unchecked_task r ident svc meth =
     storage_emplace ''service.method'' meth (storage_emplace ''service.name'' svc (platform_task ident r))"

definition checked_by :: "string \<Rightarrow> task \<Rightarrow> task" where
  "checked_by login t = storage_emplace ''profile.login'' login t"

lemma platform_task_facts:
  "tk_request (unchecked_task r ident svc meth) = r" "tk_transport (unchecked_task r ident svc meth) = ident"
  "tk_request (checked_by login t) = tk_request t" "tk_transport (checked_by login t) = tk_transport t"
  "storage_index ''service.name'' (checked_by login (unchecked_task r ident svc meth)) =
     (svc, checked_by login (unchecked_task r ident svc meth))"
  "storage_index ''service.method'' (checked_by login (unchecked_task r ident svc meth)) =
     (meth, checked_by login (unchecked_task r ident svc meth))"
  "storage_index ''profile.login'' (checked_by login (unchecked_task r ident svc meth)) =
     (login, checked_by login (unchecked_task r ident svc meth))"
  by (simp_all add: unchecked_task_def checked_by_def platform_task_def storage_emplace_def storage_index_def
      um_emplace_def um_find_Cons)

lemma platform_dispatch_step:
  assumes "sendable_request_message r" "contains (req_metadata r) ''profile-key''"
    "\<not> contains (req_metadata r) ''manager-key''" "x_split X (req_method r) ''.'' = svc # meth # rest"
    "x_contacts X ''profile'' = Some types"
  shows "platform_handle X ''dispatcher'' (B_transport (T_ws ident (serialize_request r))) w =
    (Inr (), w\<lparr>w_sent := w_sent w @ [(''profile'', ''auth'', B_task (unchecked_task r ident svc meth))]\<rparr>)"
  using assms(2-5)
  by (simp add: platform_handle_def platform_dispatcher_def read_message_def request_read [OF assms(1)]
      platform_dispatch_def Let_def send_def unchecked_task_def)

text \<open>
  The key passes the check when it is in the cache, or when the database has its password; then
  it is in the cache.
\<close>

definition key_passes :: "'db ext \<Rightarrow> string \<Rightarrow> string \<Rightarrow> ('db, profile_impl) world \<Rightarrow> bool" where
  "key_passes X key login w \<longleftrightarrow>
     (\<exists>rest. x_split X key ''.'' = login # rest) \<and>
     (profile_is_auth key (w_priv w) \<or>
       (\<exists>l password. x_split X key ''.'' = [login, password] \<and> select_profile X login w = (Inr (l, password), w)))"

lemma profile_auth_step:
  assumes "key_passes X key login w" "metadata_string ''profile-key'' t = Inr key" "x_contacts X ''router'' = Some types"
  shows "profile_handle X ''auth'' (B_task t) w =
    (Inr (), w\<lparr>w_priv := profile_add_auth key (w_priv w),
       w_sent := w_sent w @ [(''router'', ''service'', B_task (checked_by login t))]\<rparr>)"
proof (cases "profile_is_auth key (w_priv w)")
  case True
  then have "profile_add_auth key (w_priv w) = w_priv w"
    by (simp add: profile_add_auth_def profile_is_auth_def us_emplace_def)
  with True assms show ?thesis
    by (auto simp: key_passes_def profile_handle_def profile_auth_def Let_def vec_at_def send_def checked_by_def)
next
  case False
  then obtain l password where "x_split X key ''.'' = [login, password]" "select_profile X login w = (Inr (l, password), w)"
    using assms(1) by (auto simp: key_passes_def)
  with False assms(2,3) show ?thesis
    by (simp add: profile_handle_def profile_auth_def Let_def vec_at_def send_def checked_by_def)
qed

lemma platform_service_step:
  assumes "svc \<in> set platform_service_list" "x_contacts X svc = Some types" "meth \<in> set types"
  shows "platform_handle X ''service'' (B_task (checked_by login (unchecked_task r ident svc meth))) w =
    (Inr (), w\<lparr>w_sent := w_sent w @ [(svc, meth, B_task (checked_by login (unchecked_task r ident svc meth)))]\<rparr>)"
  using assms by (simp add: platform_handle_def platform_service_def platform_task_facts send_def)

definition join_answer :: response_message where
  "join_answer = success (JBool True) (empty_response\<lparr>res_id := JStr ''0''\<rparr>)"

lemma managers_connect_step:
  assumes "tk_request t = manager_request ''managers.connect'' p" "storage_index ''profile.login'' t = (login, t)"
    "sql_int X ''select count(*) from managers where key = ? and profile_login = ?'' [link_manager_key p, login] w = (Inr n, w1)"
    "n > 0" "x_contacts X ''ws'' = Some types"
  shows "managers_handle X ''connect'' (B_task t) w =
    (Inr (), w1\<lparr>w_priv := add_reg_manager (link_manager_key p) (tk_transport t) (w_priv w),
       w_sent := w_sent w @ [reply_message (tk_transport t) join_answer]\<rparr>)"
proof -
  have key: "param as_string ''key'' t = Inr (link_manager_key p)"
    by (simp add: param_def assms(1) manager_request_read value_index_def map_index_def om_find_Cons)
  have r: "success (JBool True) (response_to t) = join_answer"
    by (simp add: response_to_def join_answer_def assms(1) manager_request_read)
  show ?thesis
    using assms(2-5) key sql_int_frame [OF assms(3)]
    by (simp add: managers_handle_def managers_connect_def answer_def caught_def respond_def write_ws_def
        reply_message_def Let_def r)
qed

lemma world_parts [simp]:
  "w_priv (part sel w) = sel (w_priv w)" "w_sent (part sel w) = w_sent w" "w_db (part sel w) = w_db w"
  "w_priv (world_of s) = net_state s" "w_sent (world_of s) = []" "w_db (world_of s) = net_db s"
  "world_of (s\<lparr>net_pending := ms\<rparr>) = world_of s"
  by (simp_all add: part_def world_of_def)

lemma remote_join_run:
  fixes s :: "('db, platform_state) network"
  assumes k: "key = link_profile_key p" "mk = link_manager_key p"
    and split: "x_split (X ''router'') ''managers.connect'' ''.'' = [''managers'', ''connect'']"
    and contacts: "x_contacts (X ''router'') ''profile'' = Some types1" "x_contacts (X ''profile'') ''router'' = Some types2"
      "x_contacts (X ''router'') ''managers'' = Some types3" "''connect'' \<in> set types3"
      "x_contacts (X ''managers'') ''ws'' = Some types4"
    and s: "net_pending s = []"
    and pass: "key_passes (X ''profile'') key login (part pl_profile (world_of s))"
    and count: "sql_int (X ''managers'') ''select count(*) from managers where key = ? and profile_login = ?'' [mk, login]
        (part pl_managers (world_of s)) = (Inr n, w1)" "n > 0"
  shows "\<exists>h. net_exec (platform_services X) platform_arrivals
      [Arrive ''router'' ''dispatcher'' (T_ws ident (serialize_request (manager_request ''managers.connect'' p))),
       Handle 0, Handle 0, Handle 0, Handle 0] ([], s) =
    Some (h, s\<lparr>net_db := w_db w1,
       net_state := net_state s\<lparr>pl_profile := profile_add_auth key (pl_profile (net_state s)),
         pl_managers := add_reg_manager mk ident (pl_managers (net_state s))\<rparr>,
       net_pending := [], net_out := net_out s @ [reply_message ident join_answer]\<rparr>)"
proof -
  let ?r = "manager_request ''managers.connect'' p"
  let ?t0 = "unchecked_task ?r ident ''managers'' ''connect''"
  let ?t1 = "checked_by login ?t0"
  let ?m0 = "(''router'', ''dispatcher'', B_transport (T_ws ident (serialize_request ?r)))"
  let ?m1 = "(''profile'', ''auth'', B_task ?t0)"
  let ?m2 = "(''router'', ''service'', B_task ?t1)"
  let ?m3 = "(''managers'', ''connect'', B_task ?t1)"
  let ?st = "net_state s\<lparr>pl_profile := profile_add_auth key (pl_profile (net_state s))\<rparr>"
  let ?s1 = "s\<lparr>net_pending := [?m1]\<rparr>"
  let ?s2 = "s\<lparr>net_state := ?st, net_pending := [?m2]\<rparr>"
  let ?s3 = "s\<lparr>net_state := ?st, net_pending := [?m3]\<rparr>"
  have mds: "contains (req_metadata ?r) ''profile-key''" "\<not> contains (req_metadata ?r) ''manager-key''"
    "metadata_string ''profile-key'' ?t0 = Inr key"
    by (simp_all add: manager_request_read contains_def om_find_Cons metadata_string_def platform_task_facts k)
  have listed: "''managers'' \<in> set platform_service_list" by (simp add: platform_service_list_def)
  have "platform_services X ?m0 (world_of s) = (Inr (), (world_of s)\<lparr>w_sent := [?m1]\<rparr>)"
    by (simp add: platform_services_def inside_def manager_request_read split
        platform_dispatch_step [OF manager_request_read(1) mds(1,2) _ contacts(1), where svc = "''managers''" and meth = "''connect''"])
  then have 1: "deliver (platform_services X) ?m0 (taken ?m0 (s\<lparr>net_pending := [?m0]\<rparr>)) = Some ?s1"
    using deliver_run [of "platform_services X" ?m0 "s\<lparr>net_pending := [?m0]\<rparr>"]
    by (simp add: providers_def)
  have "platform_services X ?m1 (world_of s) = (Inr (), (world_of s)\<lparr>w_priv := ?st, w_sent := [?m2]\<rparr>)"
    by (simp add: platform_services_def inside_def profile_auth_step [OF pass mds(3) contacts(2)])
  then have 2: "deliver (platform_services X) ?m1 (taken ?m1 ?s1) = Some ?s2"
    using deliver_run [of "platform_services X" ?m1 ?s1] by (simp add: providers_def)
  have "platform_services X ?m2 (world_of ?s2) = (Inr (), (world_of ?s2)\<lparr>w_sent := [?m3]\<rparr>)"
    by (simp add: platform_services_def inside_def platform_service_step [OF listed contacts(3,4)])
  then have 3: "deliver (platform_services X) ?m2 (taken ?m2 ?s2) = Some ?s3"
    using deliver_run [of "platform_services X" ?m2 ?s2] by (simp add: providers_def)
  have same: "part pl_managers (world_of ?s3) = part pl_managers (world_of s)" by (simp add: part_def world_of_def)
  have "platform_services X ?m3 (world_of ?s3) = (Inr (), \<lparr>w_db = w_db w1,
      w_priv = ?st\<lparr>pl_managers := add_reg_manager mk ident (pl_managers (net_state s))\<rparr>,
      w_sent = [reply_message ident join_answer]\<rparr>)"
    using managers_connect_step [OF _ _ count(1) [folded same, unfolded k(2)] count(2) contacts(5), of ?t1]
    by (simp add: platform_services_def inside_def platform_task_facts k(2))
  then have 4: "deliver (platform_services X) ?m3 (taken ?m3 ?s3) = Some (s\<lparr>net_db := w_db w1,
       net_state := net_state s\<lparr>pl_profile := profile_add_auth key (pl_profile (net_state s)),
         pl_managers := add_reg_manager mk ident (pl_managers (net_state s))\<rparr>,
       net_pending := [], net_out := net_out s @ [reply_message ident join_answer]\<rparr>)"
    using deliver_run [of "platform_services X" ?m3 ?s3] by (simp add: providers_def reply_message_def)
  have "(''router'', ''dispatcher'') \<in> set platform_arrivals" by (simp add: platform_arrivals_def)
  from first_step [OF 1 s refl this] show ?thesis
    by (simp add: next_step [OF 2] next_step [OF 3] next_step [OF 4] del: net_exec.simps(2,3))
qed

section \<open>A request goes to the manager\<close>

text \<open>What the platform makes of the request of a user.\<close>

definition called_by :: "string \<Rightarrow> request_message \<Rightarrow> request_message" where
  "called_by caller r = r\<lparr>req_metadata := om_set ''transport'' (JStr caller) (req_metadata r)\<rparr>"

lemma called_by_sendable: "sendable_request_message r \<Longrightarrow> sendable_request_message (called_by caller r)"
  by (simp add: sendable_request_message_def called_by_def sendable_set)

text \<open>A text that is read as a request.\<close>

definition reads_request :: "(u16 list \<Rightarrow> string) \<Rightarrow> string \<Rightarrow> request_message \<Rightarrow> bool" where
  "reads_request U call r \<longleftrightarrow>
     (\<exists>m. parse_map U call = Inr m \<and> is_request m \<and> fst (parse_request m) = Inr r)"

lemma remote_dispatch_step:
  assumes "reads_request (x_utf X) call r" "contains (req_metadata r) ''manager-key''" "x_contacts X ''managers'' = Some types"
  shows "platform_handle X ''dispatcher'' (B_transport (T_ws caller call)) w =
    (Inr (), w\<lparr>w_sent := w_sent w @ [(''managers'', ''request'', B_task (platform_task caller r))]\<rparr>)"
proof -
  obtain m m' where "parse_map (x_utf X) call = Inr m" "is_request m" "parse_request m = (Inr r, m')"
    using assms(1) by (auto simp: reads_request_def prod_eq_iff)
  with assms(2,3) show ?thesis
    by (simp add: platform_handle_def platform_dispatcher_def read_message_def platform_dispatch_def Let_def send_def)
qed

lemma remote_request_step:
  assumes "om_find ''manager-key'' (req_metadata r) = Some (JStr mk)" "um_find mk (managers_reg (w_priv w)) = Some conn"
    "x_contacts X ''ws'' = Some types"
  shows "managers_handle X ''request'' (B_task (platform_task caller r)) w =
    (Inr (), w\<lparr>w_sent := w_sent w @ [(''ws'', ''write'', B_transport (T_ws conn (serialize_request (called_by caller r))))]\<rparr>)"
  using assms
  by (simp add: managers_handle_def managers_request_def metadata_string_def platform_task_def is_reg_manager_def
      get_manager_transport_id_def write_ws_def set_task_metadata_def called_by_def entry_def Let_def)

text \<open>
  The link reads the request and passes it on under the connection of the caller; a null entry
  \<open>params\<close> may have come into the text, which reads as the same request.
\<close>

lemma link_passes_request:
  assumes "sendable_request_message r" "om_find ''transport'' (req_metadata r) = Some (JStr caller)"
    "x_contacts Y ''router'' = Some types"
  shows "\<exists>text m. link_handle Y ''dispatcher'' (B_transport (T_ws j (serialize_request r))) w =
      (Inr (), w\<lparr>w_sent := w_sent w @ [(''router'', ''dispatcher'', B_transport (T_ws caller text))]\<rparr>)
    \<and> parse_map U text = Inr m \<and> is_request m \<and> fst (parse_request m) = Inr r"
proof -
  define m where "m = om_set ''metadata'' (JMap (req_metadata r)) (snd (parse_request (request_json r)))"
  have md: "om_find ''metadata'' (snd (parse_request (request_json r))) = Some (JMap (req_metadata r))"
    using assms(2) by (auto simp: request_read(3) [OF assms(1)] om_find_set request_json_find)
  have out: "link_handle Y ''dispatcher'' (B_transport (T_ws j (serialize_request r))) w =
      (Inr (), w\<lparr>w_sent := w_sent w @ [(''router'', ''dispatcher'', B_transport (T_ws caller (to_string m)))]\<rparr>)"
    using assms(2,3) md
    by (simp add: link_handle_def link_dispatcher_def read_message_def request_read [OF assms(1)] contains_def
        value_index_def send_def m_def Let_def)
  have "sendable (JMap (request_json r))" "sendable (JMap (req_metadata r))"
    using assms(1) by (simp_all add: sendable_request sendable_request_message_def)
  then have "sendable (JMap m)" by (simp add: m_def request_read(3) [OF assms(1)] sendable_set)
  then have "parse_map U (to_string m) = Inr m" by (rule sendable_text)
  moreover have "is_request m"
    by (simp add: m_def request_read(3) [OF assms(1)] is_request_def contains_def om_find_set request_json_find)
  moreover have "fst (parse_request m) = Inr r"
    by (simp add: fst_parse_request m_def request_read(3) [OF assms(1)] entry_def params_of_def contains_def
        read_metadata_def om_find_set request_json_find)
  ultimately show ?thesis using out by blast
qed

lemma remote_request_run:
  fixes s :: "('db, platform_state) network"
  assumes r: "reads_request (x_utf (X ''router'')) call r" "om_find ''manager-key'' (req_metadata r) = Some (JStr mk)"
    and contacts: "x_contacts (X ''router'') ''managers'' = Some types1" "x_contacts (X ''managers'') ''ws'' = Some types2"
    and s: "net_pending s = []" "um_find mk (managers_reg (pl_managers (net_state s))) = Some conn"
  shows "\<exists>h. net_exec (platform_services X) platform_arrivals
      [Arrive ''router'' ''dispatcher'' (T_ws caller call), Handle 0, Handle 0] ([], s) =
    Some (h, s\<lparr>net_out := net_out s @
      [(''ws'', ''write'', B_transport (T_ws conn (serialize_request (called_by caller r))))]\<rparr>)"
proof -
  let ?m0 = "(''router'', ''dispatcher'', B_transport (T_ws caller call))"
  let ?m1 = "(''managers'', ''request'', B_task (platform_task caller r))"
  let ?out = "(''ws'', ''write'', B_transport (T_ws conn (serialize_request (called_by caller r))))"
  let ?s1 = "s\<lparr>net_pending := [?m1]\<rparr>"
  have key: "contains (req_metadata r) ''manager-key''" using r(2) by (simp add: contains_def)
  have "platform_services X ?m0 (world_of s) = (Inr (), (world_of s)\<lparr>w_sent := [?m1]\<rparr>)"
    by (simp add: platform_services_def inside_def remote_dispatch_step [OF r(1) key contacts(1)])
  then have 1: "deliver (platform_services X) ?m0 (taken ?m0 (s\<lparr>net_pending := [?m0]\<rparr>)) = Some ?s1"
    using deliver_run [of "platform_services X" ?m0 "s\<lparr>net_pending := [?m0]\<rparr>"] by (simp add: providers_def)
  have "platform_services X ?m1 (world_of s) = (Inr (), (world_of s)\<lparr>w_sent := [?out]\<rparr>)"
    using remote_request_step [OF r(2) _ contacts(2), of "part pl_managers (world_of s)" conn caller] s(2)
    by (simp add: platform_services_def inside_def)
  then have 2: "deliver (platform_services X) ?m1 (taken ?m1 ?s1) = Some (s\<lparr>net_out := net_out s @ [?out]\<rparr>)"
    using deliver_run [of "platform_services X" ?m1 ?s1] s(1) by (simp add: providers_def)
  have "(''router'', ''dispatcher'') \<in> set platform_arrivals" by (simp add: platform_arrivals_def)
  from first_step [OF 1 s(1) refl this] show ?thesis by (simp add: next_step [OF 2] del: net_exec.simps(2,3))
qed

section \<open>The reply goes back\<close>

definition addressed_reply :: "string \<Rightarrow> response_message \<Rightarrow> json_map" where
  "addressed_reply caller r = om_set ''metadata'' (JMap (om_set ''transport'' (JStr caller) (res_metadata r))) (response_json r)"

lemma addressed_reply_read:
  assumes "sendable_response r"
  shows "parse_map U (to_string (addressed_reply caller r)) = Inr (addressed_reply caller r)"
    "\<not> is_request (addressed_reply caller r)" "is_response (addressed_reply caller r)"
    "parse_map U (to_string (om_erase ''metadata'' (addressed_reply caller r))) = Inr (om_erase ''metadata'' (addressed_reply caller r))"
proof -
  have "sendable (JMap (res_metadata r))" using assms by (simp add: sendable_response_def)
  then have "sendable (JMap (addressed_reply caller r))"
    using sendable_response_json [OF assms] by (simp add: addressed_reply_def sendable_set)
  then show "parse_map U (to_string (addressed_reply caller r)) = Inr (addressed_reply caller r)"
    "parse_map U (to_string (om_erase ''metadata'' (addressed_reply caller r))) = Inr (om_erase ''metadata'' (addressed_reply caller r))"
    by (simp_all add: sendable_text sendable_erase)
  show "\<not> is_request (addressed_reply caller r)" "is_response (addressed_reply caller r)"
    by (simp_all add: is_request_def is_response_def contains_def addressed_reply_def om_find_set response_json_find)
qed

lemma link_writes_reply:
  assumes "sendable_response r" "x_contacts Y ''client'' = Some types"
  shows "link_handle Y ''write'' (B_transport (T_ws caller (serialize_response r))) w =
    (Inr (), w\<lparr>w_sent := w_sent w @ [(''client'', ''write'', B_transport (T_ws caller (to_string (addressed_reply caller r))))]\<rparr>)"
proof -
  have "parse_map (x_utf Y) (serialize_response r) = Inr (response_json r)"
    using sendable_text [OF sendable_response_json [OF assms(1)]] by (simp add: serialize_response_def)
  then show ?thesis
    using assms(2)
    by (simp add: link_handle_def link_write_def read_message_def contains_def response_json_find entry_def
        addressed_reply_def send_def Let_def)
qed

lemma remote_reply_run:
  fixes s :: "('db, platform_state) network"
  assumes r: "sendable_response r"
    and contacts: "x_contacts (X ''router'') ''managers'' = Some types1" "x_contacts (X ''managers'') ''ws'' = Some types2"
    and s: "net_pending s = []"
  shows "\<exists>h. net_exec (platform_services X) platform_arrivals
      [Arrive ''router'' ''dispatcher'' (T_ws conn (to_string (addressed_reply caller r))), Handle 0, Handle 0] ([], s) =
    Some (h, s\<lparr>net_out := net_out s @
      [(''ws'', ''write'', B_transport (T_ws caller (to_string (om_erase ''metadata'' (addressed_reply caller r)))))]\<rparr>)"
proof -
  let ?text = "to_string (addressed_reply caller r)"
  let ?m0 = "(''router'', ''dispatcher'', B_transport (T_ws conn ?text))"
  let ?m1 = "(''managers'', ''response'', B_transport (T_ws conn ?text))"
  let ?out = "(''ws'', ''write'', B_transport (T_ws caller (to_string (om_erase ''metadata'' (addressed_reply caller r)))))"
  let ?s1 = "s\<lparr>net_pending := [?m1]\<rparr>"
  have md: "om_find ''metadata'' (addressed_reply caller r) = Some (JMap (om_set ''transport'' (JStr caller) (res_metadata r)))"
    by (simp add: addressed_reply_def om_find_set)
  have "platform_services X ?m0 (world_of s) = (Inr (), (world_of s)\<lparr>w_sent := [?m1]\<rparr>)"
    by (simp add: platform_services_def inside_def platform_handle_def platform_dispatcher_def read_message_def
        addressed_reply_read [OF r] contacts(1) send_def)
  then have 1: "deliver (platform_services X) ?m0 (taken ?m0 (s\<lparr>net_pending := [?m0]\<rparr>)) = Some ?s1"
    using deliver_run [of "platform_services X" ?m0 "s\<lparr>net_pending := [?m0]\<rparr>"] by (simp add: providers_def)
  have "platform_services X ?m1 (world_of s) = (Inr (), (world_of s)\<lparr>w_sent := [?out]\<rparr>)"
    by (simp add: platform_services_def inside_def managers_handle_def managers_response_def read_message_def
        addressed_reply_read [OF r] md value_index_def om_find_set contacts(2) write_ws_def send_def)
  then have 2: "deliver (platform_services X) ?m1 (taken ?m1 ?s1) = Some (s\<lparr>net_out := net_out s @ [?out]\<rparr>)"
    using deliver_run [of "platform_services X" ?m1 ?s1] s by (simp add: providers_def)
  have "(''router'', ''dispatcher'') \<in> set platform_arrivals" by (simp add: platform_arrivals_def)
  from first_step [OF 1 s refl this] show ?thesis by (simp add: next_step [OF 2] del: net_exec.simps(2,3))
qed

section \<open>What the two programs do together\<close>

text \<open>The contacts that \<open>init_service\<close> of the platform gives its services.\<close>

definition platform_wired :: "(string \<Rightarrow> 'db ext) \<Rightarrow> bool" where
  "platform_wired X \<longleftrightarrow>
     x_contacts (X ''router'') ''profile'' \<noteq> None \<and> x_contacts (X ''profile'') ''router'' \<noteq> None \<and>
     x_contacts (X ''managers'') ''ws'' \<noteq> None \<and>
     (\<exists>types. x_contacts (X ''router'') ''managers'' = Some types \<and> ''connect'' \<in> set types)"

lemma handshake_sent:
  "x_contacts Y ''client'' = Some types \<Longrightarrow> link_handle Y ''handshake'' (B_transport tr) w =
     (Inr (), w\<lparr>w_sent := w_sent w @ [(''client'', ''write'',
        B_transport (T_ws (tr_id tr) (serialize_request (manager_request ''managers.connect'' (w_priv w)))))]\<rparr>)"
  by (simp add: link_handle_def link_handshake_def send_def)

text \<open>
  \<open>add_reg_manager\<close> is an \<open>emplace\<close>: a manager that is registered keeps its connection.
\<close>

lemma manager_after_add:
  "get_manager_transport_id mk (add_reg_manager mk i d) =
     (case um_find mk (managers_reg d) of None \<Rightarrow> Inr i | Some old \<Rightarrow> Inr old)"
  "k \<noteq> mk \<Longrightarrow> get_manager_transport_id k (add_reg_manager mk i d) = get_manager_transport_id k d"
  by (simp_all add: get_manager_transport_id_def add_reg_manager_def um_find_emplace split: option.splits)

text \<open>
  C16: a manager that connects joins the platform: the frame that its link writes at the
  handshake, brought over any connection to a platform that knows its profile key, by the
  cache or by the password of the database, and whose database counts the manager for that
  login, registers a manager that is not registered under that connection; a manager that is
  already registered keeps the connection it had. In both cases the key is cached, the other
  managers stay as they were, and the frame is answered once, over its own connection, with
  the result \<open>true\<close>.
\<close>

theorem manager_joins_platform:
  fixes s :: "('db, platform_state) network"
  assumes "x_contacts Y ''client'' \<noteq> None" "key = link_profile_key (w_priv w)" "mk = link_manager_key (w_priv w)"
    "platform_wired X" "x_split (X ''router'') ''managers.connect'' ''.'' = [''managers'', ''connect'']"
    "net_pending s = []" "key_passes (X ''profile'') key login (part pl_profile (world_of s))"
    "sql_int (X ''managers'') ''select count(*) from managers where key = ? and profile_login = ?'' [mk, login]
        (part pl_managers (world_of s)) = (Inr n, w1)"
    "n > 0"
  shows "\<exists>frame.
     link_handle Y ''handshake'' (B_transport tr) w =
       (Inr (), w\<lparr>w_sent := w_sent w @ [(''client'', ''write'', B_transport (T_ws (tr_id tr) frame))]\<rparr>)
     \<and> (case net_exec (platform_services X) platform_arrivals
             [Arrive ''router'' ''dispatcher'' (T_ws ident frame), Handle 0, Handle 0, Handle 0, Handle 0] ([], s) of
          None \<Rightarrow> False
        | Some (h, s') \<Rightarrow> let d = pl_managers (net_state s); d' = pl_managers (net_state s') in
            get_manager_transport_id mk d' = (case um_find mk (managers_reg d) of None \<Rightarrow> Inr ident | Some old \<Rightarrow> Inr old)
            \<and> (\<forall>k. k \<noteq> mk \<longrightarrow> get_manager_transport_id k d' = get_manager_transport_id k d)
            \<and> profile_is_auth key (pl_profile (net_state s'))
            \<and> net_pending s' = [] \<and> net_out s' = net_out s @ [reply_message ident join_answer])"
proof -
  obtain types where client: "x_contacts Y ''client'' = Some types" using assms(1) by blast
  obtain t1 t2 t3 t4 where wired: "x_contacts (X ''router'') ''profile'' = Some t1" "x_contacts (X ''profile'') ''router'' = Some t2"
    "x_contacts (X ''router'') ''managers'' = Some t3" "''connect'' \<in> set t3" "x_contacts (X ''managers'') ''ws'' = Some t4"
    using assms(4) by (auto simp: platform_wired_def)
  from remote_join_run [where X = X, OF assms(2,3,5) wired assms(6-9), of ident] show ?thesis
    by (intro exI [of _ "serialize_request (manager_request ''managers.connect'' (w_priv w))"] conjI handshake_sent [OF client])
      (auto simp: Let_def manager_after_add profile_is_auth_def profile_add_auth_def simp del: net_exec.simps)
qed

text \<open>
  C14: a call of a user reaches the manager it names: any text that the platform reads as a
  request with the key of a manager that is online goes through the platform in one frame,
  over the connection of the manager, and the link of the manager hands it to its router
  under the connection of the user, as the same request with that connection added to the
  metadata. The id, the parameters and the metadata of the request hold no floats and no
  integers outside \<open>int\<close>, which \<open>to_string\<close> does not keep.
\<close>

theorem remote_request_arrives:
  fixes s :: "('db, platform_state) network"
  assumes "reads_request (x_utf (X ''router'')) call r" "sendable_request_message r"
    "om_find ''manager-key'' (req_metadata r) = Some (JStr mk)"
    "platform_wired X" "x_contacts Y ''router'' \<noteq> None"
    "net_pending s = []" "um_find mk (managers_reg (pl_managers (net_state s))) = Some conn"
  shows "\<exists>h frame text m.
     net_exec (platform_services X) platform_arrivals
       [Arrive ''router'' ''dispatcher'' (T_ws caller call), Handle 0, Handle 0] ([], s) =
         Some (h, s\<lparr>net_out := net_out s @ [(''ws'', ''write'', B_transport (T_ws conn frame))]\<rparr>)
     \<and> link_handle Y ''dispatcher'' (B_transport (T_ws j frame)) w =
         (Inr (), w\<lparr>w_sent := w_sent w @ [(''router'', ''dispatcher'', B_transport (T_ws caller text))]\<rparr>)
     \<and> parse_map U text = Inr m \<and> is_request m
     \<and> fst (parse_request m) = Inr (r\<lparr>req_metadata := om_set ''transport'' (JStr caller) (req_metadata r)\<rparr>)"
proof -
  obtain t1 t2 t3 where contacts: "x_contacts (X ''router'') ''managers'' = Some t1" "x_contacts (X ''managers'') ''ws'' = Some t2"
    "x_contacts Y ''router'' = Some t3"
    using assms(4,5) by (auto simp: platform_wired_def)
  have tr: "om_find ''transport'' (req_metadata (called_by caller r)) = Some (JStr caller)"
    by (simp add: called_by_def om_find_set)
  obtain out m where "link_handle Y ''dispatcher'' (B_transport (T_ws j (serialize_request (called_by caller r)))) w =
      (Inr (), w\<lparr>w_sent := w_sent w @ [(''router'', ''dispatcher'', B_transport (T_ws caller out))]\<rparr>)"
    "parse_map U out = Inr m" "is_request m" "fst (parse_request m) = Inr (called_by caller r)"
    using link_passes_request [OF called_by_sendable [OF assms(2)] tr contacts(3), of j w U] by blast
  moreover obtain h where "net_exec (platform_services X) platform_arrivals
      [Arrive ''router'' ''dispatcher'' (T_ws caller call), Handle 0, Handle 0] ([], s) =
    Some (h, s\<lparr>net_out := net_out s @
      [(''ws'', ''write'', B_transport (T_ws conn (serialize_request (called_by caller r))))]\<rparr>)"
    using remote_request_run [OF assms(1,3) contacts(1,2) assms(6,7), of caller] by blast
  ultimately show ?thesis unfolding called_by_def by blast
qed

text \<open>
  C15: the reply returns to the user: what a service of the manager writes to a connection
  that its listener does not know goes to the link, from there in one frame to the
  platform, and from the platform to that connection; the user reads a response with the
  same id, result and error object, and no metadata. The id, the result, the metadata and the
  data of the error hold no floats and no integers outside \<open>int\<close>.
\<close>

theorem remote_reply_returns:
  fixes s :: "('db, platform_state) network"
  assumes "sendable_response r" "um_find caller (lst_sessions l) = None" "lst_pipe l = [''platform'']"
    "x_contacts Y ''client'' \<noteq> None" "platform_wired X" "net_pending s = []"
  shows "\<exists>l' b frame h text m.
     ws_handle ''write'' (B_transport (T_ws caller (serialize_response r))) l = Inr l'
     \<and> lst_sent l' = lst_sent l @ [(''platform'', ''write'', b)]
     \<and> link_handle Y ''write'' b w =
         (Inr (), w\<lparr>w_sent := w_sent w @ [(''client'', ''write'', B_transport (T_ws caller frame))]\<rparr>)
     \<and> net_exec (platform_services X) platform_arrivals
         [Arrive ''router'' ''dispatcher'' (T_ws conn frame), Handle 0, Handle 0] ([], s) =
         Some (h, s\<lparr>net_out := net_out s @ [(''ws'', ''write'', B_transport (T_ws caller text))]\<rparr>)
     \<and> parse_map U text = Inr m \<and> is_response m
     \<and> fst (parse_response q m) = Inr (r\<lparr>res_error := res_error q, res_metadata := []\<rparr>)
     \<and> om_find ''error'' m = map_option (\<lambda>e. JMap (error_json e)) (res_error r) \<and> om_find ''metadata'' m = None"
proof -
  obtain t1 t2 t3 where contacts: "x_contacts (X ''router'') ''managers'' = Some t1" "x_contacts (X ''managers'') ''ws'' = Some t2"
    "x_contacts Y ''client'' = Some t3"
    using assms(4,5) by (auto simp: platform_wired_def)
  let ?b = "B_transport (T_ws caller (serialize_response r))"
  let ?m = "om_erase ''metadata'' (addressed_reply caller r)"
  let ?l = "l\<lparr>lst_sent := lst_sent l @ [(''platform'', ''write'', ?b)]\<rparr>"
  have listener: "ws_handle ''write'' ?b l = Inr ?l" "lst_sent ?l = lst_sent l @ [(''platform'', ''write'', ?b)]"
    using assms(2,3) by (simp_all add: ws_handle_def ws_write_def ws_body_def listener_write_def)
  have find: "om_find k ?m = (if k = ''metadata'' then None else om_find k (response_json r))" for k
    by (simp add: om_find_erase addressed_reply_def om_find_set)
  have read: "is_response ?m" "fst (parse_response q ?m) = Inr (r\<lparr>res_error := res_error q, res_metadata := []\<rparr>)"
    "om_find ''error'' ?m = map_option (\<lambda>e. JMap (error_json e)) (res_error r)" "om_find ''metadata'' ?m = None"
    by (cases "res_error r"; simp add: is_response_def contains_def fst_parse_response entry_def read_metadata_def find
        response_json_find)+
  obtain h where "net_exec (platform_services X) platform_arrivals
      [Arrive ''router'' ''dispatcher'' (T_ws conn (to_string (addressed_reply caller r))), Handle 0, Handle 0] ([], s) =
    Some (h, s\<lparr>net_out := net_out s @ [(''ws'', ''write'', B_transport (T_ws caller (to_string ?m)))]\<rparr>)"
    using remote_reply_run [OF assms(1) contacts(1,2) assms(6), of conn caller] by blast
  with listener read link_writes_reply [OF assms(1) contacts(3), of caller w] addressed_reply_read(4) [OF assms(1), of U caller]
  show ?thesis by blast
qed

section \<open>Bob and his manager\<close>

definition bob_link :: "(string list \<Rightarrow> sql_row list, link_impl) world" where
  "bob_link = \<lparr>w_db = (\<lambda>_. []), w_priv = \<lparr>link_profile_key = ''bob.pw'', link_manager_key = ''bob.m''\<rparr>, w_sent = []\<rparr>"

definition bob_call :: request_message where
  "bob_call = \<lparr>req_id = JStr ''7'', req_method = ''groups.list'', req_params = JNull,
     req_metadata = [(''manager-key'', JStr ''bob.m'')]\<rparr>"

lemma bob_facts:
  "link_profile_key (w_priv bob_link) = ''bob.pw''" "link_manager_key (w_priv bob_link) = ''bob.m''"
  "x_contacts demo_pext d = Some [''connect'']" "platform_wired (\<lambda>_. demo_pext)"
  by (simp_all add: bob_link_def demo_pext_def platform_wired_def)

lemma bob_splits:
  "x_split demo_pext ''managers.connect'' ''.'' = [''managers'', ''connect'']"
  "x_split demo_pext ''bob.pw'' ''.'' = [''bob'', ''pw'']"
  by code_simp+

lemma bob_passes: "key_passes demo_pext ''bob.pw'' ''bob'' (part pl_profile (world_of (platform_start ''m'' demo_pdb)))"
proof -
  let ?w = "part pl_profile (world_of (platform_start ''m'' demo_pdb))"
  have "select_profile demo_pext ''bob'' ?w = (Inr (''bob'', ''pw''), ?w)"
    by (simp add: select_profile_def sql_each_def demo_pext_def demo_ext_def demo_pdb_def col_ptr_def platform_start_def
        part_def world_of_def)
  then show ?thesis unfolding key_passes_def bob_splits by blast
qed

lemma bob_counted:
  "sql_int demo_pext ''select count(*) from managers where key = ? and profile_login = ?'' [''bob.m'', ''bob'']
     (part pl_managers (world_of (platform_start ''m'' demo_pdb)))
   = (Inr 1, part pl_managers (world_of (platform_start ''m'' demo_pdb)))"
  by (simp add: sql_int_def demo_pext_def demo_ext_def demo_pdb_def platform_start_def part_def world_of_def)

lemma manager_joins_platform_witness:
  "\<exists>frame.
     link_handle demo_pext ''handshake'' (B_transport (T_ws ''c'' [])) bob_link =
       (Inr (), bob_link\<lparr>w_sent := w_sent bob_link @
          [(''client'', ''write'', B_transport (T_ws (tr_id (T_ws ''c'' [])) frame))]\<rparr>)
     \<and> (case net_exec (platform_services (\<lambda>_. demo_pext)) platform_arrivals
             [Arrive ''router'' ''dispatcher'' (T_ws ''mt'' frame), Handle 0, Handle 0, Handle 0, Handle 0]
             ([], platform_start ''m'' demo_pdb) of
          None \<Rightarrow> False
        | Some (h, s') \<Rightarrow>
            let d = pl_managers (net_state (platform_start ''m'' demo_pdb)); d' = pl_managers (net_state s') in
            get_manager_transport_id ''bob.m'' d' =
              (case um_find ''bob.m'' (managers_reg d) of None \<Rightarrow> Inr ''mt'' | Some old \<Rightarrow> Inr old)
            \<and> (\<forall>k. k \<noteq> ''bob.m'' \<longrightarrow> get_manager_transport_id k d' = get_manager_transport_id k d)
            \<and> profile_is_auth ''bob.pw'' (pl_profile (net_state s'))
            \<and> net_pending s' = [] \<and> net_out s' = net_out (platform_start ''m'' demo_pdb) @ [reply_message ''mt'' join_answer])"
  by (rule manager_joins_platform [where login = "''bob''" and n = 1
        and ?w1.0 = "part pl_managers (world_of (platform_start ''m'' demo_pdb))"])
    (simp_all only: bob_facts bob_splits(1) bob_passes bob_counted platform_start_simps, simp_all)

lemma bob_call_sendable: "sendable_request_message bob_call" "om_find ''manager-key'' (req_metadata bob_call) = Some (JStr ''bob.m'')"
  by (simp_all add: bob_call_def sendable_request_message_def sendable_def json_wf_JMap om_inv_def om_find_Cons)

text \<open>The call as a user may write it: spaces, another order, an entry the platform drops.\<close>

definition bob_text :: string where
  "bob_text = ''{\"method\": \"groups.list\", \"x\": null, \"metadata\": {\"manager-key\": \"bob.m\"}, \"id\": \"7\"}''"

definition bob_map :: json_map where
  "bob_map = [(''id'', JStr ''7''), (''metadata'', JMap [(''manager-key'', JStr ''bob.m'')]),
     (''method'', JStr ''groups.list''), (''x'', JNull)]"

lemma bob_call_read: "reads_request (x_utf demo_pext) bob_text bob_call"
proof -
  have "x_utf demo_pext = (\<lambda>us. [])" by (simp add: demo_pext_def demo_ext_def)
  moreover have "parse_map (\<lambda>us. []) bob_text = Inr bob_map" by code_simp
  moreover have "is_request bob_map" "fst (parse_request bob_map) = Inr bob_call" by code_simp+
  ultimately show ?thesis by (simp add: reads_request_def)
qed

lemma bob_online:
  "net_pending (demo_net demo_connected_state [] []) = []"
  "um_find ''bob.m'' (managers_reg (pl_managers (net_state (demo_net demo_connected_state [] [])))) = Some ''mt''"
  by (simp_all add: demo_net_def demo_connected_state_def um_find_Cons)

lemma remote_request_arrives_witness:
  "\<exists>h frame text m.
     net_exec (platform_services (\<lambda>_. demo_pext)) platform_arrivals
       [Arrive ''router'' ''dispatcher'' (T_ws ''u'' bob_text), Handle 0, Handle 0]
       ([], demo_net demo_connected_state [] []) =
         Some (h, (demo_net demo_connected_state [] [])\<lparr>net_out := net_out (demo_net demo_connected_state [] [])
           @ [(''ws'', ''write'', B_transport (T_ws ''mt'' frame))]\<rparr>)
     \<and> link_handle demo_pext ''dispatcher'' (B_transport (T_ws ''c'' frame)) bob_link =
         (Inr (), bob_link\<lparr>w_sent := w_sent bob_link @ [(''router'', ''dispatcher'', B_transport (T_ws ''u'' text))]\<rparr>)
     \<and> parse_map (\<lambda>us. []) text = Inr m \<and> is_request m
     \<and> fst (parse_request m) = Inr (bob_call\<lparr>req_metadata := om_set ''transport'' (JStr ''u'') (req_metadata bob_call)\<rparr>)"
  by (rule remote_request_arrives [OF bob_call_read bob_call_sendable bob_facts(4) _ bob_online]) (simp add: bob_facts)

lemma remote_reply_returns_witness:
  "\<exists>l' b frame h text m.
     ws_handle ''write'' (B_transport (T_ws ''u'' (serialize_response join_answer))) demo_listener = Inr l'
     \<and> lst_sent l' = lst_sent demo_listener @ [(''platform'', ''write'', b)]
     \<and> link_handle demo_pext ''write'' b bob_link =
         (Inr (), bob_link\<lparr>w_sent := w_sent bob_link @ [(''client'', ''write'', B_transport (T_ws ''u'' frame))]\<rparr>)
     \<and> net_exec (platform_services (\<lambda>_. demo_pext)) platform_arrivals
         [Arrive ''router'' ''dispatcher'' (T_ws ''mt'' frame), Handle 0, Handle 0] ([], demo_net demo_connected_state [] []) =
         Some (h, (demo_net demo_connected_state [] [])\<lparr>net_out := net_out (demo_net demo_connected_state [] [])
           @ [(''ws'', ''write'', B_transport (T_ws ''u'' text))]\<rparr>)
     \<and> parse_map (\<lambda>us. []) text = Inr m \<and> is_response m
     \<and> fst (parse_response empty_response m) =
         Inr (join_answer\<lparr>res_error := res_error empty_response, res_metadata := []\<rparr>)
     \<and> om_find ''error'' m = map_option (\<lambda>e. JMap (error_json e)) (res_error join_answer) \<and> om_find ''metadata'' m = None"
proof (rule remote_reply_returns [OF _ _ _ _ bob_facts(4) bob_online(1)])
  show "sendable_response join_answer"
    by (simp add: sendable_response_def join_answer_def success_def empty_response_def sendable_def json_wf_JMap)
  show "um_find ''u'' (lst_sessions demo_listener) = None" "lst_pipe demo_listener = [''platform'']"
    by (simp_all add: demo_listener_def um_find_Cons)
  show "x_contacts demo_pext ''client'' \<noteq> None" by (simp add: bob_facts)
qed

end
