(* ===== verification/Launch.thy ===== *)
theory Launch
  imports Actor_Run
begin

text \<open>
  How an actor is handed work: \<open>send\<close> and \<open>launch\<close> of \<open>async_actor.cpp\<close>, \<open>launch\<close> of
  \<open>blocking_actor.cpp\<close>, both over \<open>device\<close> of \<open>local_actor.cpp\<close>, and the two \<open>send\<close> of
  \<open>data_provider.cpp\<close>, which has no mailbox.
\<close>

section \<open>An actor with its execution device\<close>

text \<open>
  A null \<open>execution_device *\<close> is \<open>None\<close>. What the actor asks of the executor is recorded: to
  put it behind the other jobs of a device, or to submit it to the coordinator of its
  environment.
\<close>

datatype job_request = Put_execute_latest nat | Submit_central

record ('m, 's) hosted =
  ho_device :: "nat option"
  ho_env :: bool
  ho_mailbox :: "'m blocking_mail_queue"
  ho_state :: 's
  ho_jobs :: "job_request list"

definition set_device :: "nat option \<Rightarrow> ('m, 's) hosted \<Rightarrow> ('m, 's) hosted" where
  "set_device e a = (if e \<noteq> None then a\<lparr>ho_device := e\<rparr> else a)"

text \<open>\<open>device()->put_execute_latest(this)\<close>: undefined without a device.\<close>

definition put_on_device :: "('m, 's) hosted \<Rightarrow> ('m, 's) hosted result" where
  "put_on_device a =
     (case ho_device a of
        None \<Rightarrow> Inl Undefined
      | Some d \<Rightarrow> Inr (a\<lparr>ho_jobs := ho_jobs a @ [Put_execute_latest d]\<rparr>))"

definition async_send :: "'m \<Rightarrow> nat option \<Rightarrow> ('m, 's) hosted \<Rightarrow> (bool \<times> ('m, 's) hosted) result" where
  "async_send m e a =
     (let a = a\<lparr>ho_mailbox := snd (mq_put m (ho_mailbox a))\<rparr> in
      if e \<noteq> None then bindE (put_on_device (set_device e a)) (\<lambda>a. Inr (True, a))
      else if ho_env a then Inr (True, a\<lparr>ho_jobs := ho_jobs a @ [Submit_central]\<rparr>)
      else Inr (True, a))"

text \<open>\<open>std::numeric_limits<size_t>::max()\<close>\<close>

definition max_size :: nat where
  "max_size = 2 ^ 64 - 1"

partial_function (option) launch_loop ::
    "('m, 's) exec \<Rightarrow> 's \<Rightarrow> 'm blocking_mail_queue \<Rightarrow> ('s \<times> 'm blocking_mail_queue) result option" where
  "launch_loop exec s q =
     (case async_run exec max_size s q of
        Inl e \<Rightarrow> Some (Inl e)
      | Inr (r, s, q) \<Rightarrow> if r \<noteq> Awaiting then launch_loop exec s q else Some (Inr (s, q)))"

definition async_launch ::
    "('m, 's) exec \<Rightarrow> nat option \<Rightarrow> bool \<Rightarrow> ('m, 's) hosted \<Rightarrow> ('m, 's) hosted result option" where
  "async_launch exec e hide a =
     (let a = set_device e a in
      if hide then Some (put_on_device a)
      else (case launch_loop exec (ho_state a) (ho_mailbox a) of
              None \<Rightarrow> None
            | Some r \<Rightarrow> Some (bindE r (\<lambda>(s, q). Inr (a\<lparr>ho_state := s, ho_mailbox := q\<rparr>)))))"

definition blocking_launch ::
    "('m, 's) exec \<Rightarrow> nat option \<Rightarrow> bool \<Rightarrow> ('m, 's) hosted \<Rightarrow> ('m, 's) hosted result option" where
  "blocking_launch exec e hide a =
     (let a = set_device e a in
      if hide then Some (put_on_device (set_device e a))
      else (let a = set_device e a in
            case blocking_run exec (ho_state a) (ho_mailbox a) of
              None \<Rightarrow> None
            | Some r \<Rightarrow> Some (bindE r (\<lambda>(_, s, q). Inr (a\<lparr>ho_state := s, ho_mailbox := q\<rparr>)))))"

text \<open>
  A provider handles the message in the thread of the sender. Only the first \<open>send\<close> returns a
  value.
\<close>

definition provider_send :: "('m, 's) exec \<Rightarrow> 'm \<Rightarrow> 's \<Rightarrow> (bool \<times> 's \<times> 'm list) result" where
  "provider_send exec m s = bindE (exec m s) (\<lambda>(s, out). Inr (True, s, out))"

definition provider_send_on :: "('m, 's) exec \<Rightarrow> 'm \<Rightarrow> nat option \<Rightarrow> 's \<Rightarrow> (bool \<times> 's \<times> 'm list) result" where
  "provider_send_on exec m e s = bindE (exec m s) (\<lambda>(s, out). Inl Undefined)"

section \<open>Sending\<close>

text \<open>
  A message that is sent is pending after those that were there, and exactly one job is
  asked for, on the device that was named or of the environment; a message that is sent
  with neither waits for a run that nobody asks for.
\<close>

lemma async_send_run:
  "\<exists>a'. async_send m e a = Inr (True, a')
     \<and> mq.pending (ho_mailbox a') = mq.pending (ho_mailbox a) @ [m]
     \<and> ho_jobs a' = ho_jobs a @ (case e of Some d \<Rightarrow> [Put_execute_latest d] | None \<Rightarrow> if ho_env a then [Submit_central] else [])
     \<and> ho_state a' = ho_state a \<and> ho_device a' = (if e = None then ho_device a else e)"
  by (cases e) (simp_all add: async_send_def Let_def set_device_def put_on_device_def mq.pending_put)

lemma provider_send_on_undefined: "exec m s = Inr so \<Longrightarrow> provider_send_on exec m e s = Inl Undefined"
  by (simp add: provider_send_on_def split: prod.splits)

section \<open>Launching\<close>

lemma launch_idle:
  assumes "mq.pending q = []"
  shows "\<exists>q'. launch_loop exec s q = Some (Inr (s, q')) \<and> mq.pending q' = []"
proof -
  obtain q' where loop: "run_loop exec max_size s q = Inr (True, s, q')"
    using run_loop_idle [OF assms, of max_size exec s] by (auto simp: max_size_def)
  then have run: "async_run exec max_size s q = Inr (Awaiting, s, q')" by (simp add: async_run_def)
  with async_run_spec [of exec max_size s q] assms have "mq.pending q' = []" by simp
  with run show ?thesis by (simp add: launch_loop.simps [of exec s q])
qed

lemma launch_loop_consumes:
  assumes "consume exec max_size s (mq.pending q) = Inr (s', [])"
  shows "\<exists>q'. launch_loop exec s q = Some (Inr (s', q')) \<and> mq.pending q' = []"
proof -
  obtain r q1 where run: "async_run exec max_size s q = Inr (r, s', q1)" and q1: "mq.pending q1 = []"
    using async_run_spec [of exec max_size s q] assms by (auto split: sum.splits)
  show ?thesis
  proof (cases "r = Awaiting")
    case True
    with run q1 show ?thesis by (simp add: launch_loop.simps [of exec s q])
  next
    case False
    with run launch_idle [OF q1, of exec s'] show ?thesis by (simp add: launch_loop.simps [of exec s q])
  qed
qed

text \<open>
  An actor that is launched in the thread of the caller works through its mailbox before
  \<open>launch\<close> returns: when the plain queue is worked off within \<open>max_size\<close> messages, those the
  handlers add included, the call returns, with the state the queue ends in, no message
  pending and no job asked for.
\<close>

lemma launch_consumes:
  assumes "consume exec max_size (ho_state a) (mq.pending (ho_mailbox a)) = Inr (s', [])"
  shows "\<exists>a'. async_launch exec e False a = Some (Inr a') \<and> ho_state a' = s'
     \<and> mq.pending (ho_mailbox a') = [] \<and> ho_jobs a' = ho_jobs a"
proof -
  have same: "ho_state (set_device e a) = ho_state a" "ho_mailbox (set_device e a) = ho_mailbox a"
    "ho_jobs (set_device e a) = ho_jobs a"
    by (simp_all add: set_device_def)
  with launch_loop_consumes [OF assms] show ?thesis by (auto simp: async_launch_def Let_def)
qed

text \<open>An exception of a handler ends the call in the same way as it ends the queue.\<close>

lemma launch_raises:
  assumes "consume exec max_size (ho_state a) (mq.pending (ho_mailbox a)) = Inl x"
  shows "async_launch exec e False a = Some (Inl x)"
proof -
  have "async_run exec max_size (ho_state a) (ho_mailbox a) = Inl x"
    using async_run_spec [of exec max_size "ho_state a" "ho_mailbox a"] assms by (auto split: sum.splits)
  then have "launch_loop exec (ho_state a) (ho_mailbox a) = Some (Inl x)"
    by (simp add: launch_loop.simps [of exec "ho_state a"])
  then show ?thesis by (simp add: async_launch_def Let_def set_device_def)
qed

text \<open>
  A hidden launch runs nothing. It asks for one job, on the device given or on the one the
  actor already had; without either it follows a null pointer.
\<close>

lemma hidden_launch:
  "async_launch exec e True a = blocking_launch exec e True a"
  "async_launch exec e True a =
     Some (case (if e = None then ho_device a else e) of
       None \<Rightarrow> Inl Undefined
     | Some d \<Rightarrow> Inr (a\<lparr>ho_device := Some d, ho_jobs := ho_jobs a @ [Put_execute_latest d]\<rparr>))"
  by (cases e; cases "ho_device a"; simp add: async_launch_def blocking_launch_def Let_def set_device_def put_on_device_def)+

text \<open>A log of two messages, launched in place.\<close>

lemma launch_example:
  "\<exists>a'. async_launch demo_exec None False
      \<lparr>ho_device = None, ho_env = False, ho_mailbox = mq_put_all [1, 2] empty_mail_queue, ho_state = [], ho_jobs = []\<rparr>
      = Some (Inr a') \<and> ho_state a' = [1, 2, 7] \<and> mq.pending (ho_mailbox a') = [] \<and> ho_jobs a' = []"
proof -
  let ?a = "\<lparr>ho_device = None, ho_env = False, ho_mailbox = mq_put_all [1, 2] empty_mail_queue, ho_state = [], ho_jobs = []\<rparr>"
  have "consume demo_exec 3 (ho_state ?a) (mq.pending (ho_mailbox ?a)) = Inr ([1, 2, 7], [])"
    by (simp add: numeral_3_eq_3 demo_exec_def mailbox_code mq.pending_def mq_waiting_def)
  from consume_stable [OF this, of max_size] launch_consumes [of demo_exec ?a "[1, 2, 7]" None]
  show ?thesis by (simp add: max_size_def)
qed

end
